(* ===== verification/Prelude.thy ===== *)
theory Prelude
  imports Main "HOL-Library.Word" "HOL-Library.Monad_Syntax" "HOL-Library.Multiset"
    "HOL-Library.Sublist"
begin

text \<open>
  Shared vocabulary of the development.

  \<^item> Types of the program that several components use: stream identifiers, cookies, URLs.
  \<^item> Crashes as values.  A C++ operation that may dereference a null pointer, run into a failed
    \<open>msg_log_assert()\<close> or overflow a signed integer returns an \<open>option\<close>: \<open>None\<close> is the
    crash, \<open>Some\<close> the normal result.  \<open>post Q r\<close> says that the normal result of \<open>r\<close>, if
    any, satisfies \<open>Q\<close>; it distributes over the \<open>do\<close> blocks of the model by rewriting.
  \<^item> Reachability: \<open>reachable init step\<close> and the locale \<open>machine\<close>, the interface between a
    component that keeps an invariant and the users of its reachable states; \<open>refinement\<close>, the
    interface between a component and the abstract machine that it implements.
\<close>

section \<open>Types shared by the components\<close>

text \<open>\<open>stream_id_t\<close> is a 16 bit integer (\<open>static_assert(sizeof(stream_id_t) == 2)\<close>).\<close>
type_synonym stream_id = "16 word"

text \<open>Data cookies handed out by the list broker are \<open>uint32_t\<close>.\<close>
type_synonym cookie = "32 word"

text \<open>Nanoseconds and seconds; \<open>int64_t\<close> and \<open>std::chrono\<close> time points.\<close>
type_synonym time_ns = int

definition INT64_MAX :: int where "INT64_MAX = 2 ^ 63 - 1"
definition INT64_MIN :: int where "INT64_MIN = - (2 ^ 63)"

definition in_int64 :: "int \<Rightarrow> bool" where
  "in_int64 x \<longleftrightarrow> INT64_MIN \<le> x \<and> x \<le> INT64_MAX"

text \<open>Signed 64 bit multiplication; overflow is undefined behaviour in C++, here \<open>None\<close>.\<close>
definition mul_int64 :: "int \<Rightarrow> int \<Rightarrow> int option" where
  "mul_int64 a b = (if in_int64 (a * b) then Some (a * b) else None)"

section \<open>Collections of facts\<close>

named_theorems wp_simps \<open>rewriting of postconditions over the operations of the model\<close>
named_theorems frame_simps \<open>fields that an operation leaves alone\<close>

section \<open>Partial results\<close>

definition post :: "('a \<Rightarrow> bool) \<Rightarrow> 'a option \<Rightarrow> bool" where
  "post Q r \<longleftrightarrow> (\<forall>x. r = Some x \<longrightarrow> Q x)"

lemma post_None [simp, wp_simps]: "post Q None"
  by (simp add: post_def)

lemma post_Some [simp, wp_simps]: "post Q (Some x) = Q x"
  by (simp add: post_def)

lemma post_bind [simp, wp_simps]: "post Q (m \<bind> f) = post (\<lambda>x. post Q (f x)) m"
  by (cases m) simp_all

lemma post_if [wp_simps]: "post Q (if c then a else b) = ((c \<longrightarrow> post Q a) \<and> (\<not> c \<longrightarrow> post Q b))"
  by simp

lemma post_mono: "post R r \<Longrightarrow> (\<And>x. R x \<Longrightarrow> Q x) \<Longrightarrow> post Q r"
  by (simp add: post_def)

lemma post_conj: "post Q r \<Longrightarrow> post R r \<Longrightarrow> post (\<lambda>x. Q x \<and> R x) r"
  by (simp add: post_def)

lemma postD: "post Q r \<Longrightarrow> r = Some x \<Longrightarrow> Q x"
  by (simp add: post_def)

lemma postI: "(\<And>x. r = Some x \<Longrightarrow> Q x) \<Longrightarrow> post Q r"
  by (simp add: post_def)

lemma post_True [simp]: "post (\<lambda>x. True) r"
  by (simp add: post_def)

section \<open>Lists\<close>

lemma last_butlast_snoc: "xs \<noteq> [] \<Longrightarrow> butlast xs @ [last xs] = xs"
  by simp

lemma take_length_minus: "n \<le> length xs \<Longrightarrow> take (length xs - n) xs @ drop (length xs - n) xs = xs"
  by simp

lemma replicate_update_last: "(replicate (Suc k) a)[k := b] = replicate k a @ [b]"
  by (induction k) simp_all

lemma mset_hd_tl: "xs \<noteq> [] \<Longrightarrow> add_mset (hd xs) (mset (tl xs)) = mset xs"
  by (cases xs) simp_all

section \<open>Reachable states\<close>

inductive reachable :: "('s \<Rightarrow> bool) \<Rightarrow> ('s \<Rightarrow> 'l \<Rightarrow> 's \<Rightarrow> bool) \<Rightarrow> 's \<Rightarrow> bool"
  for init :: "'s \<Rightarrow> bool" and step :: "'s \<Rightarrow> 'l \<Rightarrow> 's \<Rightarrow> bool" where
  reach_init: "init s \<Longrightarrow> reachable init step s"
| reach_step: "reachable init step s \<Longrightarrow> step s l s' \<Longrightarrow> reachable init step s'"

text \<open>
  A component that keeps an invariant promises that it holds initially and that every step
  keeps it; its clients get the invariant in every reachable state.
\<close>

locale machine =
  fixes init :: "'s \<Rightarrow> bool"
    and step :: "'s \<Rightarrow> 'l \<Rightarrow> 's \<Rightarrow> bool"
    and inv :: "'s \<Rightarrow> bool"
  assumes inv_init: "init s \<Longrightarrow> inv s"
    and inv_step: "inv s \<Longrightarrow> step s l s' \<Longrightarrow> inv s'"
begin

lemma reachable_inv: "reachable init step s \<Longrightarrow> inv s"
  by (induction rule: reachable.induct) (auto intro: inv_init inv_step)

lemma step_reachable_inv: "reachable init step s \<Longrightarrow> step s l s' \<Longrightarrow> inv s'"
  by (rule inv_step [OF reachable_inv])

end

text \<open>A run: the states after each of the labels.\<close>
inductive run_of :: "('s \<Rightarrow> 'l \<Rightarrow> 's \<Rightarrow> bool) \<Rightarrow> 's \<Rightarrow> 'l list \<Rightarrow> 's list \<Rightarrow> bool"
  for step :: "'s \<Rightarrow> 'l \<Rightarrow> 's \<Rightarrow> bool" where
  run_Nil: "run_of step s [] []"
| run_Cons: "step s l s' \<Longrightarrow> run_of step s' ls ss \<Longrightarrow> run_of step s (l # ls) (s' # ss)"

context machine
begin

lemma run_inv: "run_of step s ls ss \<Longrightarrow> inv s \<Longrightarrow> inv (last (s # ss))"
proof (induction rule: run_of.induct)
  case (run_Cons s l s' ls ss)
  from run_Cons.IH inv_step [OF run_Cons.prems run_Cons.hyps(1)]
  show ?case by (simp only: last.simps(1) [of s "s' # ss"] list.distinct if_False)
qed simp

end

text \<open>
  A machine implements an abstract one if each of its steps is, seen through the abstraction, a
  step of the abstract machine: then its reachable states and its runs are abstract ones.
\<close>

locale refinement = machine init step inv
  for init :: "'s \<Rightarrow> bool" and step :: "'s \<Rightarrow> 'l \<Rightarrow> 's \<Rightarrow> bool" and inv :: "'s \<Rightarrow> bool" +
  fixes ainit :: "'a \<Rightarrow> bool" and astep :: "'a \<Rightarrow> 'k \<Rightarrow> 'a \<Rightarrow> bool" and abs :: "'s \<Rightarrow> 'a" and lab :: "'l \<Rightarrow> 'k"
  assumes abs_init: "init s \<Longrightarrow> ainit (abs s)"
    and abs_step: "inv s \<Longrightarrow> step s l s' \<Longrightarrow> astep (abs s) (lab l) (abs s')"
begin

lemma reachable_abs: "reachable init step s \<Longrightarrow> reachable ainit astep (abs s)"
  by (induction rule: reachable.induct)
    (auto intro: reachable.intros abs_init abs_step reachable_inv)

lemma run_abs: "run_of step s ls ss \<Longrightarrow> inv s \<Longrightarrow> run_of astep (abs s) (map lab ls) (map abs ss)"
  by (induction rule: run_of.induct) (auto intro: run_of.intros abs_step inv_step)

end

end
