(* ===== verification/Url_Fifo.thy ===== *)
theory Url_Fifo
  imports Prelude
begin

text \<open>
  The URL FIFO, \<^verbatim>\<open>PlayQueue::Queue<T>\<close> of \<^verbatim>\<open>src/urlfifo.hh\<close>: a short queue of the items to
  play next, a store of the items taken out of it by \<open>push()\<close>, \<open>clear()\<close>, \<open>pop_drop()\<close> and
  \<open>clear_while()\<close> until \<open>get_removed()\<close> fetches them, and the set of IDs marked as dropped.

  The queue is generic in the item type; the lock is not modelled, every operation is atomic as
  the class demands of its users.  Pointers returned by \<open>peek()\<close> are values here; operations of
  the streamer that write through them use \<open>update_head\<close>.
\<close>

section \<open>State\<close>

record ('a, 'id) play_queue =
  max_number_of_items :: nat
  queue :: "'a list"
  removed :: "'a list"
  dropped :: "'id set"

definition queue_init :: "nat \<Rightarrow> ('a, 'id) play_queue" where
  "queue_init n = \<lparr>max_number_of_items = n, queue = [], removed = [], dropped = {}\<rparr>"

text \<open>Default argument of the constructor.\<close>
definition default_max_number_of_items :: nat where
  "default_max_number_of_items = 8"

section \<open>Operations\<close>

definition q_size :: "('a, 'id) play_queue \<Rightarrow> nat" where
  "q_size q = length (queue q)"

definition q_empty :: "('a, 'id) play_queue \<Rightarrow> bool" where
  "q_empty q = (queue q = [])"

definition q_full :: "('a, 'id) play_queue \<Rightarrow> bool" where
  "q_full q = (q_size q \<ge> max_number_of_items q)"

text \<open>
  The loop of \<open>clear()\<close>: \<open>removed_\<close> has been extended by as many null pointers as items go, a
  reverse iterator starts at its end (here the index one past the slot it denotes), and each
  round moves the last queue item into the slot and steps towards the front.
\<close>
fun clear_loop :: "nat \<Rightarrow> nat \<Rightarrow> 'a option list \<Rightarrow> 'a list \<Rightarrow> 'a option list \<times> 'a list" where
  "clear_loop 0 it slots xs = (slots, xs)"
| "clear_loop (Suc k) it slots xs =
     clear_loop k (it - 1) (slots[it - 1 := Some (last xs)]) (butlast xs)"

definition clear :: "nat \<Rightarrow> ('a, 'id) play_queue \<Rightarrow> nat \<times> ('a, 'id) play_queue" where
  "clear keep_first_n q =
     (let result = (if keep_first_n < q_size q then q_size q - keep_first_n else 0)
      in if result > 0
         then let slots = map Some (removed q) @ replicate result None;
                  (slots', queue') = clear_loop result (length slots) slots (queue q)
              in (result, q\<lparr>queue := queue', removed := map the slots'\<rparr>)
         else (result, q))"

definition push :: "'a \<Rightarrow> nat \<Rightarrow> ('a, 'id) play_queue \<Rightarrow> nat \<times> ('a, 'id) play_queue" where
  "push item keep_first_n q =
     (let (n, q1) = clear keep_first_n q
      in if n = 0 \<and> q_full q1 then (0, q1)
         else let q2 = q1\<lparr>queue := queue q1 @ [item]\<rparr> in (q_size q2, q2))"

text \<open>\<open>pop(dest)\<close>: \<open>None\<close> when it returns false and leaves \<open>dest\<close> untouched.\<close>
definition pop :: "('a, 'id) play_queue \<Rightarrow> 'a option \<times> ('a, 'id) play_queue" where
  "pop q = (case queue q of [] \<Rightarrow> (None, q) | x # xs \<Rightarrow> (Some x, q\<lparr>queue := xs\<rparr>))"

definition pop_drop :: "('a, 'id) play_queue \<Rightarrow> bool \<times> ('a, 'id) play_queue" where
  "pop_drop q =
     (case queue q of
        [] \<Rightarrow> (False, q)
      | x # xs \<Rightarrow> (True, q\<lparr>queue := xs, removed := removed q @ [x]\<rparr>))"

definition mark_as_dropped :: "'id \<Rightarrow> ('a, 'id) play_queue \<Rightarrow> ('a, 'id) play_queue" where
  "mark_as_dropped i q = q\<lparr>dropped := insert i (dropped q)\<rparr>"

fun clear_while_loop ::
  "('a \<Rightarrow> bool) \<Rightarrow> 'a list \<Rightarrow> 'a list \<Rightarrow> nat \<Rightarrow> nat \<times> 'a list \<times> 'a list" where
  "clear_while_loop pred [] rem cnt = (cnt, [], rem)"
| "clear_while_loop pred (x # xs) rem cnt =
     (if \<not> pred x then (cnt, x # xs, rem)
      else clear_while_loop pred xs (rem @ [x]) (Suc cnt))"

definition clear_while ::
  "('a \<Rightarrow> bool) \<Rightarrow> ('a, 'id) play_queue \<Rightarrow> nat \<times> ('a, 'id) play_queue" where
  "clear_while pred q =
     (let (cnt, xs, rem) = clear_while_loop pred (queue q) (removed q) 0
      in (cnt, q\<lparr>queue := xs, removed := rem\<rparr>))"

definition peek :: "('a, 'id) play_queue \<Rightarrow> 'a option" where
  "peek q = (case queue q of [] \<Rightarrow> None | x # _ \<Rightarrow> Some x)"

definition peek_at :: "nat \<Rightarrow> ('a, 'id) play_queue \<Rightarrow> 'a option" where
  "peek_at pos q = (if pos < length (queue q) then Some (queue q ! pos) else None)"

definition get_removed :: "('a, 'id) play_queue \<Rightarrow> 'a list \<times> ('a, 'id) play_queue" where
  "get_removed q = (removed q, q\<lparr>removed := []\<rparr>)"

definition get_dropped :: "('a, 'id) play_queue \<Rightarrow> 'id set \<times> ('a, 'id) play_queue" where
  "get_dropped q = (dropped q, q\<lparr>dropped := {}\<rparr>)"

text \<open>A write through the pointer returned by \<open>peek()\<close>.\<close>
definition update_head :: "('a \<Rightarrow> 'a) \<Rightarrow> ('a, 'id) play_queue \<Rightarrow> ('a, 'id) play_queue" where
  "update_head f q = (case queue q of [] \<Rightarrow> q | x # xs \<Rightarrow> q\<lparr>queue := f x # xs\<rparr>)"

section \<open>The clearing loop moves the tail of the queue in order\<close>

lemma clear_loop_correct:
  assumes "k \<le> length xs" "length xs - k = n" "length pre = m"
  shows "clear_loop k (m + k) (pre @ replicate k None @ ps) xs
       = (pre @ map Some (drop n xs) @ ps, take n xs)"
  using assms
proof (induction k arbitrary: xs ps)
  case 0
  then show ?case by simp
next
  case (Suc k)
  then have ne: "xs \<noteq> []" by auto
  have upd: "(pre @ replicate (Suc k) None @ ps)[m + k := Some (last xs)]
      = pre @ replicate k None @ (Some (last xs) # ps)"
    using Suc.prems(3)
    by (simp add: list_update_append replicate_update_last del: replicate.simps)
  have "clear_loop (Suc k) (m + Suc k) (pre @ replicate (Suc k) None @ ps) xs
      = clear_loop k (m + k) (pre @ replicate k None @ (Some (last xs) # ps)) (butlast xs)"
    using upd by (simp del: replicate.simps)
  also have "\<dots> = (pre @ map Some (drop n (butlast xs)) @ (Some (last xs) # ps), take n (butlast xs))"
    using Suc.prems by (intro Suc.IH) auto
  also have "map Some (drop n (butlast xs)) @ [Some (last xs)] = map Some (drop n xs)"
  proof -
    have "drop n xs = drop n (butlast xs @ [last xs])" using ne by simp
    also have "\<dots> = drop n (butlast xs) @ [last xs]" using Suc.prems by simp
    finally show ?thesis by simp
  qed
  then have "pre @ map Some (drop n (butlast xs)) @ (Some (last xs) # ps)
      = pre @ map Some (drop n xs) @ ps" by simp
  moreover have "take n (butlast xs) = take n xs"
    using Suc.prems by (simp add: take_butlast)
  ultimately show ?case by simp
qed

lemma clear_eq:
  "clear n q = (length (queue q) - n,
     q\<lparr>queue := take n (queue q), removed := removed q @ drop n (queue q)\<rparr>)"
proof (cases "n < q_size q")
  case True
  let ?k = "q_size q - n"
  have "clear_loop ?k (length (removed q) + ?k)
          (map Some (removed q) @ replicate ?k None @ []) (queue q)
      = (map Some (removed q) @ map Some (drop n (queue q)) @ [], take n (queue q))"
    using True by (intro clear_loop_correct) (auto simp: q_size_def)
  then show ?thesis
    using True by (simp add: clear_def Let_def q_size_def comp_def)
next
  case False
  then show ?thesis by (simp add: clear_def q_size_def)
qed

lemma clear_while_loop_eq:
  "clear_while_loop p xs rem c
     = (c + length (takeWhile p xs), dropWhile p xs, rem @ takeWhile p xs)"
  by (induction xs arbitrary: rem c) auto

lemma clear_while_eq:
  "clear_while p q = (length (takeWhile p (queue q)),
     q\<lparr>queue := dropWhile p (queue q), removed := removed q @ takeWhile p (queue q)\<rparr>)"
  by (simp add: clear_while_def clear_while_loop_eq)

lemmas q_test_defs = q_size_def q_empty_def q_full_def

section \<open>Effect of each operation on the fields\<close>

lemma push_eq:
  "push x n q =
     (if length (queue q) \<le> n \<and> max_number_of_items q \<le> length (queue q) then (0, q)
      else (Suc (min n (length (queue q))),
            q\<lparr>queue := take n (queue q) @ [x], removed := removed q @ drop n (queue q)\<rparr>))"
  by (auto simp: push_def clear_eq q_test_defs Let_def min_def)

lemma pop_eq:
  "pop q = (if queue q = [] then (None, q) else (Some (hd (queue q)), q\<lparr>queue := tl (queue q)\<rparr>))"
  by (simp add: pop_def split: list.split)

lemma pop_drop_eq:
  "pop_drop q = (if queue q = [] then (False, q)
     else (True, q\<lparr>queue := tl (queue q), removed := removed q @ [hd (queue q)]\<rparr>))"
  by (simp add: pop_drop_def split: list.split)

lemma peek_eq: "peek q = (if queue q = [] then None else Some (hd (queue q)))"
  by (simp add: peek_def split: list.split)

lemma update_head_eq:
  "update_head f q = (if queue q = [] then q else q\<lparr>queue := f (hd (queue q)) # tl (queue q)\<rparr>)"
  by (simp add: update_head_def split: list.split)

lemma peek_None_iff: "peek q = None \<longleftrightarrow> queue q = []"
  by (simp add: peek_eq)

lemma peek_Some_iff: "peek q = Some x \<longleftrightarrow> (\<exists>xs. queue q = x # xs)"
  by (cases "queue q") (auto simp: peek_eq)

lemmas queue_op_eqs =
  clear_eq push_eq pop_eq pop_drop_eq clear_while_eq peek_eq update_head_eq
  get_removed_def get_dropped_def mark_as_dropped_def

section \<open>All operations as one step relation\<close>

datatype ('a, 'id) queue_op =
    OpPush 'a nat | OpPop | OpPopDrop | OpMark 'id | OpClear nat | OpClearWhile "'a \<Rightarrow> bool"
  | OpGetRemoved | OpGetDropped | OpUpdateHead "'a \<Rightarrow> 'a"

inductive queue_step ::
  "('a, 'id) play_queue \<Rightarrow> ('a, 'id) queue_op \<Rightarrow> ('a, 'id) play_queue \<Rightarrow> bool" where
  "queue_step q (OpPush x n) (snd (push x n q))"
| "queue_step q OpPop (snd (pop q))"
| "queue_step q OpPopDrop (snd (pop_drop q))"
| "queue_step q (OpMark i) (mark_as_dropped i q)"
| "queue_step q (OpClear n) (snd (clear n q))"
| "queue_step q (OpClearWhile p) (snd (clear_while p q))"
| "queue_step q OpGetRemoved (snd (get_removed q))"
| "queue_step q OpGetDropped (snd (get_dropped q))"
| "queue_step q (OpUpdateHead f) (update_head f q)"

inductive_simps queue_step_iff [simp]:
  "queue_step q (OpPush x n) q'" "queue_step q OpPop q'" "queue_step q OpPopDrop q'"
  "queue_step q (OpMark i) q'" "queue_step q (OpClear n) q'" "queue_step q (OpClearWhile p) q'"
  "queue_step q OpGetRemoved q'" "queue_step q OpGetDropped q'" "queue_step q (OpUpdateHead f) q'"

definition fifo_ok :: "('a, 'id) play_queue \<Rightarrow> bool" where
  "fifo_ok q \<longleftrightarrow> length (queue q) \<le> max_number_of_items q"

lemma fifo_ok_push: "fifo_ok q \<Longrightarrow> fifo_ok (snd (push x n q))"
  by (auto simp: fifo_ok_def push_eq)

lemma fifo_ok_step:
  assumes "fifo_ok q" "queue_step q l q'"
  shows "fifo_ok q'"
  using assms(2,1)
proof cases
  case (6 p)
  then show ?thesis using assms(1) length_dropWhile_le [of p "queue q"]
    by (auto simp: fifo_ok_def clear_while_eq)
qed (auto simp: fifo_ok_def queue_op_eqs)

lemma max_number_of_items_step: "queue_step q l q' \<Longrightarrow> max_number_of_items q' = max_number_of_items q"
  by (cases l) (auto simp: queue_op_eqs)

definition fifo_initial :: "nat \<Rightarrow> ('a, 'id) play_queue \<Rightarrow> bool" where
  "fifo_initial n q \<longleftrightarrow> q = queue_init n"

definition fifo_inv :: "nat \<Rightarrow> ('a, 'id) play_queue \<Rightarrow> bool" where
  "fifo_inv n q \<longleftrightarrow> fifo_ok q \<and> max_number_of_items q = n"

interpretation fifo_machine: machine "fifo_initial n" queue_step "fifo_inv n"
  by unfold_locales
    (auto simp: fifo_initial_def fifo_inv_def queue_init_def fifo_ok_def max_number_of_items_step
      dest: fifo_ok_step [unfolded fifo_ok_def])

section \<open>The contract of a bounded FIFO\<close>

text \<open>
  What the users of the queue rely on, independently of how it is stored: items are appended at
  the end unless the queue is full, taken from the front, and never more than the capacity.
\<close>

datatype 'a fifo_op = Put 'a nat | TakeOut

text \<open>Runs a list of operations; collects the items accepted and the items taken out.\<close>
fun fifo_run ::
  "('a \<Rightarrow> nat \<Rightarrow> 'q \<Rightarrow> nat \<times> 'q) \<Rightarrow> ('q \<Rightarrow> 'a option \<times> 'q) \<Rightarrow> 'a fifo_op list \<Rightarrow> 'q
     \<Rightarrow> 'a list \<times> 'a list \<times> 'q" where
  "fifo_run put takeout [] q = ([], [], q)"
| "fifo_run put takeout (Put x n # ops) q =
     (case put x n q of (k, q1) \<Rightarrow>
        (case fifo_run put takeout ops q1 of (acc, out, q2) \<Rightarrow>
           (if k = 0 then acc else x # acc, out, q2)))"
| "fifo_run put takeout (TakeOut # ops) q =
     (case takeout q of (r, q1) \<Rightarrow>
        (case fifo_run put takeout ops q1 of (acc, out, q2) \<Rightarrow>
           (acc, case r of None \<Rightarrow> out | Some x \<Rightarrow> x # out, q2)))"

text \<open>The operations never ask for queued items to be dropped.\<close>
fun keeps_items :: "nat \<Rightarrow> 'a fifo_op list \<Rightarrow> bool" where
  "keeps_items c [] = True"
| "keeps_items c (Put x n # ops) = (c \<le> n \<and> keeps_items c ops)"
| "keeps_items c (TakeOut # ops) = keeps_items c ops"

locale bounded_fifo =
  fixes items :: "'q \<Rightarrow> 'a list"
    and cap :: "'q \<Rightarrow> nat"
    and put :: "'a \<Rightarrow> nat \<Rightarrow> 'q \<Rightarrow> nat \<times> 'q"
    and takeout :: "'q \<Rightarrow> 'a option \<times> 'q"
  assumes put_cap: "cap (snd (put x n q)) = cap q"
    and put_refused: "length (items q) \<le> n \<Longrightarrow> cap q \<le> length (items q) \<Longrightarrow>
          fst (put x n q) = 0 \<and> items (snd (put x n q)) = items q"
    and put_accepted: "length (items q) < cap q \<Longrightarrow> cap q \<le> n \<Longrightarrow>
          fst (put x n q) > 0 \<and> items (snd (put x n q)) = items q @ [x]"
    and takeout_cap: "cap (snd (takeout q)) = cap q"
    and takeout_items: "items q = (case fst (takeout q) of None \<Rightarrow> [] | Some x \<Rightarrow> [x])
          @ items (snd (takeout q))"
    and takeout_None: "fst (takeout q) = None \<longleftrightarrow> items q = []"
begin

lemma run_order:
  assumes "keeps_items (cap q) ops" "length (items q) \<le> cap q"
    and "fifo_run put takeout ops q = (acc, out, q')"
  shows "out @ items q' = items q @ acc \<and> length (items q') \<le> cap q"
  using assms
proof (induction ops arbitrary: q acc out q')
  case Nil
  then show ?case by simp
next
  case (Cons op ops)
  show ?case
  proof (cases op)
    case (Put x n)
    obtain k q1 where put: "put x n q = (k, q1)" by fastforce
    obtain acc1 out1 q2 where run: "fifo_run put takeout ops q1 = (acc1, out1, q2)"
      by (cases "fifo_run put takeout ops q1") auto
    have res: "out = out1" "q' = q2" "acc = (if k = 0 then acc1 else x # acc1)"
      using Cons.prems(3) put run Put by auto
    have n: "cap q \<le> n" and keep: "keeps_items (cap q1) ops" and c: "cap q1 = cap q"
      using Cons.prems(1) Put put_cap [of x n q] put by auto
    show ?thesis
    proof (cases "length (items q) < cap q")
      case True
      then have i: "items q1 = items q @ [x]" "k > 0"
        using put_accepted [of q n x] n put by auto
      then have "out1 @ items q2 = items q1 @ acc1 \<and> length (items q2) \<le> cap q1"
        using Cons.IH [OF keep _ run] True c by simp
      then show ?thesis using res i c by simp
    next
      case False
      then have i: "items q1 = items q" "k = 0"
        using put_refused [of q n x] Cons.prems(2) n put by auto
      then have "out1 @ items q2 = items q1 @ acc1 \<and> length (items q2) \<le> cap q1"
        using Cons.IH [OF keep _ run] Cons.prems(2) c by simp
      then show ?thesis using res i c by simp
    qed
  next
    case TakeOut
    obtain r q1 where tk: "takeout q = (r, q1)" by fastforce
    obtain acc1 out1 q2 where run: "fifo_run put takeout ops q1 = (acc1, out1, q2)"
      by (cases "fifo_run put takeout ops q1") auto
    have res: "acc = acc1" "q' = q2" "out = (case r of None \<Rightarrow> out1 | Some x \<Rightarrow> x # out1)"
      using Cons.prems(3) tk run TakeOut by auto
    have i: "items q = (case r of None \<Rightarrow> [] | Some x \<Rightarrow> [x]) @ items q1" and c: "cap q1 = cap q"
      using takeout_items [of q] takeout_cap [of q] tk by auto
    have "out1 @ items q2 = items q1 @ acc1 \<and> length (items q2) \<le> cap q1"
      using Cons.IH [OF _ _ run] Cons.prems(1,2) TakeOut c i by simp
    then show ?thesis using res i c by (auto split: option.splits)
  qed
qed

end

interpretation url_fifo: bounded_fifo queue max_number_of_items push pop
  by unfold_locales (auto simp: push_eq pop_eq)

section \<open>Properties\<close>

text \<open>In every state the queue can reach from its constructor through any sequence of its
  operations, it never holds more than \<open>max_number_of_items_\<close> items, and that bound is the one it
  was constructed with.\<close>
lemma queue_bounded:
  assumes "reachable (fifo_initial n) queue_step q"
  shows "length (queue q) \<le> n \<and> max_number_of_items q = n"
  using fifo_machine.reachable_inv [OF assms] by (simp add: fifo_inv_def fifo_ok_def)

lemma queue_bounded_witness:
  "length (queue (snd (push (5::nat) 0 (queue_init 1 :: (nat, nat) play_queue)))) \<le> 1
   \<and> max_number_of_items (snd (push (5::nat) 0 (queue_init 1 :: (nat, nat) play_queue))) = 1"
proof (rule queue_bounded)
  have "reachable (fifo_initial 1) queue_step (queue_init 1 :: (nat, nat) play_queue)"
    by (rule reach_init) (simp add: fifo_initial_def)
  then show "reachable (fifo_initial 1) queue_step
      (snd (push (5::nat) 0 (queue_init 1 :: (nat, nat) play_queue)))"
    by (rule reach_step [where l = "OpPush 5 0"]) simp
qed

text \<open>C24. \<open>push()\<close> refines its documentation on every branch: it returns 0 and changes nothing
  exactly if nothing may be dropped and the queue is full; otherwise it keeps the first
  \<open>keep_first_n\<close> items, moves the others in order to the removed items, appends the new item and
  returns the new size.\<close>
theorem push_spec:
  "push x n q =
     (if length (queue q) \<le> n \<and> max_number_of_items q \<le> length (queue q) then (0, q)
      else (length (take n (queue q) @ [x]),
            q\<lparr>queue := take n (queue q) @ [x], removed := removed q @ drop n (queue q)\<rparr>))"
  by (simp add: push_eq min.commute)

text \<open>C25. First in, first out, nothing lost: as long as no caller asks for queued items to be
  dropped, the items taken out so far followed by those still queued are the initial items
  followed by the accepted ones, in order.\<close>
theorem fifo_order:
  assumes "keeps_items (max_number_of_items q) ops" "length (queue q) \<le> max_number_of_items q"
    and "fifo_run push pop ops q = (acc, out, q')"
  shows "out @ queue q' = queue q @ acc"
  using url_fifo.run_order [OF assms] by simp

lemma fifo_order_witness:
  "[7] @ queue \<lparr>max_number_of_items = 2, queue = [8], removed = [], dropped = ({} :: nat set)\<rparr>
     = queue (queue_init 2 :: (nat, nat) play_queue) @ [7, 8 :: nat]"
  by (rule fifo_order [where ops = "[Put 7 2, Put 8 9, Put 9 2, TakeOut]"])
    (simp_all add: queue_init_def push_eq pop_eq)

text \<open>C26. No operation loses or duplicates an item: each operation leaves the multiset of the
  queued and the removed items unchanged, except that \<open>push()\<close> adds the accepted item, \<open>pop()\<close>
  hands out the head, and \<open>get_removed()\<close> hands out all removed items.\<close>
theorem queue_conserves_items:
  "mset (queue (snd (push x n q))) + mset (removed (snd (push x n q)))
     = (if fst (push x n q) = 0 then {#} else {#x#}) + mset (queue q) + mset (removed q)
   \<and> mset (queue (snd (pop q))) + mset (removed (snd (pop q)))
     + (case fst (pop q) of None \<Rightarrow> {#} | Some y \<Rightarrow> {#y#}) = mset (queue q) + mset (removed q)
   \<and> mset (queue (snd (pop_drop q))) + mset (removed (snd (pop_drop q)))
     = mset (queue q) + mset (removed q)
   \<and> mset (queue (snd (clear n q))) + mset (removed (snd (clear n q)))
     = mset (queue q) + mset (removed q)
   \<and> mset (queue (snd (clear_while p q))) + mset (removed (snd (clear_while p q)))
     = mset (queue q) + mset (removed q)
   \<and> mset (queue (snd (get_removed q))) + mset (removed (snd (get_removed q)))
     + mset (fst (get_removed q)) = mset (queue q) + mset (removed q)"
proof -
  have split_mset: "mset (take n (queue q)) + mset (drop n (queue q)) = mset (queue q)"
    by (simp flip: mset_append)
  have split_while: "mset (takeWhile p (queue q)) + mset (dropWhile p (queue q)) = mset (queue q)"
    by (simp flip: mset_append)
  show ?thesis
    using split_mset split_while
    by (simp add: queue_op_eqs ac_simps mset_hd_tl [symmetric])
qed

end
