(* ===== verification/Strbo_Usb_Url.thy ===== *)
theory Strbo_Usb_Url
  imports Prelude
begin

text \<open>
  Translation of \<^verbatim>\<open>strbo-usb:\<close> URLs to \<^verbatim>\<open>file:\<close> URLs
  (\<^verbatim>\<open>src/strbo_usb_url.cc\<close>).

  The operating system, the shell and GStreamer's URI parser are parameters: a record of the
  functions called, over a type \<open>'w\<close> of the outside world.  C strings are HOL strings without
  NUL; a segment of a URI path is a \<^verbatim>\<open>char *\<close> that may be null, which is \<open>None\<close>.
\<close>

section \<open>The outside world\<close>

record gst_uri =
  uri_scheme :: "string option"
  uri_path_segments :: "string option list"

record 'w usb_env =
  os_mkstemp :: "string \<Rightarrow> 'w \<Rightarrow> string option \<times> 'w"
  os_file_delete :: "string \<Rightarrow> 'w \<Rightarrow> 'w"
  os_system_failed :: "string \<Rightarrow> 'w \<Rightarrow> bool \<times> 'w"
  os_map_file :: "string \<Rightarrow> 'w \<Rightarrow> string option"
  gst_filename_to_uri :: "string \<Rightarrow> string option"
  gst_uri_from_string :: "string \<Rightarrow> gst_uri option"

section \<open>Temporary files\<close>

definition NAME_TEMPLATE :: string where
  "NAME_TEMPLATE = ''/tmp/streamplayer_mounta.XXXXXX''"

text \<open>
  The constructor \<open>Tempfile(false)\<close>: the name of the file created, or \<open>None\<close> when \<open>created()\<close> is
  false (the name is then empty).  The file is closed again at once.
\<close>
definition tempfile_create :: "('w, 'z) usb_env_scheme \<Rightarrow> 'w \<Rightarrow> string option \<times> 'w" where
  "tempfile_create E w = os_mkstemp E NAME_TEMPLATE w"

text \<open>The destructor.\<close>
definition tempfile_destroy ::
  "('w, 'z) usb_env_scheme \<Rightarrow> string option \<Rightarrow> 'w \<Rightarrow> 'w" where
  "tempfile_destroy E name w =
     (case name of None \<Rightarrow> w | Some n \<Rightarrow> if n \<noteq> [] then os_file_delete E n w else w)"

section \<open>From UUID to file name\<close>

definition FAKE_PREFIX :: string where
  "FAKE_PREFIX = ''DO-NOT-STORE:''"

definition beyond_fake_uuid_prefix :: "string \<Rightarrow> string option" where
  "beyond_fake_uuid_prefix uuid =
     (if take (length FAKE_PREFIX) uuid \<noteq> FAKE_PREFIX then None
      else Some (drop (length FAKE_PREFIX) uuid))"

definition device_name :: "string \<Rightarrow> string" where
  "device_name uuid =
     (case beyond_fake_uuid_prefix uuid of
        Some content \<Rightarrow> map (\<lambda>ch. if ch = CHR ''_'' then CHR ''/'' else ch) content
      | None \<Rightarrow> ''$(/usr/bin/realpath /dev/disk/by-uuid/'' @ uuid @ '')'')"

definition mount_command :: "string \<Rightarrow> string \<Rightarrow> string" where
  "mount_command dev tempname =
     ''/bin/grep '' @ [CHR 0x22] @ dev @ [CHR 0x22] @ '' /proc/mounts | cut -f 2 -d '' @
     [CHR 0x27] @ '' '' @ [CHR 0x27] @ '' >'' @ tempname"

text \<open>Appends the remaining path segments; \<open>None\<close> if one of them is a null pointer.\<close>
fun append_segments :: "string \<Rightarrow> string option list \<Rightarrow> string option" where
  "append_segments s [] = Some s"
| "append_segments s (None # segs) = None"
| "append_segments s (Some x # segs) = append_segments (s @ ''/'' @ x) segs"

text \<open>The body of \<open>translate()\<close> between construction and destruction of the temporary file.\<close>
definition translate_with_tempfile ::
  "('w, 'z) usb_env_scheme \<Rightarrow> string \<Rightarrow> string \<Rightarrow> string option list \<Rightarrow> 'w \<Rightarrow> (string \<times> 'w) option"
where
  "translate_with_tempfile E tempname uuid path_segments w =
     (case os_system_failed E (mount_command (device_name uuid) tempname) w of
        (failed, w1) \<Rightarrow>
          if failed then Some ([], w1)
          else (case os_map_file E tempname w1 of
                  None \<Rightarrow> Some ([], w1)
                | Some output \<Rightarrow>
                    let tempstring = (if length output > 0 then butlast output else [])
                    in if tempstring = [] then Some ([], w1)
                       else (case append_segments tempstring path_segments of
                               None \<Rightarrow> None
                             | Some file \<Rightarrow>
                                 (case gst_filename_to_uri E file of
                                    None \<Rightarrow> Some ([], w1)
                                  | Some file_uri \<Rightarrow> Some (file_uri, w1)))))"

definition translate ::
  "('w, 'z) usb_env_scheme \<Rightarrow> string \<Rightarrow> string option list \<Rightarrow> 'w \<Rightarrow> (string \<times> 'w) option" where
  "translate E uuid path_segments w =
     (case tempfile_create E w of
        (None, w1) \<Rightarrow> Some ([], tempfile_destroy E None w1)
      | (Some name, w1) \<Rightarrow>
          do { (result, w2) \<leftarrow> translate_with_tempfile E name uuid path_segments w1;
               Some (result, tempfile_destroy E (Some name) w2) })"

text \<open>The result is the translated URL, the flag \<open>failed\<close>, and the world.\<close>
definition translate_url_to_regular_url ::
  "('w, 'z) usb_env_scheme \<Rightarrow> string \<Rightarrow> 'w \<Rightarrow> (string \<times> bool \<times> 'w) option" where
  "translate_url_to_regular_url E url w =
     (case gst_uri_from_string E url of
        None \<Rightarrow> Some ([], True, w)
      | Some uri \<Rightarrow>
          if uri_scheme uri = Some ''strbo-usb'' then
            (case uri_path_segments uri of
               _ # seg # segs \<Rightarrow>
                 (case seg of
                    None \<Rightarrow> None
                  | Some uuid \<Rightarrow>
                      do { (result, w1) \<leftarrow> translate E uuid segs w;
                           Some (result, result = [], w1) })
             | _ \<Rightarrow> Some ([], True, w))
          else Some ([], False, w))"

section \<open>Lemmas\<close>

lemma append_segments_Some:
  "append_segments s (map Some segs) = Some (s @ concat (map (\<lambda>x. ''/'' @ x) segs))"
  by (induction segs arbitrary: s) simp_all

lemma append_segments_defined_iff: "append_segments s segs \<noteq> None \<longleftrightarrow> None \<notin> set segs"
  by (induction s segs rule: append_segments.induct) auto

lemma translate_url_failed:
  "translate_url_to_regular_url E url w = Some (result, failed, w') \<Longrightarrow> result \<noteq> [] \<Longrightarrow> \<not> failed"
  by (auto simp: translate_url_to_regular_url_def Option.bind_eq_Some_conv
      split: option.splits if_splits list.splits)

lemma translate_defined: "None \<notin> set segs \<Longrightarrow> translate E uuid segs w \<noteq> None"
  using append_segments_defined_iff
  by (auto simp: translate_def translate_with_tempfile_def Let_def Option.bind_eq_None_conv
      split: prod.splits option.splits if_splits) (metis option.distinct(1))+

section \<open>Properties\<close>

text \<open>C32. The temporary file never outlives the translation: if \<open>mkstemp()\<close> created a file with a
  non-empty name, then the last thing done on every branch of \<open>translate()\<close>, successful or
  not, is to delete that file.\<close>
theorem translate_deletes_tempfile:
  assumes "os_mkstemp E NAME_TEMPLATE w = (Some name, w1)" "name \<noteq> []"
    and "translate E uuid segs w = Some (result, w')"
  shows "\<exists>w2. w' = os_file_delete E name w2"
  using assms
  by (auto simp: translate_def tempfile_create_def tempfile_destroy_def Option.bind_eq_Some_conv)

definition usb_env_sample :: "string list usb_env" where
  "usb_env_sample =
     \<lparr>os_mkstemp = (\<lambda>t w. (Some ''/tmp/x'', ''/tmp/x'' # w)),
      os_file_delete = (\<lambda>n w. removeAll n w),
      os_system_failed = (\<lambda>c w. (False, w)),
      os_map_file = (\<lambda>n w. Some ''/media/usb1 ''),
      gst_filename_to_uri = (\<lambda>f. Some (''file://'' @ f)),
      gst_uri_from_string = (\<lambda>u. Some \<lparr>uri_scheme = Some ''strbo-usb'',
          uri_path_segments = [None, Some ''DO-NOT-STORE:_dev_sda1'', Some ''a.mp3'']\<rparr>)\<rparr>"

lemma translate_sample:
  "translate usb_env_sample ''DO-NOT-STORE:_dev_sda1'' [Some ''a.mp3''] []
     = Some (''file:///media/usb1/a.mp3'', [])"
  by (simp add: translate_def translate_with_tempfile_def tempfile_create_def tempfile_destroy_def
      usb_env_sample_def)

lemma translate_deletes_tempfile_witness:
  "\<exists>w2. [] = os_file_delete usb_env_sample ''/tmp/x'' w2"
  by (rule translate_deletes_tempfile [OF _ _ translate_sample, where ?w1.0 = "[''/tmp/x'']"])
    (simp_all add: usb_env_sample_def)

text \<open>Which device a UUID stands for: fake ones name it, with underscores for slashes, for all others the
  shell has to look it up.\<close>
lemma device_name_cases:
  "device_name (FAKE_PREFIX @ content) = map (\<lambda>ch. if ch = CHR ''_'' then CHR ''/'' else ch) content"
  "take (length FAKE_PREFIX) uuid \<noteq> FAKE_PREFIX \<Longrightarrow>
     device_name uuid = ''$(/usr/bin/realpath /dev/disk/by-uuid/'' @ uuid @ '')''"
  by (simp_all add: device_name_def beyond_fake_uuid_prefix_def)

lemma append_segments_eq_Some:
  "append_segments s segs = Some file \<longleftrightarrow> (\<exists>xs. segs = map Some xs \<and> file = s @ concat (map (\<lambda>x. ''/'' @ x) xs))"
proof (induction s segs rule: append_segments.induct)
  case (3 s x segs)
  have "(\<exists>xs. Some x # segs = map Some xs \<and> file = s @ concat (map (\<lambda>x. ''/'' @ x) xs)) \<longleftrightarrow>
      (\<exists>xs. segs = map Some xs \<and> file = (s @ ''/'' @ x) @ concat (map (\<lambda>x. ''/'' @ x) xs))"
    by (auto simp: Cons_eq_map_conv)
  then show ?case using 3 by simp
qed auto

text \<open>The result of \<open>translate()\<close> is empty unless each of its steps has succeeded.\<close>
lemma translate_nonempty:
  "translate E uuid segs w = Some (res, w') \<and> res \<noteq> [] \<longleftrightarrow>
     (\<exists>xs name w1 w2 mnt nl.
        segs = map Some xs \<and> os_mkstemp E NAME_TEMPLATE w = (Some name, w1) \<and>
        os_system_failed E (mount_command (device_name uuid) name) w1 = (False, w2) \<and>
        os_map_file E name w2 = Some (mnt @ [nl]) \<and> mnt \<noteq> [] \<and>
        gst_filename_to_uri E (mnt @ concat (map (\<lambda>x. ''/'' @ x) xs)) = Some res \<and> res \<noteq> [] \<and>
        w' = tempfile_destroy E (Some name) w2)"
    (is "?l \<longleftrightarrow> ?r")
proof
  assume ?l
  then obtain name w1 w2 out path where
      "os_mkstemp E NAME_TEMPLATE w = (Some name, w1)" "os_map_file E name w2 = Some out"
      "os_system_failed E (mount_command (device_name uuid) name) w1 = (False, w2)"
      "out \<noteq> []" "butlast out \<noteq> []" "append_segments (butlast out) segs = Some path"
      "gst_filename_to_uri E path = Some res" "w' = tempfile_destroy E (Some name) w2"
    by (auto simp: translate_def tempfile_create_def translate_with_tempfile_def Let_def bind_eq_Some_conv
        split: prod.splits option.splits if_splits)
  moreover have "out = butlast out @ [last out]" using \<open>out \<noteq> []\<close> by simp
  ultimately show ?r using \<open>?l\<close> unfolding append_segments_eq_Some by metis
next
  assume ?r
  then show ?l
    by (auto simp: translate_def tempfile_create_def translate_with_tempfile_def append_segments_Some)
qed

lemma translate_url_nonempty:
  "translate_url_to_regular_url E url w = Some (res, failed, w') \<and> res \<noteq> [] \<longleftrightarrow>
     \<not> failed \<and> (\<exists>uri s0 uuid segs. gst_uri_from_string E url = Some uri \<and> uri_scheme uri = Some ''strbo-usb'' \<and>
       uri_path_segments uri = s0 # Some uuid # segs \<and> translate E uuid segs w = Some (res, w') \<and> res \<noteq> [])"
  by (auto simp: translate_url_to_regular_url_def bind_eq_Some_conv split: option.splits if_splits list.splits)

lemma translate_url_other:
  "translate_url_to_regular_url E url w = Some ([], False, w') \<longleftrightarrow>
     w' = w \<and> (\<exists>uri. gst_uri_from_string E url = Some uri \<and> uri_scheme uri \<noteq> Some ''strbo-usb'')"
  by (auto simp: translate_url_to_regular_url_def bind_eq_Some_conv split: option.splits if_splits list.splits)

lemma translate_url_crash:
  assumes "translate_url_to_regular_url E url w = None"
  shows "\<exists>uri. gst_uri_from_string E url = Some uri \<and> uri_scheme uri = Some ''strbo-usb'' \<and>
    None \<in> set (tl (uri_path_segments uri))"
proof -
  obtain uri where uri: "gst_uri_from_string E url = Some uri" "uri_scheme uri = Some ''strbo-usb''"
    using assms by (auto simp: translate_url_to_regular_url_def split: option.splits if_splits)
  obtain s0 seg segs where segs: "uri_path_segments uri = s0 # seg # segs"
    using assms uri by (auto simp: translate_url_to_regular_url_def split: list.splits)
  have "None \<in> set (seg # segs)"
  proof (cases seg)
    case (Some uuid)
    then have "translate E uuid segs w = None"
      using assms uri segs by (cases "translate E uuid segs w") (auto simp: translate_url_to_regular_url_def)
    then show ?thesis using translate_defined [of segs E uuid w] by auto
  qed simp
  then show ?thesis using uri segs by auto
qed

text \<open>C33. What the translation of a URL gives.  It gives a URL exactly if the argument is a
  \<^verbatim>\<open>strbo-usb:\<close> URL with at least two path segments, none of them from the second on empty, the
  temporary file could be made, the command that looks up the mount point of the device has succeeded
  and its output is more than one character, and GStreamer has made a URI; that URI, of the mount
  point, which is the output less its last character, followed by the third and all further
  path segments, is the result, and the temporary file is deleted.  The result is empty and no
  failure is reported exactly for URLs of other schemes, and nothing is touched.  In all other
  cases a failure is reported with an empty result, where the code does not crash; it crashes
  only for an empty segment, which is a null pointer.
\<close>
theorem translate_url_exactly:
  "(translate_url_to_regular_url E url w = Some (res, failed, w') \<and> res \<noteq> [] \<longleftrightarrow>
     \<not> failed \<and> (\<exists>uri s0 uuid xs name w1 w2 mnt nl.
        gst_uri_from_string E url = Some uri \<and> uri_scheme uri = Some ''strbo-usb'' \<and>
        uri_path_segments uri = s0 # Some uuid # map Some xs \<and>
        os_mkstemp E NAME_TEMPLATE w = (Some name, w1) \<and>
        os_system_failed E (mount_command (device_name uuid) name) w1 = (False, w2) \<and>
        os_map_file E name w2 = Some (mnt @ [nl]) \<and> mnt \<noteq> [] \<and>
        gst_filename_to_uri E (mnt @ concat (map (\<lambda>x. ''/'' @ x) xs)) = Some res \<and> res \<noteq> [] \<and>
        w' = tempfile_destroy E (Some name) w2)) \<and>
   (translate_url_to_regular_url E url w = Some ([], False, w') \<longleftrightarrow>
      w' = w \<and> (\<exists>uri. gst_uri_from_string E url = Some uri \<and> uri_scheme uri \<noteq> Some ''strbo-usb'')) \<and>
   (translate_url_to_regular_url E url w = None \<longrightarrow>
      (\<exists>uri. gst_uri_from_string E url = Some uri \<and> uri_scheme uri = Some ''strbo-usb'' \<and>
         None \<in> set (tl (uri_path_segments uri))))"
proof (intro conjI impI)
  show "translate_url_to_regular_url E url w = Some (res, failed, w') \<and> res \<noteq> [] \<longleftrightarrow>
     \<not> failed \<and> (\<exists>uri s0 uuid xs name w1 w2 mnt nl.
        gst_uri_from_string E url = Some uri \<and> uri_scheme uri = Some ''strbo-usb'' \<and>
        uri_path_segments uri = s0 # Some uuid # map Some xs \<and>
        os_mkstemp E NAME_TEMPLATE w = (Some name, w1) \<and>
        os_system_failed E (mount_command (device_name uuid) name) w1 = (False, w2) \<and>
        os_map_file E name w2 = Some (mnt @ [nl]) \<and> mnt \<noteq> [] \<and>
        gst_filename_to_uri E (mnt @ concat (map (\<lambda>x. ''/'' @ x) xs)) = Some res \<and> res \<noteq> [] \<and>
        w' = tempfile_destroy E (Some name) w2)"
    unfolding translate_url_nonempty translate_nonempty by (rule iffI; clarify; blast)
qed (rule translate_url_other, rule translate_url_crash)

lemma translate_url_exactly_witness:
  "translate_url_to_regular_url usb_env_sample ''strbo-usb:/DO-NOT-STORE:_dev_sda1/a.mp3'' []
     = Some (''file:///media/usb1/a.mp3'', False, [])"
proof -
  have "translate_url_to_regular_url usb_env_sample u [] = Some (''file:///media/usb1/a.mp3'', False, []) \<and>
      ''file:///media/usb1/a.mp3'' \<noteq> ([] :: string)" for u
    unfolding translate_url_exactly [THEN conjunct1]
    by (simp add: usb_env_sample_def tempfile_destroy_def)
      (rule exI [of _ "[''a.mp3'']"], simp)
  then show ?thesis by blast
qed

text \<open>The device is put into the command as it is: a command substitution in the first path segment of a
  URL is run by the shell.\<close>
lemma device_name_not_quoted:
  "mount_command (device_name ''$(reboot)'') ''/tmp/x'' =
     ''/bin/grep '' @ [CHR 0x22] @ ''$(/usr/bin/realpath /dev/disk/by-uuid/$(reboot))'' @ [CHR 0x22] @
     '' /proc/mounts | cut -f 2 -d '' @ [CHR 0x27] @ '' '' @ [CHR 0x27] @ '' >/tmp/x''"
  by (simp add: mount_command_def device_name_def beyond_fake_uuid_prefix_def FAKE_PREFIX_def)

text \<open>An empty path segment, which GStreamer represents by a null pointer, is fatal.\<close>
lemma empty_segment_crashes: "append_segments ''/mnt/usb'' [Some ''a'', None, Some ''b''] = None"
  by simp

end
