(* ===== verification/Url_Collection.thy ===== *)
theory Url_Collection
  imports Strbo_Usb_Url
begin

text \<open>
  URLs and collections of alternative URLs for one stream (\<^verbatim>\<open>src/url_collection.hh\<close>,
  \<^verbatim>\<open>src/url_collection.cc\<close>), and the classification of streams by URL
  (\<^verbatim>\<open>src/strbo_url.cc\<close>).

  Time points are integers in nanoseconds.  \<open>urls_[selected_url_]\<close> on an empty vector is
  undefined behaviour: \<open>get_selected\<close> is \<open>None\<close> then.
\<close>

section \<open>A single URL\<close>

record url =
  direct_url :: string
  original_url_string :: string
  is_airable_link :: bool
  when_expected_expiry :: time_ns

definition time_point_min :: time_ns where "time_point_min = INT64_MIN"
definition time_point_max :: time_ns where "time_point_max = INT64_MAX"

text \<open>The two constructors.\<close>
definition url_direct :: "string \<Rightarrow> string \<Rightarrow> url" where
  "url_direct direct original =
     \<lparr>direct_url = direct, original_url_string = original, is_airable_link = False,
      when_expected_expiry = time_point_max\<rparr>"

definition url_link :: "string \<Rightarrow> url" where
  "url_link original =
     \<lparr>direct_url = [], original_url_string = original, is_airable_link = True,
      when_expected_expiry = time_point_min\<rparr>"

text \<open>Result and the out parameter \<open>is_airable_link\<close>.\<close>
definition get_stream_uri :: "url \<Rightarrow> string \<times> bool" where
  "get_stream_uri u =
     (if is_airable_link u then direct_url u
      else (if direct_url u = [] then original_url_string u else direct_url u),
      is_airable_link u)"

definition seconds_ns :: "int \<Rightarrow> time_ns" where
  "seconds_ns n = n * 1000000000"

definition set_resolved_uri :: "string \<Rightarrow> int \<Rightarrow> time_ns \<Rightarrow> url \<Rightarrow> url" where
  "set_resolved_uri uri expected_valid now u =
     (if is_airable_link u
      then u\<lparr>when_expected_expiry := now + seconds_ns expected_valid, direct_url := uri\<rparr>
      else u)"

definition clear_expired_uri :: "time_ns \<Rightarrow> url \<Rightarrow> bool \<times> url" where
  "clear_expired_uri now u =
     (if \<not> is_airable_link u then (False, u)
      else if direct_url u = [] then (False, u)
      else if now < when_expected_expiry u then (False, u)
      else (True, u\<lparr>direct_url := [], when_expected_expiry := time_point_min\<rparr>))"

section \<open>A collection of alternative URLs\<close>

record stream_urls =
  urls :: "url list"
  selected_url :: nat

definition translate_and_append_url ::
  "('w, 'z) usb_env_scheme \<Rightarrow> url list \<Rightarrow> string \<Rightarrow> 'w \<Rightarrow> (url list \<times> 'w) option" where
  "translate_and_append_url E us uri w =
     do { (xlated_url, failed, w1) \<leftarrow> translate_url_to_regular_url E uri w;
          Some (if failed then us else us @ [url_direct xlated_url uri], w1) }"

text \<open>The loop over the \<^verbatim>\<open>(sb)\<close> tuples of the constructor from a GVariant.\<close>
fun append_variant_urls ::
  "('w, 'z) usb_env_scheme \<Rightarrow> (string \<times> bool) list \<Rightarrow> url list \<Rightarrow> 'w \<Rightarrow> (url list \<times> 'w) option"
where
  "append_variant_urls E [] us w = Some (us, w)"
| "append_variant_urls E ((uri, is_link) # rest) us w =
     (if is_link
      then append_variant_urls E rest (if uri = [] then us else us @ [url_link uri]) w
      else do { (us', w1) \<leftarrow> translate_and_append_url E us uri w;
                append_variant_urls E rest us' w1 })"

definition stream_urls_of_variant ::
  "('w, 'z) usb_env_scheme \<Rightarrow> (string \<times> bool) list \<Rightarrow> 'w \<Rightarrow> (stream_urls \<times> 'w) option" where
  "stream_urls_of_variant E variant w =
     do { (us, w1) \<leftarrow> append_variant_urls E variant [] w;
          Some (\<lparr>urls = us, selected_url = 0\<rparr>, w1) }"

definition stream_urls_of_direct ::
  "('w, 'z) usb_env_scheme \<Rightarrow> string \<Rightarrow> 'w \<Rightarrow> (stream_urls \<times> 'w) option" where
  "stream_urls_of_direct E uri w =
     do { (us, w1) \<leftarrow> translate_and_append_url E [] uri w;
          Some (\<lparr>urls = us, selected_url = 0\<rparr>, w1) }"

definition select_next_index :: "stream_urls \<Rightarrow> bool \<times> stream_urls" where
  "select_next_index su =
     (if selected_url su + 1 < length (urls su)
      then (True, su\<lparr>selected_url := selected_url su + 1\<rparr>)
      else (False, su))"

definition select_url_index :: "nat \<Rightarrow> stream_urls \<Rightarrow> bool \<times> stream_urls" where
  "select_url_index idx su =
     (if idx < length (urls su) then (True, su\<lparr>selected_url := idx\<rparr>) else (False, su))"

definition get_selected :: "stream_urls \<Rightarrow> url option" where
  "get_selected su =
     (if selected_url su < length (urls su) then Some (urls su ! selected_url su) else None)"

text \<open>A write through the reference returned by \<open>get_selected()\<close>.\<close>
definition update_selected :: "(url \<Rightarrow> url) \<Rightarrow> stream_urls \<Rightarrow> stream_urls" where
  "update_selected f su =
     su\<lparr>urls := (urls su)[selected_url su := f (urls su ! selected_url su)]\<rparr>"

text \<open>Class invariant: something is selected whenever there is something to select.\<close>
definition stream_urls_ok :: "stream_urls \<Rightarrow> bool" where
  "stream_urls_ok su \<longleftrightarrow> (if urls su = [] then selected_url su = 0 else selected_url su < length (urls su))"

section \<open>Stream types\<close>

datatype stream_type =
    ST_EMPTY | ST_UNKNOWN | LOCAL_FILE | GENERIC_NETWORK | LIVE_INTERNET_RADIO
  | CANNED_NETWORK_STREAM

text \<open>The variant for GStreamer 1.5.1 and later, which asks GStreamer for the scheme.\<close>
definition determine_stream_type_from_url ::
  "('w, 'z) usb_env_scheme \<Rightarrow> url \<Rightarrow> stream_type" where
  "determine_stream_type_from_url E u =
     (if original_url_string u = [] then ST_EMPTY
      else case gst_uri_from_string E (original_url_string u) of
             None \<Rightarrow> ST_UNKNOWN
           | Some uri \<Rightarrow>
               (case uri_scheme uri of
                  None \<Rightarrow> ST_UNKNOWN
                | Some scheme \<Rightarrow>
                    if scheme \<in> set [''file'', ''strbo-usb''] then LOCAL_FILE
                    else GENERIC_NETWORK))"

text \<open>The variant for older versions, which compares prefixes with \<open>strncmp()\<close>.\<close>
definition determine_stream_type_pre_1_5_1 :: "url \<Rightarrow> stream_type" where
  "determine_stream_type_pre_1_5_1 u =
     (if original_url_string u = [] then ST_EMPTY
      else if list_ex (\<lambda>p. take (length p) (original_url_string u) = p) [''file://'', ''strbo-usb:/'']
      then LOCAL_FILE else GENERIC_NETWORK)"

section \<open>Lemmas\<close>

lemma get_selected_ok: "stream_urls_ok su \<Longrightarrow> get_selected su = None \<longleftrightarrow> urls su = []"
  by (auto simp: stream_urls_ok_def get_selected_def split: if_splits)

lemma stream_urls_ok_select_next: "stream_urls_ok su \<Longrightarrow> stream_urls_ok (snd (select_next_index su))"
  by (auto simp: stream_urls_ok_def select_next_index_def split: if_splits)

lemma stream_urls_ok_select_url: "stream_urls_ok su \<Longrightarrow> stream_urls_ok (snd (select_url_index i su))"
  by (auto simp: stream_urls_ok_def select_url_index_def split: if_splits)

lemma urls_update_selected [simp]:
  "length (urls (update_selected f su)) = length (urls su)"
  "selected_url (update_selected f su) = selected_url su"
  "urls (update_selected f su) = [] \<longleftrightarrow> urls su = []"
  by (simp_all add: update_selected_def)

lemma stream_urls_ok_update [simp]: "stream_urls_ok (update_selected f su) = stream_urls_ok su"
  by (simp add: stream_urls_ok_def)

lemma get_selected_update:
  "get_selected (update_selected f su) = map_option f (get_selected su)"
  by (simp add: get_selected_def update_selected_def)

lemma stream_urls_ok_of_variant:
  "stream_urls_of_variant E v w = Some (su, w') \<Longrightarrow> stream_urls_ok su"
  by (auto simp: stream_urls_of_variant_def stream_urls_ok_def Option.bind_eq_Some_conv)

text \<open>What the constructor keeps of its input, in order.\<close>
definition url_matches :: "string \<times> bool \<Rightarrow> url \<Rightarrow> bool" where
  "url_matches v u \<longleftrightarrow> original_url_string u = fst v \<and> is_airable_link u = snd v
     \<and> (snd v \<longrightarrow> fst v \<noteq> [] \<and> direct_url u = [])"

lemma url_matches_link [simp]: "uri \<noteq> [] \<Longrightarrow> url_matches (uri, True) (url_link uri)"
  by (simp add: url_matches_def url_link_def)

lemma url_matches_direct [simp]: "url_matches (uri, False) (url_direct d uri)"
  by (simp add: url_matches_def url_direct_def)

lemma append_variant_urls_matches:
  "append_variant_urls E v us w = Some (us', w') \<Longrightarrow>
     \<exists>vs new. us' = us @ new \<and> subseq vs v \<and> list_all2 url_matches vs new"
proof (induction E v us w arbitrary: us' w' rule: append_variant_urls.induct)
  case (1 E us w)
  then show ?case by simp
next
  case (2 E uri is_link rest us w)
  show ?case
  proof (cases is_link)
    case link: True
    show ?thesis
    proof (cases "uri = []")
      case True
      with link "2.IH"(1) "2.prems" obtain vs new
        where "us' = us @ new" "subseq vs rest" "list_all2 url_matches vs new" by auto
      then show ?thesis by (intro exI [of _ vs] exI [of _ new]) (simp add: list_emb_Cons)
    next
      case False
      with link "2.IH"(1) "2.prems" obtain vs new
        where "us' = us @ [url_link uri] @ new" "subseq vs rest" "list_all2 url_matches vs new"
        by auto
      then show ?thesis using link False
        by (intro exI [of _ "(uri, is_link) # vs"] exI [of _ "url_link uri # new"]) simp
    qed
  next
    case False
    with "2.prems" obtain us1 w1 where
      tr: "translate_and_append_url E us uri w = Some (us1, w1)"
      and rest: "append_variant_urls E rest us1 w1 = Some (us', w')"
      by (auto simp: Option.bind_eq_Some_conv)
    obtain vs new where IH: "us' = us1 @ new" "subseq vs rest" "list_all2 url_matches vs new"
      using "2.IH"(2) [OF False tr refl rest] by blast
    from tr consider "us1 = us" | d where "us1 = us @ [url_direct d uri]"
      by (auto simp: translate_and_append_url_def Option.bind_eq_Some_conv split: if_splits)
    then show ?thesis
    proof cases
      case 1
      then show ?thesis using IH by (intro exI [of _ vs] exI [of _ new]) (simp add: list_emb_Cons)
    next
      case (2 d)
      then show ?thesis using IH False
        by (intro exI [of _ "(uri, is_link) # vs"] exI [of _ "url_direct d uri # new"]) simp
    qed
  qed
qed

section \<open>Properties\<close>

text \<open>The constructor of a URL collection keeps a subsequence of the pushed
  \<^verbatim>\<open>(url, is_link)\<close> pairs, in their order, as URLs of the right kind; it never keeps an
  empty Airable link, every link starts unresolved, and the first URL is selected.\<close>
lemma stream_urls_of_variant_spec:
  assumes "stream_urls_of_variant E v w = Some (su, w')"
  shows "\<exists>vs. subseq vs v \<and> list_all2 url_matches vs (urls su) \<and> selected_url su = 0"
  using assms append_variant_urls_matches [of E v "[]" w]
  by (fastforce simp: stream_urls_of_variant_def Option.bind_eq_Some_conv)

lemma stream_urls_of_variant_spec_witness:
  "\<exists>vs. subseq vs [(''airable://x'', True), ([], True)]
     \<and> list_all2 url_matches vs (urls \<lparr>urls = [url_link ''airable://x''], selected_url = 0\<rparr>)
     \<and> selected_url \<lparr>urls = [url_link ''airable://x''], selected_url = 0\<rparr> = 0"
  by (rule stream_urls_of_variant_spec [where E = usb_env_sample and w = "[]" and w' = "[]"])
    (simp add: stream_urls_of_variant_def)

text \<open>Life cycle of a link: a resolved URI is what the player streams, it cannot be cleared
  before its expected expiry, and from the expiry on clearing it succeeds exactly once and
  brings the link back to its unresolved state.\<close>
lemma resolved_uri_lifecycle:
  assumes "is_airable_link u" "uri \<noteq> []"
  shows "let u' = set_resolved_uri uri valid now u in
     get_stream_uri u' = (uri, True)
     \<and> (clear_expired_uri t u' =
          (if t < now + seconds_ns valid then (False, u')
           else (True, u'\<lparr>direct_url := [], when_expected_expiry := time_point_min\<rparr>)))
     \<and> get_stream_uri (u'\<lparr>direct_url := [], when_expected_expiry := e\<rparr>) = ([], True)
     \<and> fst (clear_expired_uri t (u'\<lparr>direct_url := [], when_expected_expiry := e\<rparr>)) = False"
  using assms by (simp add: set_resolved_uri_def get_stream_uri_def clear_expired_uri_def)

lemma resolved_uri_lifecycle_witness:
  "get_stream_uri (set_resolved_uri ''http://h'' 5 0 (url_link ''a'')) = (''http://h'', True)
   \<and> fst (clear_expired_uri 5000000000 (set_resolved_uri ''http://h'' 5 0 (url_link ''a'')))"
  using resolved_uri_lifecycle [of "url_link ''a''" "''http://h''" 5 0 5000000000]
  by (simp add: url_link_def seconds_ns_def Let_def)

end
