(* ===== verification/Stopped_Reasons.thy ===== *)
theory Stopped_Reasons
  imports Prelude
begin

text \<open>
  Reasons for stopping and their derivation from GStreamer errors
  (\<^verbatim>\<open>src/stopped_reasons.hh\<close>, \<^verbatim>\<open>src/stopped_reasons.cc\<close>).

  GStreamer's error enumerations are datatypes with the enumerators the code names; every other
  integer a \<open>GError\<close> may carry as its code is \<open>..._OTHER\<close>.
\<close>

section \<open>Reasons and their names\<close>

datatype reason =
    REASON_UNKNOWN | QUEUE_EMPTY | ALREADY_STOPPED | PHYSICAL_MEDIA_IO | NET_IO | URL_MISSING
  | PROTOCOL | AUTHENTICATION | DOES_NOT_EXIST | WRONG_TYPE | PERMISSION_DENIED | MISSING_CODEC
  | WRONG_STREAM_FORMAT | BROKEN_STREAM | ENCRYPTED | DECRYPTION_NOT_SUPPORTED

text \<open>The value of the enumerator, \<open>size_t(reason)\<close>.\<close>
fun reason_value :: "reason \<Rightarrow> nat" where
  "reason_value REASON_UNKNOWN = 0"
| "reason_value QUEUE_EMPTY = 1"
| "reason_value ALREADY_STOPPED = 2"
| "reason_value PHYSICAL_MEDIA_IO = 3"
| "reason_value NET_IO = 4"
| "reason_value URL_MISSING = 5"
| "reason_value PROTOCOL = 6"
| "reason_value AUTHENTICATION = 7"
| "reason_value DOES_NOT_EXIST = 8"
| "reason_value WRONG_TYPE = 9"
| "reason_value PERMISSION_DENIED = 10"
| "reason_value MISSING_CODEC = 11"
| "reason_value WRONG_STREAM_FORMAT = 12"
| "reason_value BROKEN_STREAM = 13"
| "reason_value ENCRYPTED = 14"
| "reason_value DECRYPTION_NOT_SUPPORTED = 15"

definition reasons :: "string list" where
  "reasons =
     [''flow.unknown'', ''flow.nourl'', ''flow.stopped'', ''io.media'', ''io.net'', ''io.nourl'',
      ''io.protocol'', ''io.auth'', ''io.unavailable'', ''io.type'', ''io.denied'', ''data.codec'',
      ''data.format'', ''data.broken'', ''data.encrypted'', ''data.nodecrypter'']"

definition as_string :: "reason \<Rightarrow> string" where
  "as_string r = reasons ! reason_value r"

section \<open>GStreamer errors\<close>

datatype gst_core_error =
    CORE_FAILED | CORE_TOO_LAZY | CORE_NOT_IMPLEMENTED | CORE_STATE_CHANGE | CORE_PAD
  | CORE_THREAD | CORE_NEGOTIATION | CORE_EVENT | CORE_SEEK | CORE_CAPS | CORE_TAG
  | CORE_MISSING_PLUGIN | CORE_CLOCK | CORE_DISABLED | CORE_NUM_ERRORS | CORE_OTHER int

datatype gst_resource_error =
    RESOURCE_FAILED | RESOURCE_TOO_LAZY | RESOURCE_NOT_FOUND | RESOURCE_BUSY
  | RESOURCE_OPEN_READ | RESOURCE_OPEN_WRITE | RESOURCE_OPEN_READ_WRITE | RESOURCE_CLOSE
  | RESOURCE_READ | RESOURCE_WRITE | RESOURCE_SEEK | RESOURCE_SYNC | RESOURCE_SETTINGS
  | RESOURCE_NO_SPACE_LEFT | RESOURCE_NOT_AUTHORIZED | RESOURCE_NUM_ERRORS | RESOURCE_OTHER int

datatype gst_stream_error =
    STREAM_FAILED | STREAM_TOO_LAZY | STREAM_NOT_IMPLEMENTED | STREAM_TYPE_NOT_FOUND
  | STREAM_WRONG_TYPE | STREAM_CODEC_NOT_FOUND | STREAM_DECODE | STREAM_ENCODE | STREAM_DEMUX
  | STREAM_MUX | STREAM_FORMAT | STREAM_DECRYPT | STREAM_DECRYPT_NOKEY | STREAM_NUM_ERRORS
  | STREAM_OTHER int

text \<open>A \<open>GError\<close>: its domain and the code read in that domain.\<close>
datatype gerror =
    CoreError gst_core_error | LibraryError int | ResourceError gst_resource_error
  | StreamError gst_stream_error | OtherDomainError int

fun core_error_to_reason :: "gst_core_error \<Rightarrow> bool \<Rightarrow> reason" where
  "core_error_to_reason CORE_MISSING_PLUGIN is_local_error = MISSING_CODEC"
| "core_error_to_reason CORE_DISABLED is_local_error = MISSING_CODEC"
| "core_error_to_reason code is_local_error = REASON_UNKNOWN"

fun library_error_to_reason :: "int \<Rightarrow> bool \<Rightarrow> reason" where
  "library_error_to_reason code is_local_error = REASON_UNKNOWN"

fun resource_error_to_reason :: "gst_resource_error \<Rightarrow> bool \<Rightarrow> reason" where
  "resource_error_to_reason RESOURCE_NOT_FOUND is_local_error = DOES_NOT_EXIST"
| "resource_error_to_reason RESOURCE_OPEN_READ is_local_error =
     (if is_local_error then PHYSICAL_MEDIA_IO else NET_IO)"
| "resource_error_to_reason RESOURCE_READ is_local_error = PROTOCOL"
| "resource_error_to_reason RESOURCE_SEEK is_local_error = PROTOCOL"
| "resource_error_to_reason RESOURCE_NOT_AUTHORIZED is_local_error = PERMISSION_DENIED"
| "resource_error_to_reason code is_local_error = REASON_UNKNOWN"

fun stream_error_to_reason :: "gst_stream_error \<Rightarrow> bool \<Rightarrow> reason" where
  "stream_error_to_reason STREAM_FAILED is_local_error = PROTOCOL"
| "stream_error_to_reason STREAM_TYPE_NOT_FOUND is_local_error = WRONG_TYPE"
| "stream_error_to_reason STREAM_WRONG_TYPE is_local_error = WRONG_TYPE"
| "stream_error_to_reason STREAM_CODEC_NOT_FOUND is_local_error = MISSING_CODEC"
| "stream_error_to_reason STREAM_DECODE is_local_error = BROKEN_STREAM"
| "stream_error_to_reason STREAM_DEMUX is_local_error = BROKEN_STREAM"
| "stream_error_to_reason STREAM_FORMAT is_local_error = WRONG_STREAM_FORMAT"
| "stream_error_to_reason STREAM_DECRYPT is_local_error = DECRYPTION_NOT_SUPPORTED"
| "stream_error_to_reason STREAM_DECRYPT_NOKEY is_local_error = ENCRYPTED"
| "stream_error_to_reason code is_local_error = REASON_UNKNOWN"

fun from_gerror :: "gerror \<Rightarrow> bool \<Rightarrow> reason" where
  "from_gerror (CoreError code) is_local_error = core_error_to_reason code is_local_error"
| "from_gerror (LibraryError code) is_local_error = library_error_to_reason code is_local_error"
| "from_gerror (ResourceError code) is_local_error = resource_error_to_reason code is_local_error"
| "from_gerror (StreamError code) is_local_error = stream_error_to_reason code is_local_error"
| "from_gerror (OtherDomainError code) is_local_error = REASON_UNKNOWN"

section \<open>Lemmas\<close>

lemma reason_value_less: "reason_value r < length reasons"
  by (cases r) (simp_all add: reasons_def)

lemma from_gerror_local:
  "from_gerror e l \<noteq> from_gerror e l' \<Longrightarrow> e = ResourceError RESOURCE_OPEN_READ \<and> l \<noteq> l'"
proof (cases e)
  case (CoreError c)
  assume "from_gerror e l \<noteq> from_gerror e l'"
  then show ?thesis using CoreError by (cases c) auto
next
  case (ResourceError c)
  assume "from_gerror e l \<noteq> from_gerror e l'"
  then show ?thesis using ResourceError by (cases c) (auto split: if_splits)
next
  case (StreamError c)
  assume "from_gerror e l \<noteq> from_gerror e l'"
  then show ?thesis using StreamError by (cases c) auto
qed auto

lemma from_gerror_never_flow:
  "from_gerror e l \<notin> {QUEUE_EMPTY, ALREADY_STOPPED, URL_MISSING, AUTHENTICATION}"
proof (cases e)
  case (CoreError c)
  then show ?thesis by (cases c) auto
next
  case (ResourceError c)
  then show ?thesis by (cases c) auto
next
  case (StreamError c)
  then show ?thesis by (cases c) auto
qed auto

section \<open>Properties\<close>

text \<open>Errors reported by GStreamer never turn into the reasons the player uses for its own
  queue management; whether the stream is local matters for one error only, the failure to open
  a resource for reading, which is a media error for local streams and a network error
  otherwise.\<close>
lemma from_gerror_range:
  "from_gerror e l \<notin> {QUEUE_EMPTY, ALREADY_STOPPED, URL_MISSING, AUTHENTICATION}
   \<and> (from_gerror e True \<noteq> from_gerror e False \<longleftrightarrow> e = ResourceError RESOURCE_OPEN_READ)
   \<and> (from_gerror e l = PHYSICAL_MEDIA_IO \<longleftrightarrow> e = ResourceError RESOURCE_OPEN_READ \<and> l)
   \<and> (from_gerror e l = NET_IO \<longleftrightarrow> e = ResourceError RESOURCE_OPEN_READ \<and> \<not> l)"
proof -
  have io: "from_gerror e l \<in> {PHYSICAL_MEDIA_IO, NET_IO} \<Longrightarrow> e = ResourceError RESOURCE_OPEN_READ"
  proof (cases e)
    case (CoreError c)
    assume "from_gerror e l \<in> {PHYSICAL_MEDIA_IO, NET_IO}"
    then show ?thesis using CoreError by (cases c) auto
  next
    case (ResourceError c)
    assume "from_gerror e l \<in> {PHYSICAL_MEDIA_IO, NET_IO}"
    then show ?thesis using ResourceError by (cases c) auto
  next
    case (StreamError c)
    assume "from_gerror e l \<in> {PHYSICAL_MEDIA_IO, NET_IO}"
    then show ?thesis using StreamError by (cases c) auto
  qed auto
  show ?thesis
    using from_gerror_never_flow [of e l] from_gerror_local [of e True False] io
    by (cases l) auto
qed

end
