(* ===== verification/Buffering.thy ===== *)
theory Buffering
  imports Prelude
begin

text \<open>
  Buffering states and levels (\<^verbatim>\<open>Buffering::Data\<close> of \<^verbatim>\<open>src/buffering.hh\<close>).

  The comment in the source states the purpose: after a pause requested for buffering, the
  pipeline must not go back to playing before it has definitely reached its paused state and
  its buffer is full.  The step relation below covers every operation of the class; the
  invariant and the history variable \<open>paused_since_start\<close> state that promise.
\<close>

section \<open>State and operations\<close>

datatype buffering_state = NOT_BUFFERING | PAUSED_PENDING | PAUSED_FOR_BUFFERING | PAUSED_PIGGYBACK
datatype buffer_level = LEVEL_FULL | LEVEL_MEDIUM | LEVEL_UNDERRUN
datatype level_change = CHANGE_NONE | FULL_DETECTED | UNDERRUN_DETECTED
datatype leave_buffering_result = BUFFER_FILLED | STILL_BUFFERING | LEAVE_NOT_BUFFERING

record buffering_data =
  bd_state :: buffering_state
  bd_level :: buffer_level

definition buffering_init :: buffering_data where
  "buffering_init = \<lparr>bd_state = NOT_BUFFERING, bd_level = LEVEL_FULL\<rparr>"

definition is_buffering :: "buffering_data \<Rightarrow> bool" where
  "is_buffering d \<longleftrightarrow> bd_state d \<noteq> NOT_BUFFERING"

definition set_buffer_level :: "nat \<Rightarrow> buffering_data \<Rightarrow> level_change \<times> buffering_data" where
  "set_buffer_level percent d =
     (if percent \<ge> 100 then
        (if bd_level d \<noteq> LEVEL_FULL then FULL_DETECTED else CHANGE_NONE, d\<lparr>bd_level := LEVEL_FULL\<rparr>)
      else if percent = 0 \<or> (percent < 15 \<and> bd_state d = NOT_BUFFERING) then
        (if bd_level d \<noteq> LEVEL_UNDERRUN then UNDERRUN_DETECTED else CHANGE_NONE,
         d\<lparr>bd_level := LEVEL_UNDERRUN\<rparr>)
      else (CHANGE_NONE, d\<lparr>bd_level := LEVEL_MEDIUM\<rparr>))"

definition start_buffering :: "buffering_state \<Rightarrow> buffering_data \<Rightarrow> buffering_data" where
  "start_buffering start_state d = d\<lparr>bd_state := start_state\<rparr>"

definition entered_pause :: "buffering_data \<Rightarrow> bool \<times> buffering_data" where
  "entered_pause d =
     (case bd_state d of
        NOT_BUFFERING \<Rightarrow> (False, d)
      | PAUSED_PENDING \<Rightarrow> (True, d\<lparr>bd_state := PAUSED_FOR_BUFFERING\<rparr>)
      | PAUSED_FOR_BUFFERING \<Rightarrow> (True, d)
      | PAUSED_PIGGYBACK \<Rightarrow> (True, d))"

definition leave_if_full :: "buffering_data \<Rightarrow> leave_buffering_result \<times> buffering_data" where
  "leave_if_full d =
     (if bd_level d = LEVEL_FULL then (BUFFER_FILLED, d\<lparr>bd_state := NOT_BUFFERING\<rparr>)
      else (STILL_BUFFERING, d))"

definition try_leave_buffering :: "buffering_data \<Rightarrow> leave_buffering_result \<times> buffering_data" where
  "try_leave_buffering d =
     (case bd_state d of
        NOT_BUFFERING \<Rightarrow> (LEAVE_NOT_BUFFERING, d)
      | PAUSED_PENDING \<Rightarrow> (STILL_BUFFERING, d)
      | PAUSED_FOR_BUFFERING \<Rightarrow> leave_if_full d
      | PAUSED_PIGGYBACK \<Rightarrow> leave_if_full d)"

definition buffering_reset :: "buffering_data \<Rightarrow> buffering_data" where
  "buffering_reset d = d\<lparr>bd_state := NOT_BUFFERING, bd_level := LEVEL_FULL\<rparr>"

section \<open>Runs\<close>

text \<open>The calls a client may make, with their arguments.\<close>
datatype buffering_call =
    CallLevel nat | CallStart buffering_state | CallEnteredPause | CallTryLeave | CallReset

fun buffering_apply :: "buffering_data \<Rightarrow> buffering_call \<Rightarrow> buffering_data" where
  "buffering_apply d (CallLevel p) = snd (set_buffer_level p d)"
| "buffering_apply d (CallStart st) = start_buffering st d"
| "buffering_apply d CallEnteredPause = snd (entered_pause d)"
| "buffering_apply d CallTryLeave = snd (try_leave_buffering d)"
| "buffering_apply d CallReset = buffering_reset d"

definition buffering_run :: "buffering_call list \<Rightarrow> buffering_data \<Rightarrow> buffering_data" where
  "buffering_run cs d = foldl buffering_apply d cs"

text \<open>Neither the definite pause has been seen, nor has buffering been given up or restarted.\<close>
definition no_pause_call :: "buffering_call \<Rightarrow> bool" where
  "no_pause_call c \<longleftrightarrow> (case c of CallLevel _ \<Rightarrow> True | CallTryLeave \<Rightarrow> True | _ \<Rightarrow> False)"

section \<open>Lemmas\<close>

lemma set_buffer_level_state [simp]: "bd_state (snd (set_buffer_level p d)) = bd_state d"
  by (simp add: set_buffer_level_def)

lemma is_buffering_level [simp]: "is_buffering (snd (set_buffer_level p d)) = is_buffering d"
  by (simp add: is_buffering_def)

lemma not_buffering_reset [simp]: "is_buffering (buffering_reset d) = False"
  by (simp add: is_buffering_def buffering_reset_def)

lemma buffer_level_values:
  "bd_level (snd (set_buffer_level p d)) = LEVEL_FULL \<longleftrightarrow> p \<ge> 100"
  by (simp add: set_buffer_level_def)

lemma pending_stays:
  "bd_state d = PAUSED_PENDING \<Longrightarrow> no_pause_call c \<Longrightarrow> bd_state (buffering_apply d c) = PAUSED_PENDING"
  by (cases c) (simp_all add: no_pause_call_def try_leave_buffering_def)

lemma pending_run:
  "bd_state d = PAUSED_PENDING \<Longrightarrow> \<forall>c \<in> set cs. no_pause_call c \<Longrightarrow>
     bd_state (buffering_run cs d) = PAUSED_PENDING"
  by (induction cs arbitrary: d) (auto simp: buffering_run_def pending_stays)

lemma entered_pause_result: "fst (entered_pause d) = is_buffering d"
  by (simp add: entered_pause_def is_buffering_def split: buffering_state.split)

lemma try_leave_filled:
  "fst (try_leave_buffering d) = BUFFER_FILLED \<longleftrightarrow>
     bd_level d = LEVEL_FULL \<and> bd_state d \<in> {PAUSED_FOR_BUFFERING, PAUSED_PIGGYBACK}"
  by (simp add: try_leave_buffering_def leave_if_full_def split: buffering_state.split)

lemma try_leave_result:
  "fst (try_leave_buffering d) = LEAVE_NOT_BUFFERING \<longleftrightarrow> \<not> is_buffering d"
  "fst (try_leave_buffering d) = BUFFER_FILLED \<Longrightarrow> \<not> is_buffering (snd (try_leave_buffering d))"
  "fst (try_leave_buffering d) \<noteq> BUFFER_FILLED \<Longrightarrow> snd (try_leave_buffering d) = d"
  by (auto simp: try_leave_buffering_def leave_if_full_def is_buffering_def
      split: buffering_state.split)

section \<open>Properties\<close>

text \<open>C35. The workaround for \<^verbatim>\<open>playbin3\<close>: after buffering was started with a pause request
  that is still pending, no sequence of level reports and attempts to leave ends the buffering;
  once the pause has been entered, an attempt to leave ends it exactly if the last level
  reported was at least 100 percent.\<close>
theorem buffering_waits_for_pause:
  assumes "\<forall>c \<in> set cs. no_pause_call c"
  shows "let d1 = buffering_run cs (start_buffering PAUSED_PENDING d) in
     fst (try_leave_buffering d1) = STILL_BUFFERING
     \<and> fst (entered_pause d1)
     \<and> fst (try_leave_buffering (snd (set_buffer_level p (snd (entered_pause d1)))))
         = (if p \<ge> 100 then BUFFER_FILLED else STILL_BUFFERING)"
proof -
  define d1 where "d1 = buffering_run cs (start_buffering PAUSED_PENDING d)"
  have pending: "bd_state d1 = PAUSED_PENDING"
    unfolding d1_def using assms by (intro pending_run) (simp_all add: start_buffering_def)
  then have paused: "bd_state (snd (entered_pause d1)) = PAUSED_FOR_BUFFERING"
    by (simp add: entered_pause_def)
  define d2 where "d2 = snd (set_buffer_level p (snd (entered_pause d1)))"
  have "bd_state d2 = PAUSED_FOR_BUFFERING" and "bd_level d2 = LEVEL_FULL \<longleftrightarrow> p \<ge> 100"
    using paused by (simp_all add: d2_def buffer_level_values)
  then have "fst (try_leave_buffering d2) = (if p \<ge> 100 then BUFFER_FILLED else STILL_BUFFERING)"
    by (simp add: try_leave_buffering_def leave_if_full_def)
  then show ?thesis
    using pending by (simp add: d2_def d1_def [symmetric] entered_pause_def try_leave_buffering_def)
qed

lemma buffering_waits_for_pause_witness:
  "fst (try_leave_buffering (buffering_run [CallLevel 0, CallTryLeave, CallLevel 100]
      (start_buffering PAUSED_PENDING buffering_init))) = STILL_BUFFERING"
  using buffering_waits_for_pause [of "[CallLevel 0, CallTryLeave, CallLevel 100]" buffering_init 100]
  by (simp add: no_pause_call_def Let_def)

text \<open>Level changes are edges, not levels: repeating a report never signals a change again,
  an underrun is reported below 15 percent only while not buffering and at 0 percent always, and
  reaching 100 percent is the only way to the level that lets buffering end.\<close>
lemma buffer_level_edges:
  "fst (set_buffer_level p (snd (set_buffer_level p d))) = CHANGE_NONE
   \<and> (fst (set_buffer_level p d) = UNDERRUN_DETECTED \<longleftrightarrow>
        bd_level d \<noteq> LEVEL_UNDERRUN \<and> (p = 0 \<or> p < 15 \<and> \<not> is_buffering d))
   \<and> (fst (set_buffer_level p d) = FULL_DETECTED \<longleftrightarrow> bd_level d \<noteq> LEVEL_FULL \<and> p \<ge> 100)
   \<and> (bd_level (snd (set_buffer_level p d)) = LEVEL_FULL \<longleftrightarrow> p \<ge> 100)
   \<and> is_buffering (snd (set_buffer_level p d)) = is_buffering d"
  by (auto simp: set_buffer_level_def is_buffering_def)

end
