(* ===== verification/Boosted_Threads.thy ===== *)
theory Boosted_Threads
  imports Prelude "HOL-Library.AList"
begin

text \<open>
  Real-time priorities of streaming threads (\<^verbatim>\<open>BoostedThreads::Threads\<close> of
  \<^verbatim>\<open>src/boosted_threads.hh\<close> and \<^verbatim>\<open>src/boosted_threads.cc\<close>) and the
  handling of GStreamer's stream status messages that feeds it (\<open>bus_sync_message_handler()\<close>
  of \<^verbatim>\<open>src/streamer.cc\<close>).

  The result of \<open>pthread_setschedparam()\<close> is only logged, so its effect is the list of requests
  made.  The hash map of threads is an association list; the order in which \<open>boost()\<close> and
  \<open>throttle()\<close> visit it is unspecified in C++ and plays no role in any statement.  The debug
  code behind \<open>BOOSTED_THREADS_DEBUG\<close> is in theory \<open>Thread_Observer\<close>.
\<close>

section \<open>State\<close>

datatype boost_priority = HIGHEST | HIGH | MODERATE | PRIORITY_NONE

type_synonym thread_id = nat
type_synonym sched_policy = nat
type_synonym sched_request = "thread_id \<times> sched_policy \<times> int"

record boosted_threads =
  default_sched_policy :: sched_policy
  default_sched_priority :: int
  boosted_sched_policy :: sched_policy
  boosted_sched_priorities :: "int list"
  known_threads :: "(thread_id \<times> string \<times> boost_priority) list"
  is_boost_enabled :: bool

fun priority_value :: "boost_priority \<Rightarrow> nat" where
  "priority_value HIGHEST = 0"
| "priority_value HIGH = 1"
| "priority_value MODERATE = 2"
| "priority_value PRIORITY_NONE = 3"

text \<open>Priorities are ordered by urgency, the reverse of the order of the enumeration.\<close>
instantiation boost_priority :: linorder
begin

definition less_eq_boost_priority :: "boost_priority \<Rightarrow> boost_priority \<Rightarrow> bool" where
  "less_eq_boost_priority p q \<longleftrightarrow> priority_value q \<le> priority_value p"

definition less_boost_priority :: "boost_priority \<Rightarrow> boost_priority \<Rightarrow> bool" where
  "less_boost_priority p q \<longleftrightarrow> priority_value q < priority_value p"

instance
proof
  fix x y :: boost_priority
  show "x \<le> y \<Longrightarrow> y \<le> x \<Longrightarrow> x = y"
    by (cases x; cases y) (simp_all add: less_eq_boost_priority_def)
qed (auto simp: less_eq_boost_priority_def less_boost_priority_def)

end

text \<open>
  The constructor: the result of \<open>pthread_getschedparam()\<close> (\<open>None\<close> when it fails, then
  \<open>SCHED_OTHER\<close> and 0 are used), and the range of priorities of \<open>SCHED_RR\<close>.
\<close>
definition threads_init ::
  "(sched_policy \<times> int) option \<Rightarrow> sched_policy \<Rightarrow> sched_policy \<Rightarrow> int \<Rightarrow> int \<Rightarrow> boosted_threads" where
  "threads_init getschedparam SCHED_OTHER SCHED_RR prio_max prio_min =
     \<lparr>default_sched_policy = (case getschedparam of None \<Rightarrow> SCHED_OTHER | Some (p, _) \<Rightarrow> p),
      default_sched_priority = (case getschedparam of None \<Rightarrow> 0 | Some (_, n) \<Rightarrow> n),
      boosted_sched_policy = SCHED_RR,
      boosted_sched_priorities = [prio_max, prio_max - 1, prio_min],
      known_threads = [], is_boost_enabled = False\<rparr>"

section \<open>Operations\<close>

definition configure_thread :: "boosted_threads \<Rightarrow> thread_id \<Rightarrow> boost_priority \<Rightarrow> sched_request" where
  "configure_thread th tid prio =
     (case prio of
        PRIORITY_NONE \<Rightarrow> (tid, default_sched_policy th, default_sched_priority th)
      | _ \<Rightarrow> (tid, boosted_sched_policy th, boosted_sched_priorities th ! priority_value prio))"

definition boost :: "boosted_threads \<Rightarrow> sched_request list \<times> boosted_threads" where
  "boost th =
     (if is_boost_enabled th then ([], th)
      else (map (\<lambda>(tid, name, prio). configure_thread th tid prio) (known_threads th),
            th\<lparr>is_boost_enabled := True\<rparr>))"

definition throttle :: "boosted_threads \<Rightarrow> sched_request list \<times> boosted_threads" where
  "throttle th =
     (if \<not> is_boost_enabled th then ([], th)
      else (map (\<lambda>(tid, name, prio). configure_thread th tid PRIORITY_NONE) (known_threads th),
            th\<lparr>is_boost_enabled := False\<rparr>))"

text \<open>\<open>None\<close> is the failed assertion that a priority is given.\<close>
definition add_self ::
  "thread_id \<Rightarrow> string \<Rightarrow> boost_priority \<Rightarrow> boosted_threads
     \<Rightarrow> (sched_request list \<times> boosted_threads) option" where
  "add_self tid name prio th =
     (if prio = PRIORITY_NONE then None
      else Some ([configure_thread th tid (if is_boost_enabled th then prio else PRIORITY_NONE)],
                 th\<lparr>known_threads := AList.update tid (name, prio) (known_threads th)\<rparr>))"

definition remove_self ::
  "thread_id \<Rightarrow> boosted_threads \<Rightarrow> sched_request list \<times> boosted_threads" where
  "remove_self tid th =
     (case map_of (known_threads th) tid of
        None \<Rightarrow> ([configure_thread th tid PRIORITY_NONE], th)
      | Some _ \<Rightarrow> ([configure_thread th tid PRIORITY_NONE],
                   th\<lparr>known_threads := AList.delete tid (known_threads th)\<rparr>))"

section \<open>Stream status messages\<close>

datatype stream_status_type =
    STATUS_CREATE | STATUS_ENTER | STATUS_LEAVE | STATUS_DESTROY | STATUS_START | STATUS_PAUSE
  | STATUS_STOP

text \<open>\<open>strncmp(name, prefix, 11) == 0\<close> is the test for the prefix.\<close>
definition task_name_to_priority :: "string \<Rightarrow> boost_priority" where
  "task_name_to_priority name =
     (if take 11 name = ''dmultiqueue'' then HIGH
      else if name = ''aqueue:src'' then HIGHEST
      else if name = ''audiosink-actual-sink-alsa'' then HIGHEST
      else PRIORITY_NONE)"

text \<open>
  A stream status message: whether its object is a task or a thread, the status, and the name
  of the task or element (a null pointer is \<open>None\<close>); \<open>self\<close> is the calling thread.
\<close>
datatype status_object = STATUS_TASK | STATUS_THREAD | STATUS_NEITHER

definition bus_sync_message_handler ::
  "thread_id \<Rightarrow> status_object \<Rightarrow> stream_status_type \<Rightarrow> string option \<Rightarrow> boosted_threads
     \<Rightarrow> (sched_request list \<times> boosted_threads) option" where
  "bus_sync_message_handler self obj status_type thread_name th =
     (if obj = STATUS_NEITHER then Some ([], th)
      else if status_type \<notin> {STATUS_ENTER, STATUS_LEAVE} then Some ([], th)
      else case thread_name of
             None \<Rightarrow> Some ([], th)
           | Some name \<Rightarrow>
               let prio = task_name_to_priority name
               in if prio \<noteq> PRIORITY_NONE then
                    (if status_type = STATUS_ENTER then add_self self name prio th
                     else Some (remove_self self th))
                  else Some ([], th))"

lemma bus_sync_message_handler_defined: "bus_sync_message_handler self obj st nm th \<noteq> None"
  by (auto simp: bus_sync_message_handler_def add_self_def Let_def split: option.split)

section \<open>Scheduling as seen by the operating system\<close>

text \<open>The operating system honours the last request made for a thread.\<close>
definition apply_requests ::
  "sched_request list \<Rightarrow> (thread_id \<rightharpoonup> sched_policy \<times> int) \<Rightarrow> (thread_id \<rightharpoonup> sched_policy \<times> int)" where
  "apply_requests rs sched = foldl (\<lambda>s (tid, p). s(tid \<mapsto> p)) sched rs"

datatype threads_call =
    TBoost | TThrottle | TStatus thread_id status_object stream_status_type "string option"

inductive threads_step ::
  "boosted_threads \<times> (thread_id \<rightharpoonup> sched_policy \<times> int) \<Rightarrow> threads_call
     \<Rightarrow> boosted_threads \<times> (thread_id \<rightharpoonup> sched_policy \<times> int) \<Rightarrow> bool" where
  "boost th = (rs, th') \<Longrightarrow> threads_step (th, sched) TBoost (th', apply_requests rs sched)"
| "throttle th = (rs, th') \<Longrightarrow> threads_step (th, sched) TThrottle (th', apply_requests rs sched)"
| "bus_sync_message_handler tid obj st name th = Some (rs, th') \<Longrightarrow>
     threads_step (th, sched) (TStatus tid obj st name) (th', apply_requests rs sched)"

inductive_cases threads_step_cases:
  "threads_step s TBoost s'" "threads_step s TThrottle s'" "threads_step s (TStatus tid obj st nm) s'"

definition sched_param :: "boosted_threads \<Rightarrow> boost_priority \<Rightarrow> sched_policy \<times> int" where
  "sched_param th prio = snd (configure_thread th 0 prio)"

text \<open>Threads known are scheduled as the mode says, all others as the process is by default.\<close>
definition slot_ok ::
  "boosted_threads \<Rightarrow> (string \<times> boost_priority) option \<Rightarrow> (sched_policy \<times> int) option \<Rightarrow> bool" where
  "slot_ok th entry current =
     (case entry of
        Some (name, prio) \<Rightarrow>
          current = Some (sched_param th (if is_boost_enabled th then prio else PRIORITY_NONE))
      | None \<Rightarrow> current \<in> {None, Some (sched_param th PRIORITY_NONE)})"

definition threads_inv ::
  "boosted_threads \<times> (thread_id \<rightharpoonup> sched_policy \<times> int) \<Rightarrow> bool" where
  "threads_inv = (\<lambda>(th, sched).
     distinct (map fst (known_threads th)) \<and>
     (\<forall>tid. slot_ok th (map_of (known_threads th) tid) (sched tid)))"

section \<open>Lemmas\<close>

lemma configure_thread_eq: "configure_thread th tid prio = (tid, sched_param th prio)"
  by (simp add: configure_thread_def sched_param_def split: boost_priority.split)

lemma sched_param_update [simp]:
  "sched_param (th\<lparr>is_boost_enabled := b\<rparr>) prio = sched_param th prio"
  "sched_param (th\<lparr>known_threads := k\<rparr>) prio = sched_param th prio"
  by (simp_all add: sched_param_def configure_thread_def split: boost_priority.split)

lemma apply_requests_Nil [simp]: "apply_requests [] sched = sched"
  by (simp add: apply_requests_def)

lemma apply_requests_single [simp]: "apply_requests [(tid, p)] sched = sched(tid \<mapsto> p)"
  by (simp add: apply_requests_def)

lemma apply_requests_map:
  "distinct (map fst ts) \<Longrightarrow>
   apply_requests (map (\<lambda>(tid, x). (tid, f x)) ts) sched tid
     = (case map_of ts tid of None \<Rightarrow> sched tid | Some x \<Rightarrow> Some (f x))"
proof (induction ts arbitrary: sched)
  case Nil
  then show ?case by simp
next
  case (Cons t ts)
  obtain i x where t: "t = (i, x)" by fastforce
  have "apply_requests (map (\<lambda>(tid, x). (tid, f x)) ts) (sched(i \<mapsto> f x)) tid
      = (case map_of ts tid of None \<Rightarrow> (sched(i \<mapsto> f x)) tid | Some x \<Rightarrow> Some (f x))"
    using Cons.prems by (intro Cons.IH) simp
  moreover have "map_of ts i = None"
    using Cons.prems t by (simp add: map_of_eq_None_iff)
  ultimately show ?case
    using t by (auto simp: apply_requests_def split: option.split)
qed

lemma boost_requests:
  "map (\<lambda>(tid, name, prio). configure_thread th tid prio) ts
     = map (\<lambda>(tid, x). (tid, sched_param th (snd x))) ts"
  by (auto simp: configure_thread_eq)

lemma throttle_requests:
  "map (\<lambda>(tid, name, prio). configure_thread th tid PRIORITY_NONE) ts
     = map (\<lambda>(tid, x). (tid, sched_param th PRIORITY_NONE)) ts"
  by (auto simp: configure_thread_eq)

lemma bus_sync_cases:
  assumes "bus_sync_message_handler tid obj st nm th = Some (rs, th')"
  obtains "rs = []" "th' = th"
  | name prio where "prio \<noteq> PRIORITY_NONE" "add_self tid name prio th = Some (rs, th')"
  | "remove_self tid th = (rs, th')"
  using assms
  by (auto simp: bus_sync_message_handler_def Let_def split: if_splits option.splits)

lemma slot_ok_simps [simp]:
  "slot_ok th None current \<longleftrightarrow> current = None \<or> current = Some (sched_param th PRIORITY_NONE)"
  "slot_ok th (Some e) current \<longleftrightarrow>
     current = Some (sched_param th (if is_boost_enabled th then snd e else PRIORITY_NONE))"
  by (auto simp: slot_ok_def split: prod.split)

lemma slot_ok_known [simp]: "slot_ok (th\<lparr>known_threads := k\<rparr>) e current = slot_ok th e current"
  by (cases e) simp_all

lemma threads_invI:
  "distinct (map fst (known_threads th)) \<Longrightarrow>
   (\<And>tid. slot_ok th (map_of (known_threads th) tid) (sched tid)) \<Longrightarrow> threads_inv (th, sched)"
  by (simp add: threads_inv_def)

lemma threads_invD:
  "threads_inv (th, sched) \<Longrightarrow> distinct (map fst (known_threads th))"
  "threads_inv (th, sched) \<Longrightarrow> slot_ok th (map_of (known_threads th) tid) (sched tid)"
  by (simp_all add: threads_inv_def)

lemma threads_inv_boost:
  assumes "threads_inv (th, sched)" "boost th = (rs, th')"
  shows "threads_inv (th', apply_requests rs sched)"
proof (cases "is_boost_enabled th")
  case True
  then show ?thesis using assms by (simp add: boost_def)
next
  case False
  then have eqs: "th' = th\<lparr>is_boost_enabled := True\<rparr>"
    "rs = map (\<lambda>(tid, x). (tid, sched_param th (snd x))) (known_threads th)"
    using assms(2) by (simp_all add: boost_def boost_requests)
  show ?thesis
  proof (rule threads_invI)
    fix tid
    show "slot_ok th' (map_of (known_threads th') tid) (apply_requests rs sched tid)"
      using threads_invD(1) [OF assms(1)] threads_invD(2) [OF assms(1), of tid] False unfolding eqs
      by (cases "map_of (known_threads th) tid") (simp_all add: apply_requests_map)
  qed (use threads_invD [OF assms(1)] eqs in simp)
qed

lemma threads_inv_throttle:
  assumes "threads_inv (th, sched)" "throttle th = (rs, th')"
  shows "threads_inv (th', apply_requests rs sched)"
proof (cases "is_boost_enabled th")
  case False
  then show ?thesis using assms by (simp add: throttle_def)
next
  case True
  then have eqs: "th' = th\<lparr>is_boost_enabled := False\<rparr>"
    "rs = map (\<lambda>(tid, x). (tid, sched_param th PRIORITY_NONE)) (known_threads th)"
    using assms(2) by (simp_all add: throttle_def throttle_requests)
  show ?thesis
  proof (rule threads_invI)
    fix tid
    show "slot_ok th' (map_of (known_threads th') tid) (apply_requests rs sched tid)"
      using threads_invD(1) [OF assms(1)] threads_invD(2) [OF assms(1), of tid] True unfolding eqs
      by (cases "map_of (known_threads th) tid") (simp_all add: apply_requests_map)
  qed (use threads_invD [OF assms(1)] eqs in simp)
qed

lemma threads_inv_add:
  assumes "threads_inv (th, sched)" "add_self tid name prio th = Some (rs, th')"
  shows "threads_inv (th', apply_requests rs sched)"
proof (rule threads_invI)
  fix i
  show "slot_ok th' (map_of (known_threads th') i) (apply_requests rs sched i)"
    using assms(2) threads_invD(2) [OF assms(1), of i]
    by (auto simp: add_self_def configure_thread_eq update_conv' split: if_splits)
qed (use assms threads_invD(1) in \<open>auto simp: add_self_def distinct_update split: if_splits\<close>)

lemma threads_inv_remove:
  assumes "threads_inv (th, sched)" "remove_self tid th = (rs, th')"
  shows "threads_inv (th', apply_requests rs sched)"
proof (rule threads_invI)
  fix i
  show "slot_ok th' (map_of (known_threads th') i) (apply_requests rs sched i)"
    using assms(2) threads_invD(2) [OF assms(1), of i]
    by (cases "map_of (known_threads th) tid")
      (auto simp: remove_self_def configure_thread_eq delete_conv')
qed (use assms threads_invD(1) in \<open>auto simp: remove_self_def distinct_delete split: option.splits\<close>)

lemma threads_inv_step:
  assumes "threads_step s l s'" "threads_inv s"
  shows "threads_inv s'"
  using assms(1)
proof cases
  case (1 th rs th' sched)
  then show ?thesis using threads_inv_boost assms(2) by simp
next
  case (2 th rs th' sched)
  then show ?thesis using threads_inv_throttle assms(2) by simp
next
  case (3 tid obj st name th rs th' sched)
  then have inv: "threads_inv (th, sched)" using assms(2) by simp
  from 3(4) have "threads_inv (th', apply_requests rs sched)"
    by (rule bus_sync_cases)
      (use inv threads_inv_add [OF inv] threads_inv_remove [OF inv] in auto)
  then show ?thesis using 3 by simp
qed

definition threads_initial :: "boosted_threads \<times> (thread_id \<rightharpoonup> sched_policy \<times> int) \<Rightarrow> bool" where
  "threads_initial s \<longleftrightarrow>
     (\<exists>g so rr mx mn. s = (threads_init g so rr mx mn, Map.empty))"

lemma threads_inv_initial: "threads_initial s \<Longrightarrow> threads_inv s"
  by (auto simp: threads_initial_def threads_init_def intro!: threads_invI)

interpretation threads_machine: machine threads_initial threads_step threads_inv
  by unfold_locales (auto intro: threads_inv_initial threads_inv_step)

section \<open>Properties\<close>

text \<open>C36. No thread keeps a real-time priority it should not have, although GStreamer takes its
  threads from a pool: in every reachable state a thread that is not registered (any more) runs
  with the default scheduling parameters, if they were ever changed; and the registered threads
  run with the parameters of their priority while boosting is enabled, and with the default ones
  while it is not.\<close>
theorem thread_scheduling:
  assumes "reachable threads_initial threads_step (th, sched)"
  shows "case map_of (known_threads th) tid of
       None \<Rightarrow> sched tid \<in> {None, Some (sched_param th PRIORITY_NONE)}
     | Some (name, prio) \<Rightarrow>
         sched tid = Some (sched_param th (if is_boost_enabled th then prio else PRIORITY_NONE))"
  using threads_invD(2) [OF threads_machine.reachable_inv [OF assms], of tid]
  by (simp only: slot_ok_def)

text \<open>More urgent threads get priorities that are at least as high when boosting is enabled,
  given that the range of real-time priorities is not a single value; the assertion in
  \<open>add_self()\<close> never fails, because only named tasks with a priority are registered.\<close>
lemma boost_monotonic:
  assumes "prio_min < prio_max" "p \<le> q" "p \<noteq> PRIORITY_NONE"
  shows "snd (sched_param (threads_init g so rr prio_max prio_min) p)
       \<le> snd (sched_param (threads_init g so rr prio_max prio_min) q)
     \<and> bus_sync_message_handler tid obj st nm th \<noteq> None"
  using assms bus_sync_message_handler_defined
  by (cases p; cases q)
    (auto simp: sched_param_def configure_thread_def threads_init_def less_eq_boost_priority_def)

lemma boost_monotonic_witness:
  "snd (sched_param (threads_init None 0 2 99 1) MODERATE)
     \<le> snd (sched_param (threads_init None 0 2 99 1) HIGHEST)"
  using boost_monotonic [of 1 99 MODERATE HIGHEST None 0 2]
  by (simp add: less_eq_boost_priority_def)

definition sample_threads :: boosted_threads where
  "sample_threads = (threads_init None 0 2 99 1)
     \<lparr>known_threads := [(7, ''aqueue:src'', HIGHEST)]\<rparr>"

lemma sample_threads_reachable:
  "reachable threads_initial threads_step (sample_threads, [7 \<mapsto> (0, 0)])"
proof (rule reach_step [OF reach_init])
  show "threads_initial (threads_init None 0 2 99 1, Map.empty)"
    unfolding threads_initial_def by blast
  have "bus_sync_message_handler 7 STATUS_TASK STATUS_ENTER (Some ''aqueue:src'')
      (threads_init None 0 2 99 1) = Some ([(7, 0, 0)], sample_threads)"
    by (simp add: bus_sync_message_handler_def task_name_to_priority_def add_self_def
        configure_thread_def threads_init_def sample_threads_def)
  from threads_step.intros(3) [OF this, of Map.empty]
  show "threads_step (threads_init None 0 2 99 1, Map.empty)
      (TStatus 7 STATUS_TASK STATUS_ENTER (Some ''aqueue:src''))
      (sample_threads, [7 \<mapsto> (0, 0)])" by simp
qed

lemma thread_scheduling_witness:
  "[7 \<mapsto> (0, 0)] (7::nat) = Some (sched_param sample_threads PRIORITY_NONE)"
  using thread_scheduling [OF sample_threads_reachable, of 7]
  by (simp add: sample_threads_def threads_init_def)

end
