(* ===== verification/Thread_Observer.thy ===== *)
theory Thread_Observer
  imports Boosted_Threads
begin

text \<open>
  The debugging aid \<^verbatim>\<open>BoostedThreads::ThreadObserver\<close>
  (\<^verbatim>\<open>src/boosted_threads.hh\<close>), which is compiled only with
  \<open>BOOSTED_THREADS_DEBUG\<close>, and the part of \<open>bus_sync_message_handler()\<close>
  (\<^verbatim>\<open>src/streamer.cc\<close>) that feeds it.  Pointers are numbers.
\<close>

section \<open>State and operations\<close>

text \<open>Name, pointer and whether the thread is active.\<close>
type_synonym observed = "(thread_id \<times> string \<times> nat \<times> bool) list"

datatype observer_line =
    ObsRenamed thread_id string string
  | ObsPointer thread_id string nat nat
  | ObsActivated thread_id string
  | ObsDestroyed thread_id string nat
  | ObsThread thread_id string nat bool int sched_policy

definition observer_add ::
  "thread_id \<Rightarrow> string \<Rightarrow> nat \<Rightarrow> observed \<Rightarrow> observer_line list \<times> observed" where
  "observer_add tid name ptr obs =
     (case map_of obs tid of
        None \<Rightarrow> ([], AList.update tid (name, ptr, True) obs)
      | Some (old_name, old_ptr, active) \<Rightarrow>
          ((if old_name \<noteq> name then [ObsRenamed tid old_name name] else []) @
           (if old_ptr \<noteq> ptr then [ObsPointer tid old_name old_ptr ptr] else []) @
           (if \<not> active then [ObsActivated tid old_name] else []),
           AList.update tid (name, ptr, True) obs))"

text \<open>\<open>threads_.at()\<close> throws for a thread that is not known.\<close>
definition observer_leave :: "thread_id \<Rightarrow> observed \<Rightarrow> observed option" where
  "observer_leave tid obs =
     do { (name, ptr, _) \<leftarrow> map_of obs tid; Some (AList.update tid (name, ptr, False) obs) }"

definition observer_destroy :: "thread_id \<Rightarrow> observed \<Rightarrow> observed" where
  "observer_destroy tid obs = AList.delete tid obs"

text \<open>\<open>dump()\<close>; the parameter stands for \<open>pthread_getschedparam()\<close>, which is \<open>None\<close> if it fails.\<close>
definition observer_dump ::
  "(thread_id \<Rightarrow> (sched_policy \<times> int) option) \<Rightarrow> observed \<Rightarrow> observer_line list \<times> observed" where
  "observer_dump getschedparam obs =
     (map (\<lambda>(tid, name, ptr, active).
             case getschedparam tid of
               None \<Rightarrow> ObsDestroyed tid name ptr
             | Some (policy, prio) \<Rightarrow> ObsThread tid name ptr active prio policy) obs,
      filter (\<lambda>(tid, _). getschedparam tid \<noteq> None) obs)"

text \<open>What \<open>bus_sync_message_handler()\<close> does with the observer.  Making a string from the null pointer
  is undefined behaviour.\<close>
definition observe_status ::
  "thread_id \<Rightarrow> stream_status_type \<Rightarrow> string option \<Rightarrow> nat \<Rightarrow> observed \<Rightarrow> observed option" where
  "observe_status self status_type thread_name ptr obs =
     (case status_type of
        STATUS_ENTER \<Rightarrow> map_option (\<lambda>name. snd (observer_add self name ptr obs)) thread_name
      | STATUS_LEAVE \<Rightarrow> observer_leave self obs
      | STATUS_DESTROY \<Rightarrow> Some (observer_destroy self obs)
      | STATUS_CREATE \<Rightarrow> Some obs
      | STATUS_START \<Rightarrow> Some obs
      | STATUS_PAUSE \<Rightarrow> Some obs
      | STATUS_STOP \<Rightarrow> Some obs)"

type_synonym status_message = "thread_id \<times> stream_status_type \<times> string option \<times> nat"

fun observe_run :: "status_message list \<Rightarrow> observed \<Rightarrow> observed option" where
  "observe_run [] obs = Some obs"
| "observe_run ((self, st, name, ptr) # ms) obs =
     do { obs1 \<leftarrow> observe_status self st name ptr obs; observe_run ms obs1 }"

section \<open>What the observer knows\<close>

text \<open>The activity of a thread as its own messages tell it.\<close>
definition activity_step :: "thread_id \<Rightarrow> bool option \<Rightarrow> status_message \<Rightarrow> bool option" where
  "activity_step tid act m =
     (case m of (self, st, name, ptr) \<Rightarrow>
        if self \<noteq> tid then act
        else case st of
               STATUS_ENTER \<Rightarrow> Some True
             | STATUS_LEAVE \<Rightarrow> Some False
             | STATUS_DESTROY \<Rightarrow> None
             | STATUS_CREATE \<Rightarrow> act | STATUS_START \<Rightarrow> act | STATUS_PAUSE \<Rightarrow> act | STATUS_STOP \<Rightarrow> act)"

definition observed_activity :: "observed \<Rightarrow> thread_id \<Rightarrow> bool option" where
  "observed_activity obs tid = map_option (\<lambda>(_, _, active). active) (map_of obs tid)"

lemma observed_activity_update [simp]:
  "observed_activity (AList.update i (n, p, b) obs) tid
     = (if i = tid then Some b else observed_activity obs tid)"
  by (simp add: observed_activity_def update_conv')

lemma observed_activity_delete [simp]:
  "observed_activity (AList.delete i obs) tid = (if i = tid then None else observed_activity obs tid)"
  by (simp add: observed_activity_def delete_conv')

lemma observer_add_state [simp]: "snd (observer_add tid name ptr obs) = AList.update tid (name, ptr, True) obs"
  by (simp add: observer_add_def split: option.split)

lemma observe_status_activity:
  "observe_status self st name ptr obs = Some obs' \<Longrightarrow>
     observed_activity obs' tid = activity_step tid (observed_activity obs tid) (self, st, name, ptr)"
  by (cases st)
    (auto simp: observe_status_def activity_step_def observer_leave_def observer_destroy_def bind_eq_Some_conv
      split: prod.splits)

section \<open>Properties\<close>

text \<open>What the observer says about a thread is what the thread's own messages say: known since it
  was last entered and not destroyed since, and active unless it has left.\<close>
theorem observer_follows_messages:
  assumes "observe_run ms obs = Some obs'"
  shows "observed_activity obs' tid = foldl (activity_step tid) (observed_activity obs tid) ms"
  using assms
  by (induction ms obs rule: observe_run.induct)
    (auto simp: bind_eq_Some_conv observe_status_activity)

lemma observer_follows_messages_witness:
  "observed_activity [(3, ''aqueue:src'', 9, False)] 3
     = foldl (activity_step 3) None
         [(3, STATUS_CREATE, None, 0), (3, STATUS_ENTER, Some ''aqueue:src'', 9), (3, STATUS_LEAVE, None, 0)]"
proof -
  have "observe_run [(3, STATUS_CREATE, None, 0), (3, STATUS_ENTER, Some ''aqueue:src'', 9),
      (3, STATUS_LEAVE, None, 0)] [] = Some [(3, ''aqueue:src'', 9, False)]"
    by (simp add: observe_status_def observer_add_def observer_leave_def)
  from observer_follows_messages [OF this, of 3] show ?thesis by (simp add: observed_activity_def)
qed

text \<open>Dumping forgets exactly the threads that do not exist any more.\<close>
lemma dump_forgets_destroyed:
  "distinct (map fst obs) \<Longrightarrow>
     observed_activity (snd (observer_dump getschedparam obs)) tid
       = (if getschedparam tid = None then None else observed_activity obs tid)"
  by (induction obs) (auto simp: observer_dump_def observed_activity_def split: prod.splits)

text \<open>A thread without a name that enters brings the observer down, although the handler itself
  lets such threads pass.\<close>
lemma nameless_thread_breaks_observer:
  "observe_status self STATUS_ENTER None ptr obs = None"
  "bus_sync_message_handler self STATUS_TASK STATUS_ENTER None th = Some ([], th)"
  by (simp_all add: observe_status_def bus_sync_message_handler_def)

end
