(* ===== verification/Rnf_Call.thy ===== *)
theory Rnf_Call
  imports Prelude
begin

text \<open>
  Request, notify, fetch: asynchronous D-Bus calls (\<^verbatim>\<open>src/rnfcall_state.hh\<close>,
  \<^verbatim>\<open>src/rnfcall.hh\<close>, \<^verbatim>\<open>src/rnfcall.cc\<close>) and the exception they may store
  (\<^verbatim>\<open>src/dbuslist_exception.hh\<close>).

  A call object is a record; the promise and its future are one field.  The functions handed to
  the call (\<open>do_request\<close>, \<open>do_fetch\<close>, the function that aborts a cookie) appear as their
  outcomes.  The mutex makes each operation atomic; \<open>abort_request_internal()\<close> gives the mutex
  up around the D-Bus call it makes, so it comes in two parts.  The status watcher's calls are
  recorded in \<open>watched\<close>.
\<close>

section \<open>Exceptions\<close>

text \<open>
  \<open>ListError\<close> is declared outside the repository: its raw code, with the code that means an
  internal error as a parameter where it is needed.
\<close>
type_synonym list_error = "8 word"

datatype internal_detail = DETAIL_UNKNOWN | UNEXPECTED_SUCCESS | DBUS_NO_REPLY

record dbus_list_exception =
  dle_error :: list_error
  dle_detail :: internal_detail

definition dle_of_error :: "list_error \<Rightarrow> dbus_list_exception" where
  "dle_of_error e = \<lparr>dle_error = e, dle_detail = DETAIL_UNKNOWN\<rparr>"

definition dle_of_detail :: "list_error \<Rightarrow> internal_detail \<Rightarrow> dbus_list_exception" where
  "dle_of_detail INTERNAL d = \<lparr>dle_error = INTERNAL, dle_detail = d\<rparr>"

text \<open>From a GLib error: \<open>None\<close> if it has not failed, else whether it is a missing D-Bus reply.\<close>
definition dle_of_gerror :: "list_error \<Rightarrow> bool option \<Rightarrow> dbus_list_exception" where
  "dle_of_gerror INTERNAL err =
     \<lparr>dle_error = INTERNAL,
      dle_detail = (case err of
          Some no_reply \<Rightarrow> if no_reply then DBUS_NO_REPLY else DETAIL_UNKNOWN
        | None \<Rightarrow> UNEXPECTED_SUCCESS)\<rparr>"

definition dle_get_detail :: "list_error \<Rightarrow> dbus_list_exception \<Rightarrow> internal_detail" where
  "dle_get_detail INTERNAL x = (if dle_error x = INTERNAL then dle_detail x else DETAIL_UNKNOWN)"

definition dle_detail_string_or_fallback ::
  "list_error \<Rightarrow> dbus_list_exception \<Rightarrow> string \<Rightarrow> string" where
  "dle_detail_string_or_fallback INTERNAL x fallback =
     (if dle_error x \<noteq> INTERNAL then fallback
      else case dle_detail x of
             DETAIL_UNKNOWN \<Rightarrow> ''internal (unknown)''
           | UNEXPECTED_SUCCESS \<Rightarrow> ''internal (blank GLib error struct)''
           | DBUS_NO_REPLY \<Rightarrow> ''internal (D-Bus no reply, timeout)'')"

datatype rnf_exception =
    BadStateError | AbortedError | NoResultError | ListException dbus_list_exception

section \<open>States\<close>

datatype call_state =
    INITIALIZED | WAIT_FOR_NOTIFICATION | READY_TO_FETCH | RESULT_FETCHED | ABORTING
  | ABORTED_BY_PEER | CALL_FAILED | ABOUT_TO_DESTROY

fun state_is_success :: "call_state \<Rightarrow> bool" where
  "state_is_success RESULT_FETCHED = True"
| "state_is_success _ = False"

fun state_is_failure :: "call_state \<Rightarrow> bool" where
  "state_is_failure ABORTED_BY_PEER = True"
| "state_is_failure CALL_FAILED = True"
| "state_is_failure _ = False"

text \<open>A promise with its future: not satisfied, satisfied, or the result has been taken out.\<close>
datatype 'r promise = Unsatisfied | Value 'r | Exception rnf_exception | Taken

record 'r rnf_call =
  cstate :: call_state
  was_aborted_after_done :: bool
  detached :: bool
  ccookie :: cookie
  cleared_cookie :: cookie
  promise :: "'r promise"
  watched :: "(call_state \<times> bool) list"

definition call_init :: "'r rnf_call" where
  "call_init = \<lparr>cstate = INITIALIZED, was_aborted_after_done = False, detached = False,
     ccookie = 0, cleared_cookie = 0, promise = Unsatisfied, watched = [(INITIALIZED, False)]\<rparr>"

section \<open>Operations of the base class\<close>

definition set_cstate :: "call_state \<Rightarrow> 'r rnf_call \<Rightarrow> 'r rnf_call" where
  "set_cstate new_state c =
     (if cstate c = new_state then c
      else c\<lparr>cstate := new_state, watched := watched c @ [(new_state, detached c)]\<rparr>)"

definition set_cookie :: "cookie \<Rightarrow> 'r rnf_call \<Rightarrow> 'r rnf_call option" where
  "set_cookie ck c = (if ck \<noteq> 0 then Some (c\<lparr>ccookie := ck\<rparr>) else None)"

definition clear_cookie :: "'r rnf_call \<Rightarrow> cookie \<times> 'r rnf_call" where
  "clear_cookie c = (ccookie c, c\<lparr>cleared_cookie := ccookie c, ccookie := 0\<rparr>)"

definition detach :: "'r rnf_call \<Rightarrow> 'r rnf_call option" where
  "detach c = (if detached c then None else Some (c\<lparr>detached := True\<rparr>))"

text \<open>The first part of \<open>abort_request_internal()\<close>, up to the release of the mutex: either the
  result is known, or the cookie is to be aborted by a D-Bus call.\<close>
datatype abort_decision = AbortResult bool | AbortCookie cookie

definition abort_begin :: "'r rnf_call \<Rightarrow> abort_decision \<times> 'r rnf_call" where
  "abort_begin c =
     (if cstate c \<in> {INITIALIZED, WAIT_FOR_NOTIFICATION, READY_TO_FETCH} then
        (case clear_cookie c of (ck, c1) \<Rightarrow>
           if ck = 0 then (AbortResult True, set_cstate ABORTED_BY_PEER c1)
           else (AbortCookie ck, c1))
      else if cstate c \<in> {RESULT_FETCHED, CALL_FAILED} then
        (if was_aborted_after_done c then (AbortResult False, c)
         else (AbortResult True, c\<lparr>was_aborted_after_done := True\<rparr>))
      else if cstate c \<in> {ABORTING, ABORTED_BY_PEER} then (AbortResult False, c)
      else (AbortResult True, c))"

text \<open>The second part: \<open>None\<close> stands for an exception thrown by the abort function.\<close>
definition abort_end :: "bool option \<Rightarrow> 'r rnf_call \<Rightarrow> bool \<times> 'r rnf_call" where
  "abort_end result c =
     (case result of
        None \<Rightarrow> (False, c)
      | Some False \<Rightarrow> (False, c)
      | Some True \<Rightarrow> (True, set_cstate ABORTING c))"

definition abort_request_internal ::
  "(cookie \<Rightarrow> bool option) \<Rightarrow> 'r rnf_call \<Rightarrow> bool \<times> 'r rnf_call" where
  "abort_request_internal abort_cookie_fn c =
     (case abort_begin c of
        (AbortResult b, c1) \<Rightarrow> (b, c1)
      | (AbortCookie ck, c1) \<Rightarrow> abort_end (abort_cookie_fn ck) c1)"

definition notification :: "cookie \<Rightarrow> call_state \<Rightarrow> 'r rnf_call \<Rightarrow> 'r rnf_call" where
  "notification ck new_state c =
     (if ck = 0 then c
      else if ck \<noteq> ccookie c \<and> ck \<noteq> cleared_cookie c then c
      else if cstate c \<in> {WAIT_FOR_NOTIFICATION, ABORTING} then set_cstate new_state c
      else c)"

definition result_available_notification :: "cookie \<Rightarrow> 'r rnf_call \<Rightarrow> 'r rnf_call" where
  "result_available_notification ck c = notification ck READY_TO_FETCH c"

definition aborted_notification :: "cookie \<Rightarrow> 'r rnf_call \<Rightarrow> 'r rnf_call" where
  "aborted_notification ck c = notification ck ABORTED_BY_PEER c"

text \<open>The destructor of the base class; it sets the last state.\<close>
definition destroy_call :: "'r rnf_call \<Rightarrow> 'r rnf_call" where
  "destroy_call c = set_cstate ABOUT_TO_DESTROY c"

section \<open>Operations of the class template\<close>

text \<open>\<open>promise_.set_exception()\<close>; the exception for a promise already satisfied is caught and
  logged by both callers.\<close>
definition promise_set_exception :: "rnf_exception \<Rightarrow> 'r promise \<Rightarrow> 'r promise" where
  "promise_set_exception e p = (if p = Unsatisfied then Exception e else p)"

text \<open>
  \<open>request()\<close>: \<open>do_request\<close> is what the function of the same name does: it throws, or returns
  a cookie and, with the cookie 0, satisfies the promise.  The result is the exception thrown to
  the caller, or the new state and the function to be called next: \<open>manage_cookie\<close> for a
  non-zero cookie, \<open>fast_path\<close> for the cookie 0.
\<close>
datatype request_action = ManageCookie cookie | FastPath | NoAction

definition request ::
  "rnf_exception + (cookie \<times> 'r) \<Rightarrow> 'r rnf_call
     \<Rightarrow> ((rnf_exception + (call_state \<times> request_action)) \<times> 'r rnf_call) option" where
  "request do_request c =
     (if cstate c \<noteq> INITIALIZED then Some (Inl BadStateError, c)
      else case do_request of
             Inl e \<Rightarrow>
               let c1 = set_cstate CALL_FAILED (c\<lparr>promise := promise_set_exception e (promise c)\<rparr>)
               in Some (Inr (cstate c1, NoAction), c1)
           | Inr (ck, r) \<Rightarrow>
               (if ck \<noteq> 0 then
                  do { c1 \<leftarrow> set_cookie ck c;
                       c2 \<leftarrow> detach c1;
                       let c3 = set_cstate WAIT_FOR_NOTIFICATION c2;
                       Some (Inr (cstate c3, ManageCookie ck), c3) }
                else if ccookie c \<noteq> 0 then None
                else let c1 = set_cstate RESULT_FETCHED (c\<lparr>promise := Value r\<rparr>)
                     in Some (Inr (cstate c1, FastPath), c1)))"

text \<open>
  \<open>fetch_unlocked()\<close>: \<open>do_fetch\<close> throws or satisfies the promise (which throws in turn if the
  promise is satisfied already, and that exception cannot be stored).
\<close>
definition fetch_unlocked ::
  "(cookie \<Rightarrow> rnf_exception + 'r) \<Rightarrow> 'r rnf_call \<Rightarrow> (rnf_exception + bool) \<times> 'r rnf_call" where
  "fetch_unlocked do_fetch c =
     (case cstate c of
        READY_TO_FETCH \<Rightarrow>
          (let failed = (\<lambda>p. set_cstate CALL_FAILED (snd (clear_cookie (c\<lparr>promise := p\<rparr>))))
           in case do_fetch (ccookie c) of
                Inl e \<Rightarrow> (Inr False, failed (promise_set_exception e (promise c)))
              | Inr r \<Rightarrow>
                  if promise c = Unsatisfied
                  then (Inr True,
                        set_cstate RESULT_FETCHED (snd (clear_cookie (c\<lparr>promise := Value r\<rparr>))))
                  else (Inr False, failed (promise c)))
      | RESULT_FETCHED \<Rightarrow> (Inr True, c)
      | ABORTING \<Rightarrow> (Inr False, c)
      | ABORTED_BY_PEER \<Rightarrow> (Inr False, c)
      | CALL_FAILED \<Rightarrow> (Inr False, c)
      | INITIALIZED \<Rightarrow> (Inl BadStateError, c)
      | WAIT_FOR_NOTIFICATION \<Rightarrow> (Inl BadStateError, c)
      | ABOUT_TO_DESTROY \<Rightarrow> (Inl BadStateError, c))"

text \<open>\<open>fetch()\<close> takes the mutex.\<close>
definition fetch ::
  "(cookie \<Rightarrow> rnf_exception + 'r) \<Rightarrow> 'r rnf_call \<Rightarrow> (rnf_exception + bool) \<times> 'r rnf_call" where
  "fetch do_fetch c = fetch_unlocked do_fetch c"



text \<open>\<open>get_result_unlocked()\<close>; waiting for a promise nobody has satisfied blocks for ever: \<open>None\<close>.\<close>
definition get_result_unlocked :: "'r rnf_call \<Rightarrow> ((rnf_exception + 'r) \<times> 'r rnf_call) option" where
  "get_result_unlocked c =
     (if cstate c \<in> {INITIALIZED, WAIT_FOR_NOTIFICATION, READY_TO_FETCH, ABOUT_TO_DESTROY}
      then Some (Inl BadStateError, c)
      else if cstate c \<in> {ABORTING, ABORTED_BY_PEER} then Some (Inl AbortedError, c)
      else if was_aborted_after_done c then Some (Inl AbortedError, c)
      else case promise c of
             Taken \<Rightarrow> Some (Inl NoResultError, c)
           | Value r \<Rightarrow> Some (Inr r, c\<lparr>promise := Taken\<rparr>)
           | Exception e \<Rightarrow> Some (Inl e, set_cstate CALL_FAILED (c\<lparr>promise := Taken\<rparr>))
           | Unsatisfied \<Rightarrow> None)"

text \<open>\<open>get_result_locked()\<close> takes the mutex.\<close>
definition get_result_locked :: "'r rnf_call \<Rightarrow> ((rnf_exception + 'r) \<times> 'r rnf_call) option" where
  "get_result_locked c = get_result_unlocked c"

section \<open>Description\<close>

text \<open>Decimal digits, as \<open>std::to_string()\<close> writes them.\<close>
fun nat_digits :: "nat \<Rightarrow> string" where
  "nat_digits n =
     (if n < 10 then [char_of (48 + n)] else nat_digits (n div 10) @ [char_of (48 + n mod 10)])"

declare nat_digits.simps [simp del]

definition to_string_int :: "int \<Rightarrow> string" where
  "to_string_int i = (if i < 0 then ''-'' @ nat_digits (nat (- i)) else nat_digits (nat i))"

definition state_names :: "string list" where
  "state_names = [''INITIALIZED'', ''WAIT_FOR_NOTIFICATION'', ''READY_TO_FETCH'',
     ''RESULT_FETCHED'', ''ABORTING'', ''ABORTED_BY_PEER'', ''FAILED'', ''ABOUT_TO_DESTROY'']"

text \<open>The enumerators' numbers (\<^verbatim>\<open>src/rnfcall_state.hh\<close>).\<close>
fun call_state_value :: "call_state \<Rightarrow> nat" where
  "call_state_value INITIALIZED = 0"
| "call_state_value WAIT_FOR_NOTIFICATION = 1"
| "call_state_value READY_TO_FETCH = 2"
| "call_state_value RESULT_FETCHED = 3"
| "call_state_value ABORTING = 4"
| "call_state_value ABORTED_BY_PEER = 5"
| "call_state_value CALL_FAILED = 6"
| "call_state_value ABOUT_TO_DESTROY = 7"

text \<open>\<open>dump_enum_value()\<close> is not part of the repository: a parameter.  Cookies are printed as
  \<open>int\<close>.\<close>
definition get_description ::
  "(string list \<Rightarrow> string \<Rightarrow> nat \<Rightarrow> string) \<Rightarrow> 'r rnf_call \<Rightarrow> string" where
  "get_description dump_enum_value c =
     ''state '' @ dump_enum_value state_names ''CallState'' (call_state_value (cstate c)) @
     '', cookie '' @ to_string_int (sint (ccookie c)) @
     '' ['' @ to_string_int (sint (cleared_cookie c)) @ ''], '' @
     (if detached c then '''' else ''not '') @ ''detached''"

section \<open>A call and its users\<close>

text \<open>
  The operations on one call in any order, by any number of threads: \<open>pending\<close> counts the
  threads between the two parts of \<open>abort_request_internal()\<close>, \<open>delivered\<close> lists the results
  handed out so far.
\<close>
record 'r call_system =
  the_call :: "'r rnf_call"
  pending :: nat
  delivered :: "'r list"

datatype 'r call_op =
    DoRequest "rnf_exception + (cookie \<times> 'r)" | DoNotify cookie bool
  | DoFetch "cookie \<Rightarrow> rnf_exception + 'r" | DoAbortBegin | DoAbortEnd "bool option"
  | DoGetResult | DoDestroy

inductive call_step :: "'r call_system \<Rightarrow> 'r call_op \<Rightarrow> 'r call_system \<Rightarrow> bool" where
  step_request: "request d (the_call s) = Some (r, c) \<Longrightarrow>
     call_step s (DoRequest d) (s\<lparr>the_call := c\<rparr>)"
| step_available: "call_step s (DoNotify ck True)
     (s\<lparr>the_call := result_available_notification ck (the_call s)\<rparr>)"
| step_aborted: "call_step s (DoNotify ck False)
     (s\<lparr>the_call := aborted_notification ck (the_call s)\<rparr>)"
| step_fetch: "call_step s (DoFetch f) (s\<lparr>the_call := snd (fetch_unlocked f (the_call s))\<rparr>)"
| step_abort_done: "abort_begin (the_call s) = (AbortResult b, c) \<Longrightarrow>
     call_step s DoAbortBegin (s\<lparr>the_call := c\<rparr>)"
| step_abort_cookie: "abort_begin (the_call s) = (AbortCookie ck, c) \<Longrightarrow>
     call_step s DoAbortBegin (s\<lparr>the_call := c, pending := Suc (pending s)\<rparr>)"
| step_abort_end: "pending s = Suc n \<Longrightarrow>
     call_step s (DoAbortEnd result)
       (s\<lparr>the_call := snd (abort_end result (the_call s)), pending := n\<rparr>)"
| step_get_result: "get_result_unlocked (the_call s) = Some (r, c) \<Longrightarrow>
     call_step s DoGetResult
       (s\<lparr>the_call := c, delivered := delivered s @ (case r of Inr v \<Rightarrow> [v] | Inl _ \<Rightarrow> [])\<rparr>)"
| step_destroy: "pending s = 0 \<Longrightarrow>
     call_step s DoDestroy (s\<lparr>the_call := destroy_call (the_call s)\<rparr>)"

inductive_cases call_stepE: "call_step s l s'"

lemma call_step_requestI: "request d (the_call s) = Some (r, c) \<Longrightarrow> s' = s\<lparr>the_call := c\<rparr> \<Longrightarrow>
    call_step s (DoRequest d) s'"
  by (simp add: step_request)

definition call_initial :: "'r call_system \<Rightarrow> bool" where
  "call_initial s \<longleftrightarrow> the_call s = call_init \<and> pending s = 0 \<and> delivered s = []"

text \<open>The status watcher has been told every state, and only changes.\<close>
definition watched_ok :: "'r rnf_call \<Rightarrow> bool" where
  "watched_ok c \<longleftrightarrow> watched c \<noteq> [] \<and> fst (last (watched c)) = cstate c \<and>
     distinct_adj (map fst (watched c))"

definition call_ok :: "'r rnf_call \<Rightarrow> bool" where
  "call_ok c \<longleftrightarrow>
     (cstate c = INITIALIZED \<longrightarrow>
        promise c = Unsatisfied \<and> ccookie c = 0 \<and> cleared_cookie c = 0 \<and> \<not> detached c) \<and>
     (cstate c \<in> {RESULT_FETCHED, CALL_FAILED} \<longrightarrow> promise c \<noteq> Unsatisfied) \<and>
     (cstate c = RESULT_FETCHED \<longrightarrow> (\<forall>e. promise c \<noteq> Exception e)) \<and>
     (ccookie c \<noteq> 0 \<longrightarrow> detached c) \<and> watched_ok c"

definition call_inv :: "'r call_system \<Rightarrow> bool" where
  "call_inv s \<longleftrightarrow> call_ok (the_call s) \<and> (0 < pending s \<longrightarrow> detached (the_call s)) \<and>
     (delivered s = [] \<or> promise (the_call s) = Taken \<and> length (delivered s) = 1)"

section \<open>The invariant\<close>

lemma set_cstate_simps [simp]:
  "cstate (set_cstate st c) = st" "promise (set_cstate st c) = promise c"
  "ccookie (set_cstate st c) = ccookie c" "cleared_cookie (set_cstate st c) = cleared_cookie c"
  "detached (set_cstate st c) = detached c"
  "was_aborted_after_done (set_cstate st c) = was_aborted_after_done c"
  by (simp_all add: set_cstate_def)

lemma watched_ok_set [simp]: "watched_ok c \<Longrightarrow> watched_ok (set_cstate st c)"
  by (auto simp: watched_ok_def set_cstate_def distinct_adj_append_iff last_map)

lemma watched_ok_frame [simp]:
  "watched_ok (c\<lparr>promise := p\<rparr>) = watched_ok c" "watched_ok (c\<lparr>ccookie := ck\<rparr>) = watched_ok c"
  "watched_ok (c\<lparr>cleared_cookie := ck\<rparr>) = watched_ok c" "watched_ok (c\<lparr>detached := d\<rparr>) = watched_ok c"
  "watched_ok (c\<lparr>was_aborted_after_done := w\<rparr>) = watched_ok c"
  by (simp_all add: watched_ok_def)

lemmas call_defs = request_def set_cookie_def detach_def clear_cookie_def fetch_unlocked_def
  notification_def result_available_notification_def aborted_notification_def abort_begin_def
  abort_end_def destroy_call_def promise_set_exception_def

lemma call_ok_init: "call_ok call_init"
  by (simp add: call_ok_def call_init_def watched_ok_def)

lemma call_ok_request: "call_ok c \<Longrightarrow> post (\<lambda>(r, c'). call_ok c' \<and>
    (detached c \<longrightarrow> detached c') \<and> (promise c = Taken \<longrightarrow> promise c' = Taken)) (request d c)"
  by (auto simp: call_ok_def call_defs Let_def split: sum.splits)

lemma request_defined: "call_ok c \<Longrightarrow> request d c \<noteq> None"
  by (auto simp: call_ok_def call_defs Let_def split: sum.splits)

lemma call_ok_notification: "call_ok c \<Longrightarrow> st \<in> {READY_TO_FETCH, ABORTED_BY_PEER} \<Longrightarrow>
    call_ok (notification ck st c) \<and> detached (notification ck st c) = detached c \<and>
    promise (notification ck st c) = promise c"
  by (auto simp: call_ok_def notification_def)

lemma call_ok_fetch: "call_ok c \<Longrightarrow> call_ok (snd (fetch_unlocked f c)) \<and>
    detached (snd (fetch_unlocked f c)) = detached c \<and>
    (promise c = Taken \<longrightarrow> promise (snd (fetch_unlocked f c)) = Taken)"
proof (cases "cstate c = READY_TO_FETCH")
  case True
  then show "call_ok c \<Longrightarrow> ?thesis"
    by (cases "f (ccookie c)")
      (auto simp: call_ok_def fetch_unlocked_def clear_cookie_def promise_set_exception_def Let_def)
next
  case False
  then have "snd (fetch_unlocked f c) = c"
    by (cases "cstate c") (simp_all add: fetch_unlocked_def)
  then show "call_ok c \<Longrightarrow> ?thesis" by simp
qed

lemma call_ok_abort_begin: "call_ok c \<Longrightarrow> abort_begin c = (d, c') \<Longrightarrow>
    call_ok c' \<and> detached c' = detached c \<and> promise c' = promise c \<and>
    (\<forall>ck. d = AbortCookie ck \<longrightarrow> detached c)"
  by (auto simp: call_ok_def call_defs split: if_splits)

lemma call_ok_abort_end: "call_ok c \<Longrightarrow> detached c \<Longrightarrow>
    call_ok (snd (abort_end b c)) \<and> detached (snd (abort_end b c)) \<and>
    promise (snd (abort_end b c)) = promise c"
  by (auto simp: call_ok_def call_defs split: option.splits bool.splits)

lemma call_ok_get_result: "call_ok c \<Longrightarrow> post (\<lambda>(r, c'). call_ok c' \<and>
    detached c' = detached c \<and> (promise c = Taken \<longrightarrow> promise c' = Taken \<and> isl r) \<and>
    (\<not> isl r \<longrightarrow> promise c' = Taken)) (get_result_unlocked c)"
  by (auto simp: call_ok_def get_result_unlocked_def split: promise.splits)

lemma get_result_defined: "call_ok c \<Longrightarrow> get_result_unlocked c \<noteq> None"
  by (cases "cstate c") (auto simp: call_ok_def get_result_unlocked_def split: promise.splits)

lemma call_ok_destroy: "call_ok c \<Longrightarrow> call_ok (destroy_call c) \<and>
    detached (destroy_call c) = detached c \<and> promise (destroy_call c) = promise c"
  by (auto simp: call_ok_def call_defs)

lemma call_inv_initial: "call_initial s \<Longrightarrow> call_inv s"
  by (simp add: call_initial_def call_inv_def call_ok_init)

lemma call_inv_step: "call_inv s \<Longrightarrow> call_step s l s' \<Longrightarrow> call_inv s'"
proof (erule call_stepE, goal_cases)
  case (1 d r c)
  then show ?case
    using postD [OF call_ok_request [of "the_call s" d], of "(r, c)"] by (auto simp: call_inv_def)
next
  case (2 ck)
  then show ?case
    by (auto simp: call_inv_def result_available_notification_def call_ok_notification)
next
  case (3 ck)
  then show ?case
    by (auto simp: call_inv_def aborted_notification_def call_ok_notification)
next
  case (4 f)
  then show ?case
    using call_ok_fetch [of "the_call s" f] by (auto simp: call_inv_def)
next
  case (5 b c)
  then show ?case
    using call_ok_abort_begin [of "the_call s"] by (auto simp: call_inv_def)
next
  case (6 ck c)
  then show ?case
    using call_ok_abort_begin [of "the_call s"] by (auto simp: call_inv_def)
next
  case (7 n result)
  then show ?case
    using call_ok_abort_end [of "the_call s" result] by (auto simp: call_inv_def)
next
  case (8 r c)
  then show ?case
    using postD [OF call_ok_get_result [of "the_call s"], of "(r, c)"]
    by (auto simp: call_inv_def split: sum.splits)
next
  case 9
  then show ?case
    using call_ok_destroy [of "the_call s"] by (auto simp: call_inv_def)
qed

interpretation rnf_machine: machine call_initial call_step call_inv
  by unfold_locales (erule call_inv_initial, erule (1) call_inv_step)

section \<open>Waiting for the result\<close>









section \<open>Properties\<close>

text \<open>C27. No use of a call object, by any number of threads and with aborts in between, runs into
  one of the assertions of \<open>request()\<close> or waits for a promise that nobody satisfies: both
  \<open>request()\<close> and \<open>get_result_unlocked()\<close> always give an answer.  The status watcher has been
  told the current state, and no state twice in a row.\<close>
theorem call_always_answers:
  assumes "reachable call_initial call_step s"
  shows "request d (the_call s) \<noteq> None \<and> get_result_unlocked (the_call s) \<noteq> None \<and>
    watched_ok (the_call s)"
  using rnf_machine.reachable_inv [OF assms]
  by (simp add: call_inv_def request_defined get_result_defined call_ok_def)

definition sample_call :: "nat call_system" where
  "sample_call = \<lparr>the_call = snd (the (request (Inr (5, 0)) call_init)), pending = 0, delivered = []\<rparr>"

lemma sample_call_reachable: "reachable call_initial call_step sample_call"
proof (rule reach_step [where l = "DoRequest (Inr (5, 0))"])
  show "reachable call_initial call_step
      \<lparr>the_call = call_init, pending = 0, delivered = [] :: nat list\<rparr>"
    by (rule reach_init) (simp add: call_initial_def)
  show "call_step \<lparr>the_call = call_init, pending = 0, delivered = [] :: nat list\<rparr>
      (DoRequest (Inr (5, 0))) sample_call"
    by (rule call_step_requestI [where r = "Inr (WAIT_FOR_NOTIFICATION, ManageCookie 5)" and
            c = "the_call sample_call"])
      (simp_all add: sample_call_def call_defs call_init_def set_cstate_def)
qed

lemma call_always_answers_witness:
  "get_result_unlocked (the_call sample_call) \<noteq> None \<and> cstate (the_call sample_call) = WAIT_FOR_NOTIFICATION"
  using call_always_answers [OF sample_call_reachable]
  by (simp add: sample_call_def call_defs call_init_def set_cstate_def)

text \<open>A call hands out its result at most once.  Once it was aborted after it had finished,
  it hands out none at all: the flag stays, and no step delivers anything.\<close>
lemma result_delivered_once:
  assumes "reachable call_initial call_step s" and "call_step s l s'"
  shows "length (delivered s') \<le> 1 \<and>
    (was_aborted_after_done (the_call s) \<longrightarrow>
       was_aborted_after_done (the_call s') \<and> delivered s' = delivered s)"
proof
  show "length (delivered s') \<le> 1"
    using rnf_machine.step_reachable_inv [OF assms] by (auto simp: call_inv_def)
  show "was_aborted_after_done (the_call s) \<longrightarrow>
       was_aborted_after_done (the_call s') \<and> delivered s' = delivered s"
    using assms(2)
    by (cases rule: call_step.cases)
      (auto simp: call_defs get_result_unlocked_def Let_def
        split: if_splits sum.splits call_state.splits option.splits bool.splits promise.splits
          bind_splits)
qed

lemma result_delivered_once_witness:
  "length (delivered (sample_call\<lparr>the_call := destroy_call (the_call sample_call)\<rparr>)) \<le> 1"
  using result_delivered_once [OF sample_call_reachable, of DoDestroy,
      OF step_destroy [of sample_call]]
  by (simp add: sample_call_def)

text \<open>C29. The three legs of a call.  A request answered with a cookie, a notification and a fetch
  give exactly what the fetch returned, its result or its exception; an abort notification gives
  an \<open>AbortedError\<close>; a request answered at once (cookie 0) gives its answer without
  notification or fetch; a failed request gives the exception of the request.\<close>
theorem request_notify_fetch:
  "ck \<noteq> 0 \<Longrightarrow>
   (\<exists>c1. request (Inr (ck, dummy)) call_init
           = Some (Inr (WAIT_FOR_NOTIFICATION, ManageCookie ck), c1) \<and>
      (case f ck of
         Inr r \<Rightarrow> (\<exists>c2. fetch_unlocked f (result_available_notification ck c1) = (Inr True, c2) \<and>
                    map_option fst (get_result_unlocked c2) = Some (Inr r))
       | Inl e \<Rightarrow> (\<exists>c2. fetch_unlocked f (result_available_notification ck c1) = (Inr False, c2) \<and>
                    map_option fst (get_result_unlocked c2) = Some (Inl e))) \<and>
      (\<exists>c2. fetch_unlocked f (aborted_notification ck c1) = (Inr False, c2) \<and>
         map_option fst (get_result_unlocked c2) = Some (Inl AbortedError))) \<and>
   (\<exists>c1. request (Inr (0, r0)) call_init = Some (Inr (RESULT_FETCHED, FastPath), c1) \<and>
      map_option fst (get_result_unlocked c1) = Some (Inr r0)) \<and>
   (\<exists>c1. request (Inl e0) call_init = Some (Inr (CALL_FAILED, NoAction), c1) \<and>
      map_option fst (get_result_unlocked c1) = Some (Inl e0))"
  by (cases "f ck")
    (simp_all add: call_defs get_result_unlocked_def call_init_def set_cstate_def Let_def)

lemma request_notify_fetch_witness:
  "\<exists>c1. request (Inr (7 :: cookie, ''x'')) call_init
      = Some (Inr (WAIT_FOR_NOTIFICATION, ManageCookie 7), c1) \<and>
    fst (fetch_unlocked (\<lambda>_. Inr ''url'') (result_available_notification 7 c1)) = Inr True"
  using request_notify_fetch [of 7 "''x''" "\<lambda>_. Inr ''url''" "''y''" BadStateError] by force



end
