(* ===== verification/Call_Promise.thy ===== *)
theory Call_Promise
  imports Rnf_Call
begin

text \<open>
  What a call (class \<open>Call\<close>, \<^verbatim>\<open>src/rnfcall.hh\<close>) promises its users, without cookies, states and
  notifications: a value that is set once, by an answer of the list broker, and handed out once, unless the
  call was aborted before.  The machine of theory \<open>Rnf_Call\<close> implements it, for any number of threads and
  all interleavings with the two halves of an abort.
\<close>

section \<open>A promise\<close>

datatype 'r settled = Unset | Fulfilled 'r | Rejected rnf_exception | Consumed

record 'r oneshot =
  os_value :: "'r settled"
  os_handed :: "'r list"
  os_dismissed :: bool

definition oneshot_initial :: "'r oneshot \<Rightarrow> bool" where
  "oneshot_initial p \<longleftrightarrow> p = \<lparr>os_value = Unset, os_handed = [], os_dismissed = False\<rparr>"

inductive oneshot_step :: "'r oneshot \<Rightarrow> 'r call_op \<Rightarrow> 'r oneshot \<Rightarrow> bool" where
  os_answer_now: "os_value p = Unset \<Longrightarrow>
     oneshot_step p (DoRequest (Inr (0, r))) (p\<lparr>os_value := Fulfilled r\<rparr>)"
| os_refuse: "os_value p = Unset \<Longrightarrow> oneshot_step p (DoRequest (Inl e)) (p\<lparr>os_value := Rejected e\<rparr>)"
| os_answer_later: "os_value p = Unset \<Longrightarrow> f ck = Inr r \<Longrightarrow>
     oneshot_step p (DoFetch f) (p\<lparr>os_value := Fulfilled r\<rparr>)"
| os_fail: "os_value p = Unset \<Longrightarrow> f ck = Inl e \<Longrightarrow> oneshot_step p (DoFetch f) (p\<lparr>os_value := Rejected e\<rparr>)"
| os_take: "os_value p = Fulfilled r \<Longrightarrow> \<not> os_dismissed p \<Longrightarrow>
     oneshot_step p DoGetResult (p\<lparr>os_value := Consumed, os_handed := os_handed p @ [r]\<rparr>)"
| os_take_error: "os_value p = Rejected e \<Longrightarrow> \<not> os_dismissed p \<Longrightarrow>
     oneshot_step p DoGetResult (p\<lparr>os_value := Consumed\<rparr>)"
| os_dismiss: "oneshot_step p DoAbortBegin (p\<lparr>os_dismissed := True\<rparr>)"
| os_idle: "oneshot_step p l p"

inductive_cases oneshot_stepE: "oneshot_step p l p'"

definition oneshot_inv :: "'r oneshot \<Rightarrow> bool" where
  "oneshot_inv p \<longleftrightarrow> os_handed p = [] \<or> os_value p = Consumed \<and> length (os_handed p) = 1"

interpretation oneshot: machine oneshot_initial oneshot_step oneshot_inv
  by unfold_locales (auto simp: oneshot_initial_def oneshot_inv_def elim!: oneshot_stepE)

text \<open>The answer that an operation brings along.\<close>
definition answers :: "'r call_op \<Rightarrow> 'r \<Rightarrow> bool" where
  "answers l r \<longleftrightarrow> l = DoRequest (Inr (0, r)) \<or> (\<exists>f ck. l = DoFetch f \<and> f ck = Inr r)"

definition known :: "'r oneshot \<Rightarrow> 'r set" where
  "known p = set (os_handed p) \<union> (case os_value p of Fulfilled r \<Rightarrow> {r} | _ \<Rightarrow> {})"

lemma known_step: "oneshot_step p l p' \<Longrightarrow> r \<in> known p' \<Longrightarrow> r \<in> known p \<or> answers l r"
  by (erule oneshot_stepE) (auto simp: known_def answers_def)

lemma known_run: "run_of oneshot_step p ls ps \<Longrightarrow> r \<in> known (last (p # ps)) \<Longrightarrow> r \<in> known p \<or> (\<exists>l \<in> set ls. answers l r)"
proof (induction rule: run_of.induct)
  case (run_Cons p l p' ls ps)
  then show ?case using known_step [OF run_Cons.hyps(1), of r] by auto
qed simp

lemma dismissed_run:
  "run_of oneshot_step p ls ps \<Longrightarrow> os_dismissed p \<Longrightarrow>
     os_dismissed (last (p # ps)) \<and> os_handed (last (p # ps)) = os_handed p"
proof (induction rule: run_of.induct)
  case (run_Cons p l p' ls ps)
  have "os_dismissed p' \<and> os_handed p' = os_handed p"
    using run_Cons.hyps(1) run_Cons.prems by (auto elim!: oneshot_stepE)
  then show ?case using run_Cons.IH by simp
qed simp

section \<open>The implementation\<close>

definition settled_of :: "'r promise \<Rightarrow> 'r settled" where
  "settled_of p = (case p of Unsatisfied \<Rightarrow> Unset | Value r \<Rightarrow> Fulfilled r | Exception e \<Rightarrow> Rejected e | Taken \<Rightarrow> Consumed)"

lemma settled_of_simps [simp]:
  "settled_of Unsatisfied = Unset" "settled_of (Value r) = Fulfilled r" "settled_of (Exception e) = Rejected e"
  "settled_of Taken = Consumed"
  by (simp_all add: settled_of_def)

definition promise_of :: "'r call_system \<Rightarrow> 'r oneshot" where
  "promise_of s = \<lparr>os_value = settled_of (promise (the_call s)), os_handed = delivered s,
     os_dismissed = was_aborted_after_done (the_call s)\<rparr>"

lemma promise_of_eqI:
  "promise (the_call s') = promise (the_call s) \<Longrightarrow> delivered s' = delivered s \<Longrightarrow>
     was_aborted_after_done (the_call s') = was_aborted_after_done (the_call s) \<Longrightarrow> promise_of s' = promise_of s"
  by (simp add: promise_of_def)

lemma promise_request:
  assumes "call_ok c" "request d c = Some (r, c')"
  shows "was_aborted_after_done c' = was_aborted_after_done c \<and>
    (promise c' = promise c \<or> promise c = Unsatisfied \<and>
       (case d of Inl e \<Rightarrow> promise c' = Exception e | Inr (ck, v) \<Rightarrow> ck = 0 \<and> promise c' = Value v))"
  using assms by (auto simp: call_ok_def call_defs Let_def split: if_splits sum.splits)

lemma promise_fetch:
  "was_aborted_after_done (snd (fetch_unlocked f c)) = was_aborted_after_done c \<and>
    (promise (snd (fetch_unlocked f c)) = promise c \<or> promise c = Unsatisfied \<and>
       (case f (ccookie c) of Inl e \<Rightarrow> promise (snd (fetch_unlocked f c)) = Exception e
        | Inr v \<Rightarrow> promise (snd (fetch_unlocked f c)) = Value v))"
  by (auto simp: call_defs Let_def split: call_state.split sum.split)

lemma promise_abort_begin:
  "abort_begin c = (d, c') \<Longrightarrow> promise c' = promise c \<and>
     (was_aborted_after_done c' = was_aborted_after_done c \<or> was_aborted_after_done c')"
  by (auto simp: call_defs split: if_splits)

lemma promise_get_result:
  assumes "get_result_unlocked c = Some (r, c')"
  shows "was_aborted_after_done c' = was_aborted_after_done c \<and>
    (promise c' = promise c \<and> isl r \<or> \<not> was_aborted_after_done c \<and> promise c' = Taken \<and>
       (case r of Inr v \<Rightarrow> promise c = Value v | Inl e \<Rightarrow> promise c = Exception e))"
  using assms by (auto simp: get_result_unlocked_def split: if_splits promise.splits)

lemma call_step_oneshot:
  assumes inv: "call_inv s" and step: "call_step s l s'"
  shows "oneshot_step (promise_of s) l (promise_of s')"
  using step
proof (cases rule: call_step.cases)
  case (step_request d r c)
  have ok: "call_ok (the_call s)" using inv by (simp add: call_inv_def)
  show ?thesis
    using promise_request [OF ok step_request(3)] step_request(1,2)
      os_answer_now [of "promise_of s"] os_refuse [of "promise_of s"] os_idle [of "promise_of s"]
    by (auto simp: promise_of_def split: sum.splits)
next
  case (step_fetch f)
  then show ?thesis
    using promise_fetch [of f "the_call s"] os_answer_later [of "promise_of s" f "ccookie (the_call s)"]
      os_fail [of "promise_of s" f "ccookie (the_call s)"] os_idle [of "promise_of s"]
    by (auto simp: promise_of_def split: sum.splits)
next
  case (step_abort_done b c)
  then show ?thesis
    using promise_abort_begin [OF step_abort_done(3)] os_dismiss [of "promise_of s"] os_idle [of "promise_of s"]
    by (cases "was_aborted_after_done c") (auto simp: promise_of_def)
next
  case (step_abort_cookie ck c)
  then show ?thesis
    using promise_abort_begin [OF step_abort_cookie(3)] os_dismiss [of "promise_of s"] os_idle [of "promise_of s"]
    by (cases "was_aborted_after_done c") (auto simp: promise_of_def)
next
  case (step_get_result r c)
  then show ?thesis
    using promise_get_result [OF step_get_result(3)] os_take [of "promise_of s"] os_take_error [of "promise_of s"]
      os_idle [of "promise_of s"]
    by (auto simp: promise_of_def isl_def split: sum.splits)
next
  case (step_available ck)
  have "promise_of s' = promise_of s"
    by (rule promise_of_eqI)
      (simp_all add: step_available result_available_notification_def notification_def)
  then show ?thesis using os_idle by simp
next
  case (step_aborted ck)
  have "promise_of s' = promise_of s"
    by (rule promise_of_eqI) (simp_all add: step_aborted aborted_notification_def notification_def)
  then show ?thesis using os_idle by simp
next
  case (step_abort_end n result)
  have "promise_of s' = promise_of s"
    by (rule promise_of_eqI) (simp_all add: step_abort_end abort_end_def split: option.split bool.split)
  then show ?thesis using os_idle by simp
next
  case step_destroy
  have "promise_of s' = promise_of s"
    by (rule promise_of_eqI) (simp_all add: step_destroy destroy_call_def)
  then show ?thesis using os_idle by simp
qed

interpretation call_promise: refinement call_initial call_step call_inv oneshot_initial oneshot_step promise_of id
proof
  show "oneshot_initial (promise_of s)" if "call_initial s" for s :: "'a call_system"
    using that by (simp add: call_initial_def call_init_def oneshot_initial_def promise_of_def)
  show "oneshot_step (promise_of s) (id l) (promise_of s')" if "call_inv s" "call_step s l s'" for s s' :: "'a call_system" and l
    using call_step_oneshot [OF that] by simp
qed

section \<open>Property\<close>

text \<open>C28. A call keeps its promise.  Every run of the operations of a call, by any number of threads and with
  the two halves of aborts interleaved at will, is a run of a promise that is settled once and handed
  out once; so at most one result is delivered, it is one that the list broker answered, at once or when it
  was fetched, and nothing is delivered in the rest of a run once the call was aborted after it had
  finished.\<close>
theorem call_refines_promise:
  assumes "call_initial s" "run_of call_step s ops ss"
  shows "run_of oneshot_step (promise_of s) ops (map promise_of ss) \<and>
    length (delivered (last (s # ss))) \<le> 1 \<and>
    (\<forall>r \<in> set (delivered (last (s # ss))). \<exists>op \<in> set ops. answers op r) \<and>
    (\<forall>ops' ss'. run_of call_step (last (s # ss)) ops' ss' \<longrightarrow> was_aborted_after_done (the_call (last (s # ss))) \<longrightarrow>
       delivered (last (last (s # ss) # ss')) = delivered (last (s # ss)))"
proof -
  let ?t = "last (s # ss)"
  have inv: "call_inv s" by (rule call_inv_initial [OF assms(1)])
  have invt: "call_inv ?t" by (rule rnf_machine.run_inv [OF assms(2) inv])
  have run: "run_of oneshot_step (promise_of s) ops (map promise_of ss)"
    using call_promise.run_abs [OF assms(2) inv] by simp
  have last: "last (promise_of u # map promise_of us) = promise_of (last (u # us))" for u us
    using last_map [of "u # us" promise_of] by simp
  have "known (promise_of s) = {}"
    using assms(1) by (simp add: call_initial_def call_init_def known_def promise_of_def)
  then have "\<exists>op \<in> set ops. answers op r" if "r \<in> set (delivered ?t)" for r
    using known_run [OF run, of r] that unfolding last by (auto simp: known_def promise_of_def)
  moreover have "length (delivered ?t) \<le> 1" using invt by (auto simp: call_inv_def)
  moreover have "delivered (last (?t # ss')) = delivered ?t"
    if "run_of call_step ?t ops' ss'" "was_aborted_after_done (the_call ?t)" for ops' ss'
    using dismissed_run [of "promise_of ?t" "map id ops'" "map promise_of ss'"]
      call_promise.run_abs [OF that(1) invt] that(2) unfolding last by (simp add: promise_of_def)
  ultimately show ?thesis using run by blast
qed

text \<open>A call that is answered at once, its result taken, and asked for again.\<close>
definition sample_new :: "nat call_system" where
  "sample_new = \<lparr>the_call = call_init, pending = 0, delivered = []\<rparr>"

definition sample_answered :: "nat call_system" where
  "sample_answered = sample_new\<lparr>the_call := snd (the (request (Inr (0, 7)) call_init))\<rparr>"

definition sample_taken :: "nat call_system" where
  "sample_taken = sample_answered\<lparr>the_call := (the_call sample_answered)\<lparr>promise := Taken\<rparr>, delivered := [7]\<rparr>"

lemma sample_taken_run:
  "run_of call_step sample_new [DoRequest (Inr (0, 7)), DoGetResult] [sample_answered, sample_taken]"
proof (intro run_of.intros)
  show "call_step sample_new (DoRequest (Inr (0, 7))) sample_answered"
    by (rule call_step_requestI [where r = "Inr (RESULT_FETCHED, FastPath)" and c = "the_call sample_answered"])
      (simp_all add: sample_answered_def sample_new_def call_defs call_init_def set_cstate_def)
  show "call_step sample_answered DoGetResult sample_taken"
    using step_get_result [of sample_answered "Inr 7" "the_call sample_taken"]
    by (simp add: sample_taken_def sample_answered_def sample_new_def call_defs call_init_def set_cstate_def
        get_result_unlocked_def)
qed

lemma call_refines_promise_witness:
  "run_of oneshot_step (promise_of sample_new) [DoRequest (Inr (0, 7)), DoGetResult]
     (map promise_of [sample_answered, sample_taken]) \<and> delivered sample_taken = [7]"
  using call_refines_promise [OF _ sample_taken_run]
  by (simp add: call_initial_def sample_new_def sample_taken_def)

end
