(* ===== verification/Cookie_Manager.thy ===== *)
theory Cookie_Manager
  imports Prelude
begin

text \<open>
  The store of data cookies (\<^verbatim>\<open>src/cookie_manager_impl.cc\<close>, interface in
  \<^verbatim>\<open>src/cookie_manager.hh\<close>): for each cookie handed out by the list broker a function that notifies
  about the result and one that fetches it.  Stored functions are values of a type \<open>'f\<close>; whoever
  takes one out of the store calls it after the mutex has been released.

  The locale \<open>one_shot_store\<close> is the interface between the store and those who rely on it: a
  function is handed out once for each time it was stored.
\<close>

record 'f pending_cookies =
  notification_functions :: "cookie \<Rightarrow> 'f option"
  fetch_functions :: "cookie \<Rightarrow> 'f option"

definition pending_cookies_init :: "'f pending_cookies" where
  "pending_cookies_init =
     \<lparr>notification_functions = (\<lambda>_. None), fetch_functions = (\<lambda>_. None)\<rparr>"

text \<open>\<open>std::unordered_map::emplace()\<close> keeps what is there already.\<close>
definition emplace :: "'k \<Rightarrow> 'v \<Rightarrow> ('k \<Rightarrow> 'v option) \<Rightarrow> bool \<times> ('k \<Rightarrow> 'v option)" where
  "emplace k v m = (case m k of None \<Rightarrow> (True, m(k \<mapsto> v)) | Some _ \<Rightarrow> (False, m))"

definition erase :: "'k \<Rightarrow> ('k \<Rightarrow> 'v option) \<Rightarrow> ('k \<Rightarrow> 'v option)" where
  "erase k m = m(k := None)"

text \<open>\<open>PendingCookies::add()\<close>; a cookie of 0 or a missing fetch function fails an assertion.\<close>
definition add ::
  "cookie \<Rightarrow> 'f \<Rightarrow> 'f option \<Rightarrow> 'f pending_cookies \<Rightarrow> (bool \<times> 'f pending_cookies) option" where
  "add ck notify_fn fetch_fn p =
     (if ck = 0 then None
      else do { f \<leftarrow> fetch_fn;
                let (_, n) = emplace ck notify_fn (notification_functions p);
                let (inserted, m) = emplace ck f (fetch_functions p);
                Some (inserted, p\<lparr>notification_functions := n, fetch_functions := m\<rparr>) })"

text \<open>\<open>PendingCookies::available()\<close> and \<open>finish()\<close> up to the call of the function: \<open>None\<close> if
  there is none.\<close>
definition available :: "cookie \<Rightarrow> 'f pending_cookies \<Rightarrow> 'f option \<times> 'f pending_cookies" where
  "available ck p =
     (case notification_functions p ck of
        None \<Rightarrow> (None, p)
      | Some fn \<Rightarrow> (Some fn, p\<lparr>notification_functions := erase ck (notification_functions p)\<rparr>))"

definition finish :: "cookie \<Rightarrow> 'f pending_cookies \<Rightarrow> 'f option \<times> 'f pending_cookies" where
  "finish ck p =
     (case fetch_functions p ck of
        None \<Rightarrow> (None, p)
      | Some fn \<Rightarrow> (Some fn, p\<lparr>fetch_functions := erase ck (fetch_functions p)\<rparr>))"

text \<open>\<open>CookieManager::set_pending_cookie()\<close>.\<close>
definition set_pending_cookie ::
  "cookie \<Rightarrow> 'f option \<Rightarrow> 'f option \<Rightarrow> 'f pending_cookies
     \<Rightarrow> (bool \<times> 'f pending_cookies) option" where
  "set_pending_cookie ck notify fetch p =
     (if ck = 0 then Some (False, p)
      else case notify of
             None \<Rightarrow> Some (False, p)
           | Some n \<Rightarrow>
               (if fetch = None then Some (False, p)
                else do { (ok, p1) \<leftarrow> add ck n fetch p;
                          if \<not> ok then Some (False, p1) else Some (True, p1) }))"

text \<open>\<open>CookieManager::abort_cookie()\<close>: \<open>data_abort\<close> is the call of the D-Bus method
  \<open>DataAbort\<close> with a list of cookies, each with its \<open>keep\<close> flag.\<close>
definition abort_cookie ::
  "((cookie \<times> bool) list \<Rightarrow> 'w \<Rightarrow> bool \<times> 'w) \<Rightarrow> cookie \<Rightarrow> 'w \<Rightarrow> bool \<times> 'w" where
  "abort_cookie data_abort ck w = (if ck = 0 then (False, w) else data_abort [(ck, False)] w)"

section \<open>Stores that hand out what they hold once\<close>

datatype ('k, 'v, 'o) store_op = Put 'k 'v | TakeOut 'k | Unrelated 'o

locale one_shot_store =
  fixes lookup :: "'s \<Rightarrow> 'k \<Rightarrow> 'f option"
    and put :: "'k \<Rightarrow> 'v \<Rightarrow> 's \<Rightarrow> 's"
    and take_out :: "'k \<Rightarrow> 's \<Rightarrow> 'f option \<times> 's"
    and unrelated :: "'o \<Rightarrow> 's \<Rightarrow> 's"
    and accepts :: "'k \<Rightarrow> 'v \<Rightarrow> 'f option"
  assumes lookup_put: "lookup (put k v s) =
      (if lookup s k = None \<and> accepts k v \<noteq> None then (lookup s)(k := accepts k v) else lookup s)"
    and take_result: "fst (take_out k s) = lookup s k"
    and lookup_take: "lookup (snd (take_out k s)) = (lookup s)(k := None)"
    and lookup_unrelated: "lookup (unrelated x s) = lookup s"
begin

text \<open>What was stored and what was taken out for one key, in order.\<close>

fun run :: "'k \<Rightarrow> ('k, 'v, 'o) store_op list \<Rightarrow> 's \<Rightarrow> 'f list \<times> 'f list \<times> 's" where
  "run k [] s = ([], [], s)"
| "run k (Put k' v # ops) s =
     (case run k ops (put k' v s) of (ins, outs, s') \<Rightarrow>
        ((if k' = k \<and> lookup s k = None then case accepts k v of Some f \<Rightarrow> [f] | None \<Rightarrow> [] else []) @ ins,
         outs, s'))"
| "run k (TakeOut k' # ops) s =
     (case run k ops (snd (take_out k' s)) of (ins, outs, s') \<Rightarrow>
        (ins, (if k' = k then case fst (take_out k s) of Some f \<Rightarrow> [f] | None \<Rightarrow> [] else []) @ outs, s'))"
| "run k (Unrelated x # ops) s = run k ops (unrelated x s)"

definition held :: "'s \<Rightarrow> 'k \<Rightarrow> 'f list" where
  "held s k = (case lookup s k of None \<Rightarrow> [] | Some f \<Rightarrow> [f])"

lemma run_conserves: "run k ops s = (ins, outs, s') \<Longrightarrow> held s k @ ins = outs @ held s' k"
proof (induction ops arbitrary: s ins outs)
  case Nil
  then show ?case by simp
next
  case (Cons x ops)
  show ?case
  proof (cases x)
    case (Put k' v)
    with Cons.prems obtain ins' where
      r: "run k ops (put k' v s) = (ins', outs, s')" and
      ins: "ins = (if k' = k \<and> lookup s k = None
             then case accepts k v of Some f \<Rightarrow> [f] | None \<Rightarrow> [] else []) @ ins'"
      by (auto split: prod.splits)
    show ?thesis
      using Cons.IH [OF r] by (auto simp: held_def lookup_put ins split: if_splits option.splits)
  next
    case (TakeOut k')
    with Cons.prems obtain outs' where
      r: "run k ops (snd (take_out k' s)) = (ins, outs', s')" and
      outs: "outs = (if k' = k then case fst (take_out k s) of Some f \<Rightarrow> [f] | None \<Rightarrow> [] else []) @ outs'"
      by (auto split: prod.splits)
    show ?thesis
      using Cons.IH [OF r]
      by (auto simp: held_def lookup_take take_result outs split: if_splits option.splits)
  next
    case (Unrelated y)
    then show ?thesis
      using Cons.IH [of "unrelated y s"] Cons.prems by (simp add: held_def lookup_unrelated)
  qed
qed

end

section \<open>The cookie store is such a store, twice\<close>

text \<open>\<open>set_pending_cookie()\<close> never runs into the assertions of \<open>add()\<close>.\<close>
lemma set_pending_cookie_defined: "set_pending_cookie ck n f p \<noteq> None"
  by (auto simp: set_pending_cookie_def add_def split: option.splits prod.splits)

definition put_cookie :: "cookie \<Rightarrow> 'f option \<times> 'f option \<Rightarrow> 'f pending_cookies \<Rightarrow> 'f pending_cookies" where
  "put_cookie ck v p = snd (the (set_pending_cookie ck (fst v) (snd v) p))"

definition accepted :: "('f option \<times> 'f option \<Rightarrow> 'f option) \<Rightarrow> cookie \<Rightarrow> 'f option \<times> 'f option \<Rightarrow> 'f option" where
  "accepted sel ck v = (if ck = 0 \<or> fst v = None \<or> snd v = None then None else sel v)"

lemmas cookie_store_defs = put_cookie_def set_pending_cookie_def add_def emplace_def erase_def
  available_def finish_def accepted_def

interpretation notifications: one_shot_store notification_functions put_cookie available
    "\<lambda>ck p. snd (finish ck p)" "accepted fst"
  by unfold_locales
    (auto simp: cookie_store_defs fun_upd_idem split: option.splits)

interpretation fetches: one_shot_store fetch_functions put_cookie finish
    "\<lambda>ck p. snd (available ck p)" "accepted snd"
  by unfold_locales
    (auto simp: cookie_store_defs fun_upd_idem split: option.splits)

section \<open>Sequences of calls\<close>

text \<open>What is done with the store, in any order; \<open>cookie_run\<close> gives, for one cookie, the fetch
  functions that \<open>set_pending_cookie()\<close> accepted, those taken out by \<open>finish()\<close>, and the
  notification functions taken out by \<open>available()\<close>.\<close>
datatype 'f cookie_op = SetPending cookie "'f option" "'f option" | Available cookie | Finish cookie

fun cookie_run ::
  "cookie \<Rightarrow> 'f cookie_op list \<Rightarrow> 'f pending_cookies
     \<Rightarrow> 'f list \<times> 'f list \<times> 'f list \<times> 'f pending_cookies" where
  "cookie_run ck [] p = ([], [], [], p)"
| "cookie_run ck (SetPending ck' n f # ops) p =
     (case the (set_pending_cookie ck' n f p) of (ok, p1) \<Rightarrow>
      case cookie_run ck ops p1 of (ins, fins, avs, p2) \<Rightarrow>
        ((if ok \<and> ck' = ck then the f # ins else ins), fins, avs, p2))"
| "cookie_run ck (Available ck' # ops) p =
     (case available ck' p of (fn, p1) \<Rightarrow>
      case cookie_run ck ops p1 of (ins, fins, avs, p2) \<Rightarrow>
        (ins, fins, (if ck' = ck then case fn of Some g \<Rightarrow> g # avs | None \<Rightarrow> avs else avs), p2))"
| "cookie_run ck (Finish ck' # ops) p =
     (case finish ck' p of (fn, p1) \<Rightarrow>
      case cookie_run ck ops p1 of (ins, fins, avs, p2) \<Rightarrow>
        (ins, (if ck' = ck then case fn of Some g \<Rightarrow> g # fins | None \<Rightarrow> fins else fins), avs, p2))"

fun as_fetch_op :: "'f cookie_op \<Rightarrow> (cookie, 'f option \<times> 'f option, cookie) store_op" where
  "as_fetch_op (SetPending ck n f) = Put ck (n, f)"
| "as_fetch_op (Available ck) = Unrelated ck"
| "as_fetch_op (Finish ck) = TakeOut ck"

lemma set_pending_cookie_result:
  "the (set_pending_cookie ck n f p) =
     (fetch_functions p ck = None \<and> ck \<noteq> 0 \<and> n \<noteq> None \<and> f \<noteq> None, put_cookie ck (n, f) p)"
  by (auto simp: cookie_store_defs split: option.splits)

lemma cookie_run_fetches:
  "cookie_run ck ops p = (ins, fins, avs, p') \<Longrightarrow>
     fetches.run ck (map as_fetch_op ops) p = (ins, fins, p')"
proof (induction ops arbitrary: p ins fins avs)
  case (Cons x ops)
  then show ?case
  proof (cases x)
    case (SetPending ck' n f)
    then obtain ins' fins' avs' where
      r: "cookie_run ck ops (put_cookie ck' (n, f) p) = (ins', fins', avs', p')"
      using Cons.prems by (auto simp: set_pending_cookie_result split: prod.splits)
    have a: "accepted snd k (x, y) = (if k = 0 \<or> x = None \<or> y = None then None else y)"
      for k and x y :: "'a option"
      by (simp add: accepted_def)
    show ?thesis
      using Cons.IH [OF r] Cons.prems
      by (auto simp: SetPending r set_pending_cookie_result a)
  next
    case (Available ck')
    with Cons show ?thesis
      by (auto split: prod.splits)
  next
    case (Finish ck')
    with Cons show ?thesis
      by (fastforce split: prod.splits option.splits)
  qed
qed simp

text \<open>C31. One-shot callbacks.  Whatever the order of requests, availability signals and completion
  signals, \<open>set_pending_cookie()\<close> never fails an assertion, and the fetch functions it accepted
  for a cookie are handed out for a call one by one in the order they were accepted, each exactly
  once, but for the one that may still be stored.\<close>
theorem cookie_fetched_once:
  assumes "cookie_run ck ops pending_cookies_init = (accepted_fns, called_fns, notified_fns, p)"
  shows "set_pending_cookie ck n f p \<noteq> None \<and>
    accepted_fns = called_fns @ (case fetch_functions p ck of None \<Rightarrow> [] | Some fn \<Rightarrow> [fn])"
  using fetches.run_conserves [OF cookie_run_fetches [OF assms]]
  by (simp add: set_pending_cookie_defined fetches.held_def pending_cookies_init_def)

lemma cookie_fetched_once_witness:
  "fst (snd (cookie_run 3 [SetPending 3 (Some ''n'') (Some ''f''), Available 3, Finish 3, Finish 3]
      pending_cookies_init)) = [''f'']"
proof -
  let ?ops = "[SetPending 3 (Some ''n'') (Some ''f''), Available 3, Finish 3, Finish 3]"
  obtain a b c p where r: "cookie_run 3 ?ops pending_cookies_init = (a, b, c, p)"
    by (metis prod_cases4)
  have p: "fetch_functions p 3 = None" "a = [''f'']"
    using r by (auto simp: cookie_store_defs pending_cookies_init_def)
  show ?thesis
    using cookie_fetched_once [OF r] p unfolding r by simp
qed

end
