(* ===== verification/Airable_Call.thy ===== *)
theory Airable_Call
  imports Rnf_Call Cookie_Manager Strbo_Usb_Url
begin

text \<open>
  Calls managed by cookies (\<^verbatim>\<open>src/rnfcall_cookiecall.hh\<close>), the one call of this kind,
  which resolves an Airable link (\<^verbatim>\<open>src/rnfcall_resolve_airable_redirect.hh\<close>), and the
  delivery of the list broker's signals to the calls (\<^verbatim>\<open>src/cookie_manager_impl.cc\<close>).

  Call objects live in a list, an object's reference is its position; objects are shared pointers
  and stay in the list after the last reference is gone.  The functions stored in the cookie
  manager capture a call only, so they are represented by the reference.  A call's context data is
  a field of type \<open>'c\<close>; \<open>notify()\<close> of the context is the caller's business: an operation that
  ends with it returns the state to be notified.
\<close>

type_synonym call_ref = nat

record redirect_result =
  rr_error :: list_error
  rr_url :: string
  rr_expected_valid :: int

text \<open>The D-Bus methods of the list broker: \<open>None\<close> if the call itself fails.  \<open>list_error_ok\<close> is
  the default value of \<open>ListError\<close>, \<open>list_error_internal\<close> its code for internal errors,
  \<open>list_error_failed\<close> its member function \<open>failed()\<close>.\<close>
record 'w airable_env = "'w usb_env" +
  air_resolve_redirect :: "string \<Rightarrow> 'w \<Rightarrow> (cookie \<times> list_error \<times> string \<times> int) option \<times> 'w"
  air_resolve_redirect_by_cookie :: "cookie \<Rightarrow> 'w \<Rightarrow> (list_error \<times> string \<times> int) option \<times> 'w"
  air_data_abort :: "(cookie \<times> bool) list \<Rightarrow> 'w \<Rightarrow> bool \<times> 'w"
  list_error_ok :: list_error
  list_error_internal :: list_error
  list_error_failed :: "list_error \<Rightarrow> bool"

record 'c cookie_call =
  rnf :: "redirect_result rnf_call"
  redirect_url :: string
  cc_list_error :: list_error
  context_data :: 'c

record ('c, 'w) rnf_world =
  calls :: "'c cookie_call list"
  cookies :: "call_ref pending_cookies"
  rworld :: 'w

definition new_call :: "('w, 'z) airable_env_scheme \<Rightarrow> string \<Rightarrow> 'c \<Rightarrow> 'c cookie_call" where
  "new_call E url ctx =
     \<lparr>rnf = call_init, redirect_url = url, cc_list_error = list_error_ok E, context_data = ctx\<rparr>"

definition update_rnf :: "call_ref \<Rightarrow> (redirect_result rnf_call \<Rightarrow> redirect_result rnf_call)
    \<Rightarrow> ('c, 'w) rnf_world \<Rightarrow> ('c, 'w) rnf_world" where
  "update_rnf i f r =
     (if i < length (calls r)
      then r\<lparr>calls := (calls r)[i := (calls r ! i)\<lparr>rnf := f (rnf (calls r ! i))\<rparr>]\<rparr> else r)"

definition set_list_error ::
  "call_ref \<Rightarrow> list_error \<Rightarrow> ('c, 'w) rnf_world \<Rightarrow> ('c, 'w) rnf_world" where
  "set_list_error i e r =
     (if i < length (calls r)
      then r\<lparr>calls := (calls r)[i := (calls r ! i)\<lparr>cc_list_error := e\<rparr>]\<rparr> else r)"

definition get_call :: "call_ref \<Rightarrow> ('c, 'w) rnf_world \<Rightarrow> 'c cookie_call option" where
  "get_call i r = (if i < length (calls r) then Some (calls r ! i) else None)"

section \<open>Resolving a redirect\<close>

text \<open>\<open>do_request()\<close>: the outcome for \<open>Call::request()\<close>, the new \<open>list_error_\<close> and the world.\<close>
definition do_request ::
  "('w, 'z) airable_env_scheme \<Rightarrow> string \<Rightarrow> list_error \<Rightarrow> 'w
     \<Rightarrow> (rnf_exception + (cookie \<times> redirect_result)) \<times> list_error \<times> 'w" where
  "do_request E url le w =
     (case air_resolve_redirect E url w of
        (None, w1) \<Rightarrow>
          (Inl (ListException (dle_of_error (list_error_internal E))), list_error_internal E, w1)
      | (Some (ck, error_code, uri, expected_valid), w1) \<Rightarrow>
          (Inr (ck, \<lparr>rr_error = error_code, rr_url = uri, rr_expected_valid = expected_valid\<rparr>),
           le, w1))"

definition do_fetch ::
  "('w, 'z) airable_env_scheme \<Rightarrow> cookie \<Rightarrow> 'w
     \<Rightarrow> (rnf_exception + redirect_result) \<times> list_error \<times> 'w" where
  "do_fetch E ck w =
     (case air_resolve_redirect_by_cookie E ck w of
        (None, w1) \<Rightarrow>
          (Inl (ListException (dle_of_error (list_error_internal E))), list_error_internal E, w1)
      | (Some (error_code, uri, expected_valid), w1) \<Rightarrow>
          (Inr \<lparr>rr_error = error_code, rr_url = uri, rr_expected_valid = expected_valid\<rparr>,
           error_code, w1))"

section \<open>Cookie calls\<close>

text \<open>
  \<open>fetch_and_notify_unlocked()\<close> up to the call of the context's \<open>notify()\<close>: \<open>None\<close> is the
  exception \<open>BadStateError\<close>, which leaves the function; otherwise the state to be notified.
  \<open>do_fetch()\<close> is called in the state \<open>READY_TO_FETCH\<close> only.
\<close>
definition fetch_and_notify ::
  "('w, 'z) airable_env_scheme \<Rightarrow> call_ref \<Rightarrow> ('c, 'w) rnf_world
     \<Rightarrow> (call_state option \<times> ('c, 'w) rnf_world) option" where
  "fetch_and_notify E i r =
     do { c \<leftarrow> get_call i r;
          let (outcome, le, w1) =
            (if cstate (rnf c) = READY_TO_FETCH then do_fetch E (ccookie (rnf c)) (rworld r)
             else (Inl BadStateError, cc_list_error c, rworld r));
          let (result, c1) = fetch_unlocked (\<lambda>_. outcome) (rnf c);
          let r1 = (update_rnf i (\<lambda>_. c1) (set_list_error i le r))\<lparr>rworld := w1\<rparr>;
          Some (case result of Inl _ \<Rightarrow> (None, r1) | Inr _ \<Rightarrow> (Some (cstate c1), r1)) }"

text \<open>
  \<open>CookieCall::request()\<close> with the cookie manager: after a request answered with a cookie the call
  is stored as notification and fetch function for that cookie; after one answered at once the
  caller goes on with \<open>fetch_and_notify\<close>.  The result tells the two apart.
\<close>
definition cookie_request ::
  "('w, 'z) airable_env_scheme \<Rightarrow> call_ref \<Rightarrow> ('c, 'w) rnf_world
     \<Rightarrow> (request_action \<times> ('c, 'w) rnf_world) option" where
  "cookie_request E i r =
     do { c \<leftarrow> get_call i r;
          let (outcome, le, w1) =
            (if cstate (rnf c) = INITIALIZED
             then do_request E (redirect_url c) (cc_list_error c) (rworld r)
             else (Inl BadStateError, cc_list_error c, rworld r));
          (result, c1) \<leftarrow> request outcome (rnf c);
          let r1 = (update_rnf i (\<lambda>_. c1) (set_list_error i le r))\<lparr>rworld := w1\<rparr>;
          case result of
            Inl _ \<Rightarrow> None
          | Inr (_, ManageCookie ck) \<Rightarrow>
              do { (_, p) \<leftarrow> set_pending_cookie ck (Some i) (Some i) (cookies r1);
                   Some (ManageCookie ck, r1\<lparr>cookies := p\<rparr>) }
          | Inr (_, act) \<Rightarrow> Some (act, r1) }"

text \<open>The notification function stored by \<open>request()\<close>.\<close>
definition notify_by_cookie ::
  "('w, 'z) airable_env_scheme \<Rightarrow> call_ref \<Rightarrow> cookie \<Rightarrow> list_error \<Rightarrow> ('c, 'w) rnf_world
     \<Rightarrow> ('c, 'w) rnf_world" where
  "notify_by_cookie E i ck e r =
     update_rnf i (if list_error_failed E e then aborted_notification ck
                   else result_available_notification ck) (set_list_error i e r)"

text \<open>\<open>abort_request()\<close> of a call, with the cookie manager's \<open>abort_cookie()\<close>.\<close>
definition call_abort_request ::
  "('w, 'z) airable_env_scheme \<Rightarrow> call_ref \<Rightarrow> ('c, 'w) rnf_world \<Rightarrow> (bool \<times> ('c, 'w) rnf_world) option" where
  "call_abort_request E i r =
     do { c \<leftarrow> get_call i r;
          Some (case abort_begin (rnf c) of
                  (AbortResult b, c1) \<Rightarrow> (b, update_rnf i (\<lambda>_. c1) r)
                | (AbortCookie ck, c1) \<Rightarrow>
                    (case abort_cookie (air_data_abort E) ck (rworld r) of
                       (ok, w1) \<Rightarrow>
                         (case abort_end (Some ok) c1 of
                            (b, c2) \<Rightarrow> (b, (update_rnf i (\<lambda>_. c2) r)\<lparr>rworld := w1\<rparr>)))) }"

section \<open>Signals of the list broker\<close>

text \<open>
  One cookie of the signal \<open>DataAvailable\<close> (error \<open>list_error_ok\<close>) or \<open>DataError\<close>: \<open>available()\<close>
  calls the notification function, \<open>finish()\<close> the fetch function.  The result is the call and the
  state that its context is to be notified of, if any.  Exceptions of the functions are caught.
\<close>
definition cookie_signal ::
  "('w, 'z) airable_env_scheme \<Rightarrow> cookie \<Rightarrow> list_error \<Rightarrow> ('c, 'w) rnf_world
     \<Rightarrow> ((call_ref \<times> call_state) option \<times> ('c, 'w) rnf_world) option" where
  "cookie_signal E ck e r =
     (let (fn, p1) = available ck (cookies r);
          r1 = (case fn of None \<Rightarrow> r | Some i \<Rightarrow> notify_by_cookie E i ck e (r\<lparr>cookies := p1\<rparr>));
          (fn2, p2) = finish ck (cookies r1)
      in case fn2 of
           None \<Rightarrow> Some (None, r1)
         | Some i \<Rightarrow>
             do { (st, r2) \<leftarrow> fetch_and_notify E i (r1\<lparr>cookies := p2\<rparr>);
                  Some (map_option (\<lambda>s. (i, s)) st, r2) })"

section \<open>Well-formed worlds\<close>

lemma calls_update_rnf: "i < length (calls r) \<Longrightarrow> calls (update_rnf i f r) = (calls r)[i := (calls r ! i)\<lparr>rnf := f (rnf (calls r ! i))\<rparr>]"
  by (simp add: update_rnf_def)

lemma calls_set_error: "i < length (calls r) \<Longrightarrow> calls (set_list_error i e r) = (calls r)[i := (calls r ! i)\<lparr>cc_list_error := e\<rparr>]"
  by (simp add: set_list_error_def)


text \<open>Every stored reference is that of a call, and every call is well-formed.\<close>
definition rnf_world_ok :: "('c, 'w) rnf_world \<Rightarrow> bool" where
  "rnf_world_ok r \<longleftrightarrow>
     (\<forall>c \<in> set (calls r). call_ok (rnf c)) \<and>
     (\<forall>ck i. notification_functions (cookies r) ck = Some i \<longrightarrow> i < length (calls r)) \<and>
     (\<forall>ck i. fetch_functions (cookies r) ck = Some i \<longrightarrow> i < length (calls r))"

lemma length_calls [simp]:
  "length (calls (update_rnf i f r)) = length (calls r)"
  "length (calls (set_list_error i e r)) = length (calls r)"
  by (simp_all add: update_rnf_def set_list_error_def)

lemma cookies_frame [simp]:
  "cookies (update_rnf i f r) = cookies r" "cookies (set_list_error i e r) = cookies r"
  by (simp_all add: update_rnf_def set_list_error_def)

lemma rworld_frame [simp]:
  "rworld (update_rnf i f r) = rworld r" "rworld (set_list_error i e r) = rworld r"
  by (simp_all add: update_rnf_def set_list_error_def)

lemma get_call_Some [simp]: "get_call i r = Some c \<longleftrightarrow> i < length (calls r) \<and> c = calls r ! i"
  by (auto simp: get_call_def)

lemma calls_set_list_error:
  "map rnf (calls (set_list_error i e r)) = map rnf (calls r)"
  by (auto simp: set_list_error_def map_update intro!: nth_equalityI simp: nth_list_update)

lemma rnf_world_ok_alt:
  "rnf_world_ok r \<longleftrightarrow> list_all call_ok (map rnf (calls r)) \<and>
     (\<forall>ck i. notification_functions (cookies r) ck = Some i \<longrightarrow> i < length (calls r)) \<and>
     (\<forall>ck i. fetch_functions (cookies r) ck = Some i \<longrightarrow> i < length (calls r))"
  by (simp add: rnf_world_ok_def list_all_iff)

lemma rnf_world_ok_list_error [simp]: "rnf_world_ok (set_list_error i e r) = rnf_world_ok r"
  by (simp add: rnf_world_ok_alt calls_set_list_error)

lemma rnf_world_ok_rworld [simp]: "rnf_world_ok (r\<lparr>rworld := w\<rparr>) = rnf_world_ok r"
  by (simp add: rnf_world_ok_def)

lemma rnf_world_ok_update:
  "rnf_world_ok r \<Longrightarrow> (\<And>c. call_ok c \<Longrightarrow> call_ok (f c)) \<Longrightarrow> rnf_world_ok (update_rnf i f r)"
  by (auto simp: rnf_world_ok_def update_rnf_def dest!: subsetD [OF set_update_subset_insert])

lemma rnf_world_ok_set:
  "rnf_world_ok r \<Longrightarrow> call_ok c \<Longrightarrow> rnf_world_ok (update_rnf i (\<lambda>_. c) r)"
  by (auto simp: rnf_world_ok_def update_rnf_def dest!: subsetD [OF set_update_subset_insert])

lemma rnf_world_ok_nth: "rnf_world_ok r \<Longrightarrow> i < length (calls r) \<Longrightarrow> call_ok (rnf (calls r ! i))"
  by (simp add: rnf_world_ok_def)

lemma rnf_world_ok_cookies:
  "rnf_world_ok r \<Longrightarrow>
   (\<And>ck i. notification_functions p ck = Some i \<Longrightarrow> i < length (calls r)) \<Longrightarrow>
   (\<And>ck i. fetch_functions p ck = Some i \<Longrightarrow> i < length (calls r)) \<Longrightarrow> rnf_world_ok (r\<lparr>cookies := p\<rparr>)"
  by (simp add: rnf_world_ok_def)

lemma fetch_and_notify_ok:
  assumes ok: "rnf_world_ok r" and i: "i < length (calls r)"
  shows "\<exists>st r'. fetch_and_notify E i r = Some (st, r') \<and> rnf_world_ok r' \<and>
    length (calls r') = length (calls r) \<and> cookies r' = cookies r"
proof -
  obtain outcome le w1 where o: "(if cstate (rnf (calls r ! i)) = READY_TO_FETCH
      then do_fetch E (ccookie (rnf (calls r ! i))) (rworld r)
      else (Inl BadStateError, cc_list_error (calls r ! i), rworld r)) = (outcome, le, w1)"
    by (metis prod_cases3)
  obtain result c1 where f: "fetch_unlocked (\<lambda>_. outcome) (rnf (calls r ! i)) = (result, c1)"
    by force
  have "call_ok c1"
    using call_ok_fetch [OF rnf_world_ok_nth [OF ok i], of "\<lambda>_. outcome"] f by simp
  then show ?thesis
    using i ok by (auto simp: fetch_and_notify_def get_call_def o f Let_def rnf_world_ok_set split: sum.split)
qed

lemma notify_by_cookie_ok: "rnf_world_ok r \<Longrightarrow> rnf_world_ok (notify_by_cookie E i ck e r)"
  by (simp add: notify_by_cookie_def rnf_world_ok_update result_available_notification_def
      aborted_notification_def call_ok_notification)

lemma notify_by_cookie_frame [simp]:
  "length (calls (notify_by_cookie E i ck e r)) = length (calls r)"
  "cookies (notify_by_cookie E i ck e r) = cookies r"
  by (simp_all add: notify_by_cookie_def)

lemma cookie_signal_ok:
  assumes ok: "rnf_world_ok r"
  shows "\<exists>n r'. cookie_signal E ck e r = Some (n, r') \<and> rnf_world_ok r' \<and>
    length (calls r') = length (calls r) \<and> (\<forall>i st. n = Some (i, st) \<longrightarrow> i < length (calls r))"
proof -
  obtain fn p1 where a: "available ck (cookies r) = (fn, p1)"
    by force
  define r1 where "r1 = (case fn of None \<Rightarrow> r | Some i \<Rightarrow> notify_by_cookie E i ck e (r\<lparr>cookies := p1\<rparr>))"
  obtain fn2 p2 where b: "finish ck (cookies r1) = (fn2, p2)"
    by force
  have p1: "rnf_world_ok (r\<lparr>cookies := p1\<rparr>)"
    using ok a by (auto simp: rnf_world_ok_def available_def erase_def split: option.splits if_splits)
  have r1: "rnf_world_ok r1" "length (calls r1) = length (calls r)"
    using ok p1 by (auto simp: r1_def notify_by_cookie_ok split: option.split)
  have p2: "rnf_world_ok (r1\<lparr>cookies := p2\<rparr>)" and fn2: "fn2 = Some i \<Longrightarrow> i < length (calls r1)" for i
    using r1 b by (auto simp: rnf_world_ok_def finish_def erase_def split: option.splits if_splits)
  show ?thesis
  proof (cases fn2)
    case None
    then show ?thesis
      using a b r1 by (simp add: cookie_signal_def r1_def [symmetric])
  next
    case (Some i)
    obtain st r2 where f: "fetch_and_notify E i (r1\<lparr>cookies := p2\<rparr>) = Some (st, r2)" "rnf_world_ok r2"
      "length (calls r2) = length (calls r1)"
      using fetch_and_notify_ok [OF p2, of i E] fn2 [OF Some] by auto
    then show ?thesis
      using a b r1 Some fn2 [OF Some] by (auto simp: cookie_signal_def r1_def [symmetric])
  qed
qed

lemma put_cookie_refs:
  "put_cookie ck (Some i, Some i) p = p' \<Longrightarrow>
     (notification_functions p' ck' = Some j \<longrightarrow> j = i \<or> notification_functions p ck' = Some j) \<and>
     (fetch_functions p' ck' = Some j \<longrightarrow> j = i \<or> fetch_functions p ck' = Some j)"
  by (auto simp: cookie_store_defs split: option.splits if_splits)

lemma cookie_request_ok:
  assumes ok: "rnf_world_ok r" and i: "i < length (calls r)" and init: "cstate (rnf (calls r ! i)) = INITIALIZED"
  shows "\<exists>act r'. cookie_request E i r = Some (act, r') \<and> rnf_world_ok r' \<and>
    length (calls r') = length (calls r)"
proof -
  let ?c = "calls r ! i"
  obtain outcome le w1 where o: "do_request E (redirect_url ?c) (cc_list_error ?c) (rworld r) = (outcome, le, w1)"
    by (metis prod_cases3)
  have c: "call_ok (rnf ?c)"
    by (rule rnf_world_ok_nth [OF ok i])
  obtain result c1 where q: "request outcome (rnf ?c) = Some (result, c1)"
    using request_defined [OF c, of outcome] by force
  have c1: "call_ok c1"
    using postD [OF call_ok_request [OF c, of outcome] q] by simp
  obtain st act where result: "result = Inr (st, act)"
    using q init by (auto simp: request_def Let_def set_cookie_def detach_def bind_eq_Some_conv split: sum.splits if_splits)
  define r1 where "r1 = (update_rnf i (\<lambda>_. c1) (set_list_error i le r))\<lparr>rworld := w1\<rparr>"
  have r1: "rnf_world_ok r1" "length (calls r1) = length (calls r)" "cookies r1 = cookies r"
    using ok c1 by (simp_all add: r1_def rnf_world_ok_set)
  show ?thesis
  proof (cases act)
    case (ManageCookie ck)
    define p where "p = put_cookie ck (Some i, Some i) (cookies r1)"
    obtain b where s: "set_pending_cookie ck (Some i) (Some i) (cookies r1) = Some (b, p)"
      using set_pending_cookie_defined [of ck "Some i" "Some i" "cookies r1"]
      by (force simp: p_def put_cookie_def)
    have "rnf_world_ok (r1\<lparr>cookies := p\<rparr>)"
    proof (rule rnf_world_ok_cookies [OF r1(1)])
      show "j < length (calls r1)" if "notification_functions p ck' = Some j" for ck' j
        using put_cookie_refs [OF p_def [symmetric], of ck' j] that i r1 by (auto simp: rnf_world_ok_def)
      show "j < length (calls r1)" if "fetch_functions p ck' = Some j" for ck' j
        using put_cookie_refs [OF p_def [symmetric], of ck' j] that i r1 by (auto simp: rnf_world_ok_def)
    qed
    then show ?thesis
      using i init o q result r1 s ManageCookie
      by (simp add: cookie_request_def get_call_def r1_def [symmetric])
  qed (use i init o q result r1 in \<open>simp_all add: cookie_request_def get_call_def r1_def [symmetric]\<close>)
qed

lemma call_abort_request_ok:
  assumes ok: "rnf_world_ok r" and i: "i < length (calls r)"
  shows "\<exists>b r'. call_abort_request E i r = Some (b, r') \<and> rnf_world_ok r' \<and>
    length (calls r') = length (calls r)"
proof -
  obtain d c1 where a: "abort_begin (rnf (calls r ! i)) = (d, c1)"
    by force
  note c1 = call_ok_abort_begin [OF rnf_world_ok_nth [OF ok i] a]
  show ?thesis
  proof (cases d)
    case (AbortResult b)
    then show ?thesis
      using ok i a c1 by (auto simp: call_abort_request_def get_call_def rnf_world_ok_set)
  next
    case (AbortCookie ck)
    obtain b w1 where w: "abort_cookie (air_data_abort E) ck (rworld r) = (b, w1)"
      by force
    have "call_ok (snd (abort_end (Some b) c1))"
      using c1 AbortCookie call_ok_abort_end [of c1 "Some b"] by auto
    then show ?thesis
      using ok i a AbortCookie w
      by (auto simp: call_abort_request_def get_call_def rnf_world_ok_set split: prod.split)
  qed
qed

lemma rnf_world_ok_new:
  "rnf_world_ok r \<Longrightarrow> rnf_world_ok (r\<lparr>calls := calls r @ [new_call E url ctx]\<rparr>)"
  by (auto simp: rnf_world_ok_def new_call_def call_ok_init less_Suc_eq)

end
