(* ===== verification/Call_Lifetime.thy ===== *)
theory Call_Lifetime
  imports Airable_Call
begin

text \<open>
  The life time of resolver calls (destructor of \<open>ResolveAirableRedirectCall\<close>,
  \<^verbatim>\<open>src/rnfcall_resolve_airable_redirect.hh\<close>).  A call is referenced by the item it was made
  for and by the functions stored for its cookie.  When the last reference goes, the destructor
  aborts the call, which may be a D-Bus call to the list broker.
\<close>

section \<open>Operations on the calls\<close>

text \<open>A call is made and sent (\<open>resolver_begin()\<close>); if it is answered at once, the result is taken.\<close>
definition make_call ::
  "('w, 'z) airable_env_scheme \<Rightarrow> string \<Rightarrow> 'c \<Rightarrow> ('c, 'w) rnf_world
     \<Rightarrow> (request_action \<times> ('c, 'w) rnf_world) option" where
  "make_call E url ctx r =
     do { let i = length (calls r);
          (act, r1) \<leftarrow> cookie_request E i (r\<lparr>calls := calls r @ [new_call E url ctx]\<rparr>);
          case act of
            FastPath \<Rightarrow> do { (_, r2) \<leftarrow> fetch_and_notify E i r1; Some (act, r2) }
          | _ \<Rightarrow> Some (act, r1) }"

text \<open>The destructor of the call and of its base class.\<close>
definition destroy_unreferenced_call ::
  "('w, 'z) airable_env_scheme \<Rightarrow> call_ref \<Rightarrow> ('c, 'w) rnf_world \<Rightarrow> ('c, 'w) rnf_world option" where
  "destroy_unreferenced_call E i r =
     do { (_, r1) \<leftarrow> call_abort_request E i r; Some (update_rnf i destroy_call r1) }"

datatype 'c call_op = MakeCall string 'c | BrokerSignal cookie list_error | AbortCall call_ref

text \<open>The list broker gives out no cookie that is still in use.\<close>
inductive call_world_step ::
  "('w, 'z) airable_env_scheme \<Rightarrow> ('c, 'w) rnf_world \<Rightarrow> 'c call_op \<Rightarrow> ('c, 'w) rnf_world \<Rightarrow> bool"
  for E :: "('w, 'z) airable_env_scheme" where
  world_make: "make_call E url ctx r = Some (act, r') \<Longrightarrow>
     (\<And>ck. act = ManageCookie ck \<Longrightarrow> fetch_functions (cookies r) ck = None) \<Longrightarrow>
     call_world_step E r (MakeCall url ctx) r'"
| world_signal: "cookie_signal E ck e r = Some (n, r') \<Longrightarrow> call_world_step E r (BrokerSignal ck e) r'"
| world_abort: "call_abort_request E i r = Some (b, r') \<Longrightarrow> call_world_step E r (AbortCall i) r'"

definition call_world_initial :: "('c, 'w) rnf_world \<Rightarrow> bool" where
  "call_world_initial r \<longleftrightarrow> calls r = [] \<and> cookies r = pending_cookies_init"

section \<open>Calls that wait are kept\<close>

abbreviation state_of :: "('c, 'w) rnf_world \<Rightarrow> call_ref \<Rightarrow> call_state" where
  "state_of r i \<equiv> cstate (rnf (calls r ! i))"

text \<open>Aborting clears the cookie, even if the list broker refuses to abort.\<close>
definition awaited_cookie :: "'r rnf_call \<Rightarrow> cookie" where
  "awaited_cookie c = (if ccookie c \<noteq> 0 then ccookie c else cleared_cookie c)"

definition call_kept :: "('c, 'w) rnf_world \<Rightarrow> call_ref \<Rightarrow> bool" where
  "call_kept r i \<longleftrightarrow>
     state_of r i \<noteq> READY_TO_FETCH \<and>
     (state_of r i = WAIT_FOR_NOTIFICATION \<longrightarrow>
        (\<exists>ck. fetch_functions (cookies r) ck = Some i) \<and>
        (\<forall>ck. fetch_functions (cookies r) ck = Some i \<longrightarrow>
           ck \<noteq> 0 \<and> ck = awaited_cookie (rnf (calls r ! i))))"

definition calls_kept :: "('c, 'w) rnf_world \<Rightarrow> bool" where
  "calls_kept r \<longleftrightarrow>
     rnf_world_ok r \<and> notification_functions (cookies r) = fetch_functions (cookies r) \<and>
     (\<forall>i < length (calls r). call_kept r i)"

lemma calls_keptI:
  assumes "rnf_world_ok r" "notification_functions (cookies r) = fetch_functions (cookies r)"
    "\<And>i. i < length (calls r) \<Longrightarrow> call_kept r i"
  shows "calls_kept r"
  using assms by (simp add: calls_kept_def)

lemma calls_keptD:
  assumes "calls_kept r"
  shows "rnf_world_ok r" "notification_functions (cookies r) = fetch_functions (cookies r)"
    "i < length (calls r) \<Longrightarrow> call_kept r i"
  using assms by (simp_all add: calls_kept_def)

text \<open>A call that does not wait is kept, whatever is stored.\<close>
lemma call_kept_done: "state_of r i \<notin> {WAIT_FOR_NOTIFICATION, READY_TO_FETCH} \<Longrightarrow> call_kept r i"
  by (simp add: call_kept_def)

text \<open>Another call is not affected, if its cookies stay.\<close>
lemma call_kept_frame:
  assumes "call_kept r i" "rnf (calls r' ! i) = rnf (calls r ! i)"
    "\<And>ck. (fetch_functions (cookies r') ck = Some i) = (fetch_functions (cookies r) ck = Some i)"
  shows "call_kept r' i"
  using assms by (simp add: call_kept_def)

lemma fetch_unlocked_done:
  "cstate c \<noteq> WAIT_FOR_NOTIFICATION \<Longrightarrow>
     cstate (snd (fetch_unlocked f c)) \<notin> {WAIT_FOR_NOTIFICATION, READY_TO_FETCH}"
  by (auto simp: fetch_unlocked_def clear_cookie_def Let_def split: call_state.split sum.split)

lemma fetch_and_notify_effect:
  assumes "i < length (calls r)"
  shows "\<exists>f st r'. fetch_and_notify E i r = Some (st, r') \<and> cookies r' = cookies r \<and>
    length (calls r') = length (calls r) \<and>
    (\<forall>j. j \<noteq> i \<longrightarrow> rnf (calls r' ! j) = rnf (calls r ! j)) \<and>
    rnf (calls r' ! i) = snd (fetch_unlocked f (rnf (calls r ! i)))"
proof -
  obtain outcome le w1 where o: "(if state_of r i = READY_TO_FETCH
      then do_fetch E (ccookie (rnf (calls r ! i))) (rworld r)
      else (Inl BadStateError, cc_list_error (calls r ! i), rworld r)) = (outcome, le, w1)"
    by (metis prod_cases3)
  obtain result c1 where f: "fetch_unlocked (\<lambda>_. outcome) (rnf (calls r ! i)) = (result, c1)" by force
  show ?thesis
    by (rule exI [of _ "\<lambda>_. outcome"])
      (use assms f in \<open>simp add: fetch_and_notify_def get_call_def o Let_def calls_update_rnf calls_set_error split: sum.split\<close>)
qed

lemma cookie_signal_unknown:
  assumes "notification_functions (cookies r) ck = None" "fetch_functions (cookies r) ck = None"
  shows "cookie_signal E ck e r = Some (None, r)"
  using assms by (simp add: cookie_signal_def available_def finish_def)

lemma cookie_signal_effect:
  assumes "notification_functions (cookies r) ck = Some i" "fetch_functions (cookies r) ck = Some i"
    "i < length (calls r)" "cookie_signal E ck e r = Some (n, r')"
  shows "\<exists>f st. st \<in> {READY_TO_FETCH, ABORTED_BY_PEER} \<and>
    notification_functions (cookies r') = erase ck (notification_functions (cookies r)) \<and>
    fetch_functions (cookies r') = erase ck (fetch_functions (cookies r)) \<and>
    length (calls r') = length (calls r) \<and>
    (\<forall>j. j \<noteq> i \<longrightarrow> rnf (calls r' ! j) = rnf (calls r ! j)) \<and>
    rnf (calls r' ! i) = snd (fetch_unlocked f (notification ck st (rnf (calls r ! i))))"
proof -
  define st where "st = (if list_error_failed E e then ABORTED_BY_PEER else READY_TO_FETCH)"
  define r1 where "r1 = (notify_by_cookie E i ck e
      (r\<lparr>cookies := (cookies r)\<lparr>notification_functions := erase ck (notification_functions (cookies r))\<rparr>\<rparr>))
      \<lparr>cookies := (cookies r)\<lparr>notification_functions := erase ck (notification_functions (cookies r)),
                             fetch_functions := erase ck (fetch_functions (cookies r))\<rparr>\<rparr>"
  have r1: "i < length (calls r1)" "length (calls r1) = length (calls r)"
      "\<forall>j. j \<noteq> i \<longrightarrow> rnf (calls r1 ! j) = rnf (calls r ! j)"
      "rnf (calls r1 ! i) = notification ck st (rnf (calls r ! i))"
    using assms(3)
    by (simp_all add: r1_def st_def notify_by_cookie_def calls_update_rnf calls_set_error
        result_available_notification_def aborted_notification_def)
  obtain f s r2 where f: "fetch_and_notify E i r1 = Some (s, r2)" "cookies r2 = cookies r1"
      "length (calls r2) = length (calls r1)" "\<forall>j. j \<noteq> i \<longrightarrow> rnf (calls r2 ! j) = rnf (calls r1 ! j)"
      "rnf (calls r2 ! i) = snd (fetch_unlocked f (rnf (calls r1 ! i)))"
    using fetch_and_notify_effect [OF r1(1), of E] by blast
  have "cookie_signal E ck e r = Some (map_option (Pair i) s, r2)"
    using assms(1,2) f(1) by (simp add: cookie_signal_def available_def finish_def r1_def Let_def)
  then have "r' = r2" using assms(4) by simp
  then show ?thesis
    using f r1 by (intro exI [of _ f] exI [of _ st]) (simp add: st_def r1_def)
qed

lemma notification_done:
  assumes "c = rnf (calls r ! i)" "call_kept r i" "fetch_functions (cookies r) ck = Some i"
    "st \<in> {READY_TO_FETCH, ABORTED_BY_PEER}"
  shows "cstate (notification ck st c) \<noteq> WAIT_FOR_NOTIFICATION"
  using assms by (auto simp: call_kept_def awaited_cookie_def notification_def split: if_splits)

lemma calls_kept_signal:
  assumes kept: "calls_kept r" and s: "cookie_signal E ck e r = Some (n, r')"
  shows "calls_kept r'"
proof (cases "fetch_functions (cookies r) ck")
  case None
  then show ?thesis using cookie_signal_unknown [of r ck E e] calls_keptD(2) [OF kept] kept s by simp
next
  case (Some i)
  note ok = calls_keptD(1) [OF kept]
  have i: "i < length (calls r)" using ok Some by (auto simp: rnf_world_ok_def)
  have nf: "notification_functions (cookies r) ck = Some i" using calls_keptD(2) [OF kept] Some by simp
  from cookie_signal_effect [OF nf Some i s] obtain f st where
      st: "st \<in> {READY_TO_FETCH, ABORTED_BY_PEER}" and
      eff: "notification_functions (cookies r') = erase ck (notification_functions (cookies r))"
        "fetch_functions (cookies r') = erase ck (fetch_functions (cookies r))"
        "length (calls r') = length (calls r)" "\<forall>j. j \<noteq> i \<longrightarrow> rnf (calls r' ! j) = rnf (calls r ! j)"
        "rnf (calls r' ! i) = snd (fetch_unlocked f (notification ck st (rnf (calls r ! i))))"
    by blast
  show ?thesis
  proof (rule calls_keptI)
    show "rnf_world_ok r'" using cookie_signal_ok [OF ok, of E ck e] s by auto
    show "notification_functions (cookies r') = fetch_functions (cookies r')"
      using eff(1,2) calls_keptD(2) [OF kept] by simp
    fix j assume j: "j < length (calls r')"
    show "call_kept r' j"
    proof (cases "j = i")
      case True
      have "state_of r' i \<notin> {WAIT_FOR_NOTIFICATION, READY_TO_FETCH}"
        unfolding eff(5)
        by (rule fetch_unlocked_done, rule notification_done [OF refl calls_keptD(3) [OF kept i] Some st])
      then show ?thesis using True by (simp add: call_kept_done)
    next
      case False
      then show ?thesis
        using eff j Some
        by (intro call_kept_frame [OF calls_keptD(3) [OF kept, of j]]) (auto simp: erase_def)
    qed
  qed
qed

lemma request_kept:
  assumes "request outcome call_init = Some (result, c)"
  shows "(\<exists>ck. result = Inr (WAIT_FOR_NOTIFICATION, ManageCookie ck) \<and> ck \<noteq> 0 \<and> ccookie c = ck \<and>
        cstate c = WAIT_FOR_NOTIFICATION) \<or>
    (\<exists>st act. result = Inr (st, act) \<and> (\<forall>ck. act \<noteq> ManageCookie ck) \<and> cstate c \<in> {RESULT_FETCHED, CALL_FAILED})"
  using assms
  by (auto simp: request_def call_init_def set_cookie_def detach_def set_cstate_def Let_def bind_eq_Some_conv
      split: sum.splits if_splits)

lemma cookie_request_effect:
  fixes r :: "('c, 'w) rnf_world"
  assumes "cookie_request E (length (calls r)) (r\<lparr>calls := calls r @ [new_call E url ctx]\<rparr>) = Some (act, r1)"
  shows "length (calls r1) = Suc (length (calls r)) \<and>
    (\<forall>j < length (calls r). rnf (calls r1 ! j) = rnf (calls r ! j)) \<and>
    ((\<exists>ck. act = ManageCookie ck \<and> ck \<noteq> 0 \<and> ccookie (rnf (calls r1 ! length (calls r))) = ck \<and>
        state_of r1 (length (calls r)) = WAIT_FOR_NOTIFICATION \<and>
        cookies r1 = put_cookie ck (Some (length (calls r)), Some (length (calls r))) (cookies r)) \<or>
     (\<forall>ck. act \<noteq> ManageCookie ck) \<and> cookies r1 = cookies r \<and>
       state_of r1 (length (calls r)) \<in> {RESULT_FETCHED, CALL_FAILED})"
proof -
  let ?n = "length (calls r)" and ?r = "r\<lparr>calls := calls r @ [new_call E url ctx]\<rparr>"
  obtain outcome le w1 where o: "do_request E url (list_error_ok E) (rworld r) = (outcome, le, w1)"
    by (metis prod_cases3)
  obtain result c1 where q: "request outcome call_init = Some (result, c1)"
    using assms o by (auto simp: cookie_request_def get_call_def new_call_def call_init_def bind_eq_Some_conv Let_def split: prod.splits)
  define r2 where "r2 = (update_rnf ?n (\<lambda>_. c1) (set_list_error ?n le ?r))\<lparr>rworld := w1\<rparr>"
  have r2: "length (calls r2) = Suc ?n" "\<forall>j < ?n. rnf (calls r2 ! j) = rnf (calls r ! j)"
      "rnf (calls r2 ! ?n) = c1" "cookies r2 = cookies r"
    by (simp_all add: r2_def calls_update_rnf calls_set_error nth_append)
  have run: "cookie_request E ?n ?r = (case result of Inl _ \<Rightarrow> None
      | Inr (_, ManageCookie ck) \<Rightarrow> do { (_, p) \<leftarrow> set_pending_cookie ck (Some ?n) (Some ?n) (cookies r2);
                                         Some (ManageCookie ck, r2\<lparr>cookies := p\<rparr>) }
      | Inr (_, act) \<Rightarrow> Some (act, r2))"
    using o q
    by (simp add: cookie_request_def get_call_def new_call_def r2_def call_init_def Let_def
        split: sum.split prod.split request_action.split)
  from request_kept [OF q] show ?thesis
  proof (elim disjE exE conjE)
    fix ck assume a: "result = Inr (WAIT_FOR_NOTIFICATION, ManageCookie ck)" "ck \<noteq> 0" "ccookie c1 = ck" "cstate c1 = WAIT_FOR_NOTIFICATION"
    obtain b where "set_pending_cookie ck (Some ?n) (Some ?n) (cookies r2)
        = Some (b, put_cookie ck (Some ?n, Some ?n) (cookies r))"
      using set_pending_cookie_defined [of ck "Some ?n" "Some ?n" "cookies r2"]
      by (force simp: put_cookie_def r2)
    then show ?thesis using a run assms r2 by auto
  next
    fix st act' assume a: "result = Inr (st, act')" "\<forall>ck. act' \<noteq> ManageCookie ck" "cstate c1 \<in> {RESULT_FETCHED, CALL_FAILED}"
    then have "cookie_request E ?n ?r = Some (act', r2)" using run by (cases act') simp_all
    then show ?thesis using a assms r2 by auto
  qed
qed

lemma put_cookie_fresh:
  assumes "fetch_functions p ck = None" "notification_functions p = fetch_functions p" "ck \<noteq> 0"
  shows "fetch_functions (put_cookie ck (Some i, Some i) p) = (fetch_functions p)(ck \<mapsto> i)"
    "notification_functions (put_cookie ck (Some i, Some i) p) = (fetch_functions p)(ck \<mapsto> i)"
  using assms by (auto simp: cookie_store_defs split: option.splits if_splits)

lemma rnf_world_ok_make:
  assumes "rnf_world_ok r" "make_call E url ctx r = Some (act, r')"
  shows "rnf_world_ok r'"
proof -
  let ?r = "r\<lparr>calls := calls r @ [new_call E url ctx]\<rparr>"
  have ok: "rnf_world_ok ?r" by (rule rnf_world_ok_new [OF assms(1)])
  have "cstate (rnf (calls ?r ! length (calls r))) = INITIALIZED" by (simp add: new_call_def call_init_def)
  then obtain act1 r1 where r1: "cookie_request E (length (calls r)) ?r = Some (act1, r1)" "rnf_world_ok r1"
      "length (calls r1) = Suc (length (calls r))"
    using cookie_request_ok [OF ok, of "length (calls r)" E] by auto
  show ?thesis
  proof (cases act1)
    case FastPath
    then show ?thesis
      using fetch_and_notify_ok [OF r1(2), of "length (calls r)" E] r1 assms(2) by (auto simp: make_call_def)
  qed (use r1 assms(2) in \<open>auto simp: make_call_def\<close>)
qed

lemma call_kept_old:
  assumes kept: "calls_kept r" and j: "j < length (calls r)"
    and "rnf (calls r' ! j) = rnf (calls r ! j)"
    and "fetch_functions (cookies r') = fetch_functions (cookies r) \<or>
      (\<exists>ck. fetch_functions (cookies r') = (fetch_functions (cookies r))(ck \<mapsto> length (calls r))
         \<and> fetch_functions (cookies r) ck = None)"
  shows "call_kept r' j"
proof (rule call_kept_frame [OF calls_keptD(3) [OF kept j] assms(3)])
  fix ck
  show "(fetch_functions (cookies r') ck = Some j) = (fetch_functions (cookies r) ck = Some j)"
    using assms(4) j by (auto split: if_splits)
qed

lemma calls_kept_make:
  assumes kept: "calls_kept r" and m: "make_call E url ctx r = Some (act, r')"
    and fresh: "\<And>ck. act = ManageCookie ck \<Longrightarrow> fetch_functions (cookies r) ck = None"
  shows "calls_kept r'"
proof -
  let ?n = "length (calls r)"
  note d = calls_keptD [OF kept]
  obtain act1 r1 where r1: "cookie_request E ?n (r\<lparr>calls := calls r @ [new_call E url ctx]\<rparr>) = Some (act1, r1)"
    using m by (auto simp: make_call_def bind_eq_Some_conv Let_def)
  note eff = cookie_request_effect [OF r1]
  have refs: "fetch_functions (cookies r) ck \<noteq> Some ?n" for ck using d(1) by (auto simp: rnf_world_ok_def)
  show ?thesis
  proof (cases "\<exists>ck. act1 = ManageCookie ck")
    case True
    then obtain ck where ck: "act1 = ManageCookie ck" by blast
    then have a: "act = ManageCookie ck" "r' = r1" using m r1 by (auto simp: make_call_def)
    have e: "ck \<noteq> 0" "ccookie (rnf (calls r1 ! ?n)) = ck" "state_of r1 ?n = WAIT_FOR_NOTIFICATION" "cookies r1 = put_cookie ck (Some ?n, Some ?n) (cookies r)"
        "length (calls r1) = Suc ?n" "\<forall>j < ?n. rnf (calls r1 ! j) = rnf (calls r ! j)"
      using eff ck by auto
    note put = put_cookie_fresh [OF fresh [OF a(1)] d(2) e(1), of ?n]
    show ?thesis
    proof (rule calls_keptI)
      show "rnf_world_ok r'" by (rule rnf_world_ok_make [OF d(1) m])
      show "notification_functions (cookies r') = fetch_functions (cookies r')" using put e(4) a by simp
      fix j assume j: "j < length (calls r')"
      show "call_kept r' j"
      proof (cases "j = ?n")
        case True
        then show ?thesis
          using a e put refs by (auto simp: call_kept_def awaited_cookie_def split: if_splits)
      next
        case False
        then show ?thesis
          using j a e put fresh [OF a(1)] by (intro call_kept_old [OF kept]) auto
      qed
    qed
  next
    case False
    then have e: "cookies r1 = cookies r" "state_of r1 ?n \<in> {RESULT_FETCHED, CALL_FAILED}"
        "length (calls r1) = Suc ?n" "\<forall>j < ?n. rnf (calls r1 ! j) = rnf (calls r ! j)"
      using eff by auto
    have "cookies r' = cookies r \<and> length (calls r') = Suc ?n \<and>
        (\<forall>j < ?n. rnf (calls r' ! j) = rnf (calls r ! j)) \<and>
        state_of r' ?n \<notin> {WAIT_FOR_NOTIFICATION, READY_TO_FETCH}"
    proof (cases act1)
      case FastPath
      then obtain st where st: "fetch_and_notify E ?n r1 = Some (st, r')"
        using m r1 by (auto simp: make_call_def bind_eq_Some_conv)
      obtain f st' r2 where "fetch_and_notify E ?n r1 = Some (st', r2)" "cookies r2 = cookies r1"
          "length (calls r2) = length (calls r1)" "\<forall>j. j \<noteq> ?n \<longrightarrow> rnf (calls r2 ! j) = rnf (calls r1 ! j)"
          "rnf (calls r2 ! ?n) = snd (fetch_unlocked f (rnf (calls r1 ! ?n)))"
        using fetch_and_notify_effect [of ?n r1 E] e(3) by auto
      then show ?thesis
        using st e fetch_unlocked_done [of "rnf (calls r1 ! ?n)" f] by auto
    qed (use m r1 e False in \<open>auto simp: make_call_def\<close>)
    then have e': "cookies r' = cookies r" "length (calls r') = Suc ?n"
        "\<forall>j < ?n. rnf (calls r' ! j) = rnf (calls r ! j)"
        "state_of r' ?n \<notin> {WAIT_FOR_NOTIFICATION, READY_TO_FETCH}" by auto
    show ?thesis
    proof (rule calls_keptI)
      show "rnf_world_ok r'" by (rule rnf_world_ok_make [OF d(1) m])
      show "notification_functions (cookies r') = fetch_functions (cookies r')" using e'(1) d(2) by simp
      fix j assume j: "j < length (calls r')"
      show "call_kept r' j"
        using j e' by (cases "j = ?n") (simp_all add: call_kept_done call_kept_old [OF kept])
    qed
  qed
qed

section \<open>Aborting\<close>

lemma abort_state:
  assumes "abort_begin c = (d, c1)"
  shows "(\<exists>b. d = AbortResult b \<and> (cstate c1 = ABORTED_BY_PEER \<or>
        cstate c1 = cstate c \<and> cstate c \<notin> {WAIT_FOR_NOTIFICATION, READY_TO_FETCH})) \<or>
    d = AbortCookie (ccookie c) \<and> ccookie c \<noteq> 0 \<and> cstate c1 = cstate c \<and>
      cstate c \<in> {INITIALIZED, WAIT_FOR_NOTIFICATION, READY_TO_FETCH} \<and>
      cleared_cookie c1 = ccookie c \<and> ccookie c1 = 0"
  using assms by (auto simp: abort_begin_def clear_cookie_def split: if_splits)

lemma call_abort_effect:
  assumes "call_abort_request E i r = Some (b, r')" "i < length (calls r)"
  shows "cookies r' = cookies r \<and> length (calls r') = length (calls r) \<and>
    (\<forall>j. j \<noteq> i \<longrightarrow> rnf (calls r' ! j) = rnf (calls r ! j)) \<and>
    (state_of r i \<in> {INITIALIZED, WAIT_FOR_NOTIFICATION, READY_TO_FETCH} \<and> ccookie (rnf (calls r ! i)) \<noteq> 0 \<and>
       state_of r' i = state_of r i \<and> awaited_cookie (rnf (calls r' ! i)) = ccookie (rnf (calls r ! i)) \<or>
     state_of r' i \<in> {ABORTING, ABORTED_BY_PEER} \<or>
     state_of r' i = state_of r i \<and> state_of r i \<notin> {WAIT_FOR_NOTIFICATION, READY_TO_FETCH} \<and> rworld r' = rworld r)"
proof -
  obtain d c1 where a: "abort_begin (rnf (calls r ! i)) = (d, c1)" by force
  from abort_state [OF a] show ?thesis
    using assms a
    by (auto simp: call_abort_request_def get_call_def calls_update_rnf abort_end_def awaited_cookie_def
        split: prod.splits bool.splits)
qed

lemma calls_kept_abort:
  assumes kept: "calls_kept r" and a: "call_abort_request E i r = Some (b, r')"
  shows "calls_kept r'"
proof -
  have i: "i < length (calls r)" using a by (auto simp: call_abort_request_def bind_eq_Some_conv)
  note d = calls_keptD [OF kept] and eff = call_abort_effect [OF a i]
  show ?thesis
  proof (rule calls_keptI)
    show "rnf_world_ok r'" using call_abort_request_ok [OF d(1) i, of E] a by auto
    show "notification_functions (cookies r') = fetch_functions (cookies r')" using eff d(2) by simp
    fix j assume j: "j < length (calls r')"
    show "call_kept r' j"
    proof (cases "j = i")
      case True
      then show ?thesis using eff d(3) [OF i] by (auto simp: call_kept_def awaited_cookie_def)
    next
      case False
      then show ?thesis using eff j by (intro call_kept_frame [OF d(3) [of j]]) simp_all
    qed
  qed
qed

section \<open>The machine of calls\<close>

lemma calls_kept_initial: "call_world_initial r \<Longrightarrow> calls_kept r"
  by (simp add: call_world_initial_def calls_kept_def rnf_world_ok_def pending_cookies_init_def)

lemma calls_kept_step: "calls_kept r \<Longrightarrow> call_world_step E r l r' \<Longrightarrow> calls_kept r'"
  by (cases rule: call_world_step.cases, assumption)
    (auto intro: calls_kept_make calls_kept_signal calls_kept_abort)

interpretation call_world: machine call_world_initial "call_world_step E" calls_kept
  by unfold_locales (rule calls_kept_initial, assumption, rule calls_kept_step)

section \<open>Property\<close>

text \<open>C30. Calls live as long as they are needed: in every reachable state, a call that waits for the
  list broker is referenced by the function stored for its cookie, also when the item it was made
  for is gone.  So a call is destroyed only when nothing is pending: then the destructor sends nothing to the
  list broker, leaves all other calls and the stored cookies alone, and ends the call.\<close>
theorem destroyed_calls_are_done:
  assumes "reachable call_world_initial (call_world_step E) r" "i < length (calls r)"
    and "\<forall>ck. fetch_functions (cookies r) ck \<noteq> Some i"
  shows "state_of r i \<notin> {WAIT_FOR_NOTIFICATION, READY_TO_FETCH} \<and>
    (\<exists>r'. destroy_unreferenced_call E i r = Some r' \<and> rworld r' = rworld r \<and> cookies r' = cookies r \<and>
       state_of r' i = ABOUT_TO_DESTROY \<and> (\<forall>j. j \<noteq> i \<longrightarrow> rnf (calls r' ! j) = rnf (calls r ! j)))"
proof -
  note d = calls_keptD [OF call_world.reachable_inv [OF assms(1)]]
  have st: "state_of r i \<notin> {WAIT_FOR_NOTIFICATION, READY_TO_FETCH}"
    using d(3) [OF assms(2)] assms(3) by (auto simp: call_kept_def)
  have "call_ok (rnf (calls r ! i))" by (rule rnf_world_ok_nth [OF d(1) assms(2)])
  then have "\<exists>b c1. abort_begin (rnf (calls r ! i)) = (AbortResult b, c1)"
    using st by (auto simp: abort_begin_def clear_cookie_def call_ok_def)
  then obtain b c1 where a: "abort_begin (rnf (calls r ! i)) = (AbortResult b, c1)" by blast
  show ?thesis
    using st a assms(2)
    by (simp add: destroy_unreferenced_call_def call_abort_request_def get_call_def calls_update_rnf destroy_call_def)
qed

text \<open>A list broker that answers later, with the cookie 7.\<close>
definition airable_env_sample :: "unit airable_env" where
  "airable_env_sample =
     \<lparr>os_mkstemp = (\<lambda>t w. (None, w)), os_file_delete = (\<lambda>n w. w), os_system_failed = (\<lambda>c w. (False, w)),
      os_map_file = (\<lambda>n w. None), gst_filename_to_uri = (\<lambda>f. Some f), gst_uri_from_string = (\<lambda>u. None),
      air_resolve_redirect = (\<lambda>_ w. (Some (7, 0, [], 0), w)),
      air_resolve_redirect_by_cookie = (\<lambda>_ w. (Some (0, ''http://x'', 60), w)),
      air_data_abort = (\<lambda>_ w. (True, w)),
      list_error_ok = 0, list_error_internal = 1, list_error_failed = (\<lambda>e. e \<noteq> 0)\<rparr>"

definition sample_call_world :: "(unit, unit) rnf_world" where
  "sample_call_world = \<lparr>calls = [], cookies = pending_cookies_init, rworld = ()\<rparr>"

definition sample_call_waiting :: "(unit, unit) rnf_world" where
  "sample_call_waiting = snd (the (make_call airable_env_sample ''airable://x'' () sample_call_world))"

definition sample_call_answered :: "(unit, unit) rnf_world" where
  "sample_call_answered = snd (the (cookie_signal airable_env_sample 7 0 sample_call_waiting))"

lemma sample_make:
  "make_call airable_env_sample ''airable://x'' () sample_call_world = Some (ManageCookie 7, sample_call_waiting)"
  by (simp add: sample_call_waiting_def make_call_def cookie_request_def sample_call_world_def airable_env_sample_def
      get_call_def new_call_def call_init_def do_request_def request_def set_cookie_def detach_def
      set_pending_cookie_def add_def emplace_def pending_cookies_init_def)

lemma sample_signal:
  "\<exists>n. cookie_signal airable_env_sample 7 0 sample_call_waiting = Some (n, sample_call_answered)"
  using cookie_signal_ok [of sample_call_waiting airable_env_sample 7 0]
    rnf_world_ok_make [OF _ sample_make]
  by (auto simp: sample_call_answered_def sample_call_world_def rnf_world_ok_def pending_cookies_init_def)

lemma sample_answered_reachable:
  "reachable call_world_initial (call_world_step airable_env_sample) sample_call_answered"
proof -
  have "call_world_initial sample_call_world" by (simp add: call_world_initial_def sample_call_world_def)
  then have "reachable call_world_initial (call_world_step airable_env_sample) sample_call_world"
    by (rule reach_init)
  moreover have "call_world_step airable_env_sample sample_call_world (MakeCall ''airable://x'' ()) sample_call_waiting"
    by (rule world_make [OF sample_make]) (simp add: sample_call_world_def pending_cookies_init_def)
  ultimately have "reachable call_world_initial (call_world_step airable_env_sample) sample_call_waiting"
    by (rule reach_step)
  then show ?thesis using sample_signal world_signal reach_step by metis
qed

lemma sample_answered:
  "length (calls sample_call_answered) = 1" "fetch_functions (cookies sample_call_answered) ck = None"
proof -
  have "cookie_request airable_env_sample (length (calls sample_call_world))
      (sample_call_world\<lparr>calls := calls sample_call_world @ [new_call airable_env_sample ''airable://x'' ()]\<rparr>)
      = Some (ManageCookie 7, sample_call_waiting)"
    (is "?q = _")
  proof -
    obtain act r1 where q: "?q = Some (act, r1)"
      using sample_make by (auto simp: make_call_def bind_eq_Some_conv Let_def)
    then show ?thesis
      using sample_make by (cases act) (auto simp: make_call_def bind_eq_Some_conv Let_def)
  qed
  note eff = cookie_request_effect [OF this]
  have w: "length (calls sample_call_waiting) = 1"
      "fetch_functions (cookies sample_call_waiting) = [7 \<mapsto> 0]" "notification_functions (cookies sample_call_waiting) = [7 \<mapsto> 0]"
    using eff put_cookie_fresh [of pending_cookies_init 7 0]
    by (auto simp: sample_call_world_def pending_cookies_init_def)
  obtain n where "cookie_signal airable_env_sample 7 0 sample_call_waiting = Some (n, sample_call_answered)"
    using sample_signal by blast
  from cookie_signal_effect [OF _ _ _ this, of 0] w
  show "length (calls sample_call_answered) = 1" "fetch_functions (cookies sample_call_answered) ck = None"
    by (auto simp: erase_def)
qed

lemma destroyed_calls_are_done_witness:
  "\<exists>r'. destroy_unreferenced_call airable_env_sample 0 sample_call_answered = Some r' \<and>
     state_of r' 0 = ABOUT_TO_DESTROY"
  using destroyed_calls_are_done [OF sample_answered_reachable, of 0] by (auto simp: sample_answered)

text \<open>Aborting a call clears its cookie, but a signal that its data are available still counts; then
  the result is fetched for the cookie 0, which is none.\<close>
lemma aborted_call_fetches_cookie_0:
  assumes "cstate c = WAIT_FOR_NOTIFICATION" "ccookie c = ck" "ck \<noteq> 0"
  shows "let c1 = snd (abort_request_internal (\<lambda>_. Some True) c); c2 = result_available_notification ck c1
    in cstate c1 = ABORTING \<and> cstate c2 = READY_TO_FETCH \<and> ccookie c2 = 0 \<and>
       fetch_unlocked f c2 = fetch_unlocked (\<lambda>_. f 0) c2"
  using assms
  by (simp add: abort_request_internal_def abort_begin_def clear_cookie_def abort_end_def
      result_available_notification_def notification_def fetch_unlocked_def)

end
