(* ===== verification/Gstring_Wrapper.thy ===== *)
theory Gstring_Wrapper
  imports Prelude
begin

text \<open>
  The owner of a string allocated by GLib (class \<open>GLibString\<close>, \<^verbatim>\<open>src/gstringwrapper.hh\<close>).

  Wrapper objects are numbers, so that the test \<open>this != &src\<close> of the move assignment can be
  expressed.  \<open>strings\<close> holds the allocated strings by their address; \<open>wrappers\<close> holds the member
  \<open>str_\<close> of each living wrapper, which may be the null pointer.  Freeing an address twice, or
  reading a string that has been freed, is \<open>None\<close>.
\<close>

section \<open>Wrappers\<close>

type_synonym address = nat
type_synonym wrapper = nat

record string_heap =
  strings :: "address \<rightharpoonup> string"
  wrappers :: "wrapper \<rightharpoonup> address option"

definition string_heap_init :: string_heap where
  "string_heap_init = \<lparr>strings = Map.empty, wrappers = Map.empty\<rparr>"

text \<open>\<open>GLibString()\<close>.\<close>
definition gstr_default :: "wrapper \<Rightarrow> string_heap \<Rightarrow> string_heap" where
  "gstr_default w h = h\<lparr>wrappers := (wrappers h)(w \<mapsto> None)\<rparr>"

text \<open>\<open>GLibString(gchar *&&)\<close> and the constructor from a function: the string becomes the wrapper's.\<close>
definition gstr_take :: "wrapper \<Rightarrow> address option \<Rightarrow> string_heap \<Rightarrow> string_heap" where
  "gstr_take w p h = h\<lparr>wrappers := (wrappers h)(w \<mapsto> p)\<rparr>"

definition gstr_move :: "wrapper \<Rightarrow> wrapper \<Rightarrow> string_heap \<Rightarrow> string_heap option" where
  "gstr_move w src h =
     do { p \<leftarrow> wrappers h src; Some (h\<lparr>wrappers := (wrappers h)(w \<mapsto> p, src \<mapsto> None)\<rparr>) }"

text \<open>The move assignment does not free the string that the target had.\<close>
definition gstr_assign :: "wrapper \<Rightarrow> wrapper \<Rightarrow> string_heap \<Rightarrow> string_heap option" where
  "gstr_assign w src h =
     (if w \<noteq> src
      then do { p \<leftarrow> wrappers h src; Some (h\<lparr>wrappers := (wrappers h)(w \<mapsto> p, src \<mapsto> None)\<rparr>) }
      else Some h)"

text \<open>The destructor; \<open>g_free()\<close> of the null pointer does nothing.\<close>
definition gstr_destroy :: "wrapper \<Rightarrow> string_heap \<Rightarrow> string_heap option" where
  "gstr_destroy w h =
     do { p \<leftarrow> wrappers h w;
          let h1 = h\<lparr>wrappers := (wrappers h)(w := None)\<rparr>;
          case p of
            None \<Rightarrow> Some h1
          | Some a \<Rightarrow> do { _ \<leftarrow> strings h a; Some (h1\<lparr>strings := (strings h)(a := None)\<rparr>) } }"

definition gstr_get :: "wrapper \<Rightarrow> string_heap \<Rightarrow> string option option" where
  "gstr_get w h =
     do { p \<leftarrow> wrappers h w;
          case p of None \<Rightarrow> Some None | Some a \<Rightarrow> map_option Some (strings h a) }"

definition gstr_is_null :: "wrapper \<Rightarrow> string_heap \<Rightarrow> bool option" where
  "gstr_is_null w h = map_option (\<lambda>p. p = None) (wrappers h w)"

definition gstr_empty :: "wrapper \<Rightarrow> string_heap \<Rightarrow> bool option" where
  "gstr_empty w h = map_option (\<lambda>s. s = None \<or> s = Some []) (gstr_get w h)"

definition gstr_size :: "wrapper \<Rightarrow> string_heap \<Rightarrow> nat option" where
  "gstr_size w h =
     do { e \<leftarrow> gstr_empty w h; s \<leftarrow> gstr_get w h;
          Some (if e then 0 else case s of None \<Rightarrow> 0 | Some cs \<Rightarrow> length cs) }"

section \<open>Programs that use wrappers\<close>

text \<open>
  What a program does with wrappers: a new string is allocated and given to a new wrapper, a
  wrapper is made empty, moved to a new one, assigned, or destroyed.
\<close>
datatype wrapper_op =
    OpNew wrapper address string | OpDefault wrapper | OpMove wrapper wrapper
  | OpAssign wrapper wrapper | OpDestroy wrapper

fun wrapper_apply :: "wrapper_op \<Rightarrow> string_heap \<Rightarrow> string_heap option" where
  "wrapper_apply (OpNew w a s) h = Some (gstr_take w (Some a) (h\<lparr>strings := (strings h)(a \<mapsto> s)\<rparr>))"
| "wrapper_apply (OpDefault w) h = Some (gstr_default w h)"
| "wrapper_apply (OpMove w src) h = gstr_move w src h"
| "wrapper_apply (OpAssign w src) h = gstr_assign w src h"
| "wrapper_apply (OpDestroy w) h = gstr_destroy w h"

text \<open>New wrappers are new objects, the others exist, and strings are allocated at unused addresses.\<close>
fun wrapper_op_ok :: "wrapper_op \<Rightarrow> string_heap \<Rightarrow> bool" where
  "wrapper_op_ok (OpNew w a s) h \<longleftrightarrow> wrappers h w = None \<and> strings h a = None"
| "wrapper_op_ok (OpDefault w) h \<longleftrightarrow> wrappers h w = None"
| "wrapper_op_ok (OpMove w src) h \<longleftrightarrow> wrappers h w = None \<and> wrappers h src \<noteq> None"
| "wrapper_op_ok (OpAssign w src) h \<longleftrightarrow> wrappers h w \<noteq> None \<and> wrappers h src \<noteq> None"
| "wrapper_op_ok (OpDestroy w) h \<longleftrightarrow> wrappers h w \<noteq> None"

inductive wrapper_step :: "string_heap \<Rightarrow> wrapper_op \<Rightarrow> string_heap \<Rightarrow> bool" where
  "wrapper_op_ok l h \<Longrightarrow> wrapper_apply l h = Some h' \<Longrightarrow> wrapper_step h l h'"

inductive_simps wrapper_step_iff: "wrapper_step h l h'"

text \<open>Each string has one owner at most, and what a wrapper owns is allocated.\<close>
definition ownership :: "string_heap \<Rightarrow> bool" where
  "ownership h \<longleftrightarrow>
     (\<forall>w a. wrappers h w = Some (Some a) \<longrightarrow> strings h a \<noteq> None) \<and>
     (\<forall>w w' a. wrappers h w = Some (Some a) \<longrightarrow> wrappers h w' = Some (Some a) \<longrightarrow> w = w')"

lemmas gstr_defs = gstr_default_def gstr_take_def gstr_move_def gstr_assign_def gstr_destroy_def

lemma own_move:
  "ownership h \<Longrightarrow> wrappers h src = Some p \<Longrightarrow>
     ownership (h\<lparr>wrappers := (wrappers h)(w \<mapsto> p, src \<mapsto> None)\<rparr>)"
  unfolding ownership_def by (auto split: if_splits)

lemma own_null: "ownership h \<Longrightarrow> ownership (h\<lparr>wrappers := (wrappers h)(w := None)\<rparr>)"
  "ownership h \<Longrightarrow> ownership (h\<lparr>wrappers := (wrappers h)(w \<mapsto> None)\<rparr>)"
  unfolding ownership_def by (auto split: if_splits)

lemma own_free: "ownership h \<Longrightarrow> wrappers h w = Some (Some a) \<Longrightarrow>
    ownership (h\<lparr>wrappers := (wrappers h)(w := None), strings := (strings h)(a := None)\<rparr>)"
  unfolding ownership_def by (auto split: if_splits)

lemma own_new: "ownership h \<Longrightarrow> strings h a = None \<Longrightarrow>
    ownership (h\<lparr>strings := (strings h)(a \<mapsto> s), wrappers := (wrappers h)(w \<mapsto> Some a)\<rparr>)"
  unfolding ownership_def by (auto split: if_splits; metis option.distinct(1))

lemma ownership_step: "ownership h \<Longrightarrow> wrapper_step h l h' \<Longrightarrow> ownership h'"
  unfolding wrapper_step_iff
  by (cases l)
    (auto simp: gstr_defs Let_def bind_eq_Some_conv own_null own_free own_new own_move
      split: option.splits if_splits)

definition heap_initial :: "string_heap \<Rightarrow> bool" where
  "heap_initial h \<longleftrightarrow> h = string_heap_init"

interpretation wrapper_machine: machine heap_initial wrapper_step ownership
proof
  show "ownership h" if "heap_initial h" for h
    using that by (simp add: heap_initial_def string_heap_init_def ownership_def)
qed (rule ownership_step)

text \<open>C38. Strings in \<open>GLibString\<close> objects are never freed twice and never read after they were freed:
  whatever wrappers a program makes, moves, assigns and destroys, the next of these operations on
  living wrappers is defined, and a living wrapper can be read.\<close>
theorem wrapped_strings_safe:
  assumes "reachable heap_initial wrapper_step h" "wrapper_op_ok l h"
  shows "wrapper_apply l h \<noteq> None \<and> (\<forall>w. wrappers h w \<noteq> None \<longrightarrow> gstr_get w h \<noteq> None \<and> gstr_size w h \<noteq> None)"
proof -
  have own: "ownership h" by (rule wrapper_machine.reachable_inv [OF assms(1)])
  then have get: "gstr_get w h \<noteq> None" if "wrappers h w \<noteq> None" for w
    using that by (auto simp: gstr_get_def ownership_def split: option.splits)
  moreover have "gstr_size w h \<noteq> None" if "wrappers h w \<noteq> None" for w
    using get [OF that] by (auto simp: gstr_size_def gstr_empty_def)
  moreover have "wrapper_apply l h \<noteq> None"
  proof (cases l)
    case (OpDestroy w)
    then obtain p where p: "wrappers h w = Some p" using assms(2) by auto
    moreover have "\<exists>s. strings h a = Some s" if "p = Some a" for a
      using own p that by (simp add: ownership_def)
    ultimately show ?thesis
      using OpDestroy by (cases p) (auto simp: gstr_destroy_def Let_def)
  qed (use assms(2) in \<open>auto simp: gstr_defs\<close>)
  ultimately show ?thesis by blast
qed

lemma sample_heap_reachable:
  "reachable heap_initial wrapper_step \<lparr>strings = [7 \<mapsto> ''abc''], wrappers = [0 \<mapsto> Some 7]\<rparr>"
proof (rule reach_step [where l = "OpNew 0 7 ''abc''"])
  show "reachable heap_initial wrapper_step string_heap_init"
    by (rule reach_init) (simp add: heap_initial_def)
qed (auto simp: wrapper_step_iff string_heap_init_def gstr_take_def)

lemma wrapped_strings_safe_witness:
  "gstr_size 0 \<lparr>strings = [7 \<mapsto> ''abc''], wrappers = [0 \<mapsto> Some 7]\<rparr> \<noteq> None"
  using wrapped_strings_safe [OF sample_heap_reachable, of "OpDestroy 0"] by simp

text \<open>Assigning to a wrapper that owns a string leaks that string: it stays allocated with no owner.\<close>
lemma assignment_leaks:
  "gstr_assign 0 1 \<lparr>strings = [7 \<mapsto> ''abc'', 8 \<mapsto> ''def''], wrappers = [0 \<mapsto> Some 7, 1 \<mapsto> Some 8]\<rparr>
     = Some \<lparr>strings = [7 \<mapsto> ''abc'', 8 \<mapsto> ''def''], wrappers = [0 \<mapsto> Some 8, 1 \<mapsto> None]\<rparr>"
  by (simp add: gstr_assign_def fun_eq_iff)

end
