(* ===== verification/Stream_Data.thy ===== *)
theory Stream_Data
  imports Prelude
begin

text \<open>
  Meta data of a stream: tag lists, cover art and what has been sent of it
  (\<^verbatim>\<open>src/streamdata.hh\<close>), the filtering and conversion of tags and the handling of
  image tags (\<^verbatim>\<open>src/streamer.cc\<close>), and the splitting of titles for the log
  (\<^verbatim>\<open>src/stream_logging.cc\<close>).

  A \<open>GstTagList\<close> is an association list from tag names to the values stored for them; its library
  functions for merging and adding are parameters (\<open>tag_env\<close>).  A \<open>GVariant\<close> of type
  \<^verbatim>\<open>a(ss)\<close> is a list of pairs; a stream key is opaque.
\<close>

section \<open>Values\<close>

text \<open>A mapped memory region: its address and size.\<close>
record gst_sample =
  s_buffer :: "(nat \<times> (nat \<times> nat) option) option"
  s_info :: "int option"
  s_caps :: "string list option"

text \<open>\<open>s_buffer\<close>: no buffer, or the number of its memory regions and the result of mapping the
  first.  \<open>s_info\<close>: the field \<^verbatim>\<open>image-type\<close> of the sample's info structure, if it has
  both.  \<open>s_caps\<close>: the names of the structures in its caps.\<close>

datatype gvalue = VString string | VBool bool | VUint nat | VUint64 nat | VSample gst_sample | VOther

type_synonym tag_list = "(string \<times> gvalue list) list"
type_synonym string_pairs = "(string \<times> string) list"
type_synonym stream_key = string

record tag_env =
  tag_merge_prepend :: "tag_list \<Rightarrow> tag_list \<Rightarrow> tag_list"
  tag_add_keep :: "tag_list \<Rightarrow> string \<Rightarrow> string \<Rightarrow> tag_list"

section \<open>Data sent for a stream\<close>

record image_sent_data =
  img_data :: "nat option"
  img_size :: nat
  img_priority :: "8 word"

definition image_sent_init :: image_sent_data where
  "image_sent_init = \<lparr>img_data = None, img_size = 0, img_priority = 0\<rparr>"

record stream_data =
  sd_tag_list :: "tag_list option"
  preset_tag_list :: "tag_list option"
  cover_art_url :: string
  extra_tag_list :: string_pairs
  big_image :: image_sent_data
  preview_image :: image_sent_data
  stream_key :: stream_key

definition stream_data_init ::
  "tag_list option \<Rightarrow> string \<Rightarrow> string_pairs \<Rightarrow> stream_key \<Rightarrow> stream_data" where
  "stream_data_init preset cover extra key =
     \<lparr>sd_tag_list = None, preset_tag_list = preset, cover_art_url = cover, extra_tag_list = extra,
      big_image = image_sent_init, preview_image = image_sent_init, stream_key = key\<rparr>"

definition clear_meta_data :: "stream_data \<Rightarrow> stream_data" where
  "clear_meta_data sd =
     sd\<lparr>sd_tag_list := (case preset_tag_list sd of Some tgs \<Rightarrow> Some tgs | None \<Rightarrow> Some []),
        big_image := image_sent_init, preview_image := image_sent_init\<rparr>"

definition merge_tag_list :: "tag_env \<Rightarrow> tag_list option \<Rightarrow> stream_data \<Rightarrow> stream_data" where
  "merge_tag_list T tags sd =
     (case tags of
        None \<Rightarrow> sd
      | Some ts \<Rightarrow>
          (case sd_tag_list sd of
             Some tgs \<Rightarrow> sd\<lparr>sd_tag_list := Some (tag_merge_prepend T tgs ts)\<rparr>
           | None \<Rightarrow> sd\<lparr>sd_tag_list := Some ts\<rparr>))"

definition get_image_sent_data :: "bool \<Rightarrow> stream_data \<Rightarrow> image_sent_data" where
  "get_image_sent_data is_big sd = (if is_big then big_image sd else preview_image sd)"

definition put_image_sent_data :: "bool \<Rightarrow> image_sent_data \<Rightarrow> stream_data \<Rightarrow> stream_data" where
  "put_image_sent_data is_big d sd =
     (if is_big then sd\<lparr>big_image := d\<rparr> else sd\<lparr>preview_image := d\<rparr>)"

section \<open>Tags as strings\<close>

text \<open>The values of the macros \<open>GST_TAG_IMAGE\<close>, \<open>GST_TAG_PREVIEW_IMAGE\<close> and so on.\<close>
definition filtered_out :: "string list" where
  "filtered_out =
     [''image'', ''preview-image'', ''comment'', ''extended-comment'', ''composer'', ''date'',
      ''datetime'', ''copyright'', ''copyright-uri'', ''encoder'', ''encoder-version'',
      ''encoded-by'', ''isrc'', ''organization'', ''location'', ''homepage'', ''contact'',
      ''license'', ''license-uri'', ''serial'', ''keywords'', ''lyrics'', ''attachment'',
      ''beats-per-minute'', ''application-data'', ''replaygain-track-gain'',
      ''replaygain-track-peak'', ''replaygain-album-gain'', ''replaygain-album-peak'',
      ''replaygain-reference-level'', ''private-id3v2-frame'', ''private-qt-tag'']"

text \<open>Decimal digits, as an output stream writes them.\<close>
fun decimal :: "nat \<Rightarrow> string" where
  "decimal n = (if n < 10 then [char_of (48 + n)] else decimal (n div 10) @ [char_of (48 + n mod 10)])"

declare decimal.simps [simp del]

text \<open>What the callback adds to the builder for one tag.\<close>
definition add_tuple_to_tags_variant_builder :: "string \<times> gvalue list \<Rightarrow> string_pairs" where
  "add_tuple_to_tags_variant_builder entry =
     (case entry of (tag, values) \<Rightarrow>
        if tag \<in> set filtered_out then []
        else case values of
               [] \<Rightarrow> []
             | VString s # _ \<Rightarrow> [(tag, s)]
             | VBool b # _ \<Rightarrow> [(tag, if b then ''true'' else ''false'')]
             | VUint n # _ \<Rightarrow> [(tag, decimal n)]
             | VUint64 n # _ \<Rightarrow> [(tag, decimal n)]
             | VSample _ # _ \<Rightarrow> []
             | VOther # _ \<Rightarrow> [])"

definition tag_list_to_g_variant :: "tag_list option \<Rightarrow> string_pairs \<Rightarrow> string_pairs" where
  "tag_list_to_g_variant list extra_tags =
     (case list of None \<Rightarrow> [] | Some tgs \<Rightarrow> concat (map add_tuple_to_tags_variant_builder tgs)) @ extra_tags"

text \<open>The body of the loop over the \<^verbatim>\<open>(ss)\<close> pairs: cover art URI, extra tags, tag
  list.  \<open>emplace()\<close> keeps an entry that is there already.\<close>
definition variant_tag ::
  "tag_env \<Rightarrow> string \<Rightarrow> string \<Rightarrow> string \<times> string_pairs \<times> tag_list \<Rightarrow> string \<times> string_pairs \<times> tag_list" where
  "variant_tag T tag v acc =
     (case acc of (cover, extra, list) \<Rightarrow>
        if tag = ''cover_art'' then (v, extra, list)
        else if tag = ''x-drcpd-title''
        then (cover, if tag \<in> fst ` set extra then extra else extra @ [(tag, v)], list)
        else if tag \<noteq> ''parent_id'' then (cover, extra, tag_add_keep T list tag v)
        else (cover, extra, list))"

fun variant_tags_loop ::
  "tag_env \<Rightarrow> string_pairs \<Rightarrow> string \<times> string_pairs \<times> tag_list \<Rightarrow> string \<times> string_pairs \<times> tag_list" where
  "variant_tags_loop T [] acc = acc"
| "variant_tags_loop T ((tag, v) # rest) acc = variant_tags_loop T rest (variant_tag T tag v acc)"

definition g_variant_to_tag_list :: "tag_env \<Rightarrow> string_pairs \<Rightarrow> tag_list option \<times> string \<times> string_pairs" where
  "g_variant_to_tag_list T md =
     (if md = [] then (None, [], [])
      else case variant_tags_loop T md ([], [], []) of
             (cover, extra, list) \<Rightarrow> (Some list, cover, extra))"

section \<open>Images\<close>

datatype image_tag_type = IMAGE_TAG_TYPE_NONE | IMAGE_TAG_TYPE_RAW_DATA | IMAGE_TAG_TYPE_URI

fun scan_image_caps :: "string list \<Rightarrow> image_tag_type" where
  "scan_image_caps [] = IMAGE_TAG_TYPE_NONE"
| "scan_image_caps (name # rest) =
     (if take 6 name = ''image/'' then IMAGE_TAG_TYPE_RAW_DATA
      else if name = ''text/uri-list'' then IMAGE_TAG_TYPE_URI
      else scan_image_caps rest)"

definition get_image_tag_type :: "string list option \<Rightarrow> image_tag_type" where
  "get_image_tag_type caps = (case caps of None \<Rightarrow> IMAGE_TAG_TYPE_NONE | Some names \<Rightarrow> scan_image_caps names)"

definition prio_raise_table :: "nat list" where
  "prio_raise_table = [10, 18, 14, 13, 17, 16, 15, 9, 8, 4, 3, 1, 5, 6, 7, 0, 11, 12, 2]"

text \<open>The value of \<open>GST_TAG_IMAGE_TYPE_UNDEFINED\<close> is 0.\<close>
definition image_type_of :: "gst_sample \<Rightarrow> int" where
  "image_type_of sample = (case s_info sample of None \<Rightarrow> 0 | Some v \<Rightarrow> v)"

text \<open>The new meta data and, if the image is sent to the cover art cache, its key, priority, address
  and size.\<close>
definition send_image_data_to_cover_art_cache ::
  "gst_sample \<Rightarrow> bool \<Rightarrow> nat \<Rightarrow> stream_data \<Rightarrow> (stream_key \<times> 8 word \<times> nat \<times> nat) option \<times> stream_data"
where
  "send_image_data_to_cover_art_cache sample is_big base_priority sd =
     (case s_buffer sample of
        None \<Rightarrow> (None, sd)
      | Some (n_memory, mapping) \<Rightarrow>
          (let image_type = image_type_of sample
           in if image_type < 0 \<or> image_type \<ge> int (length prio_raise_table) then (None, sd)
              else let prio = word_of_nat (base_priority + prio_raise_table ! nat image_type) :: 8 word;
                       sent = get_image_sent_data is_big sd
                   in if img_priority sent > prio then (None, sd)
                      else if n_memory \<noteq> 1 then (None, sd)
                      else case mapping of
                             None \<Rightarrow> (None, sd)
                           | Some (address, sz) \<Rightarrow>
                               if img_data sent = Some address \<and> img_size sent = sz then (None, sd)
                               else (Some (stream_key sd, prio, address, sz),
                                     put_image_sent_data is_big
                                       \<lparr>img_data = Some address, img_size = sz, img_priority = prio\<rparr> sd)))"

text \<open>The tag and priority table of \<open>update_picture_for_item()\<close> and its loop.\<close>
definition image_tags :: "(string \<times> nat \<times> bool) list" where
  "image_tags = [(''image'', 150, True), (''preview-image'', 120, False)]"

definition get_sample :: "tag_list option \<Rightarrow> string \<Rightarrow> gst_sample option" where
  "get_sample tags tag =
     (case tags of
        None \<Rightarrow> None
      | Some tgs \<Rightarrow>
          (case map_of tgs tag of
             Some (VSample s # _) \<Rightarrow> Some s
           | _ \<Rightarrow> None))"

fun update_picture_loop ::
  "(string \<times> nat \<times> bool) list \<Rightarrow> tag_list option \<Rightarrow> stream_data
     \<Rightarrow> (stream_key \<times> 8 word \<times> nat \<times> nat) list \<times> stream_data" where
  "update_picture_loop [] tags sd = ([], sd)"
| "update_picture_loop ((tag, prio, is_big) # rest) tags sd =
     (case get_sample tags tag of
        None \<Rightarrow> update_picture_loop rest tags sd
      | Some sample \<Rightarrow>
          (case get_image_tag_type (s_caps sample) of
             IMAGE_TAG_TYPE_RAW_DATA \<Rightarrow>
               (case send_image_data_to_cover_art_cache sample is_big prio sd of (sent, sd1) \<Rightarrow>
                case update_picture_loop rest tags sd1 of (sents, sd2) \<Rightarrow>
                  ((case sent of None \<Rightarrow> sents | Some s \<Rightarrow> s # sents), sd2))
           | IMAGE_TAG_TYPE_NONE \<Rightarrow> update_picture_loop rest tags sd
           | IMAGE_TAG_TYPE_URI \<Rightarrow> update_picture_loop rest tags sd))"

definition update_picture_for_item ::
  "tag_list option \<Rightarrow> stream_data \<Rightarrow> (stream_key \<times> 8 word \<times> nat \<times> nat) list \<times> stream_data" where
  "update_picture_for_item tags sd = update_picture_loop image_tags tags sd"

section \<open>Titles in the log\<close>

text \<open>
  \<open>tokenize_meta_data()\<close>: state of the loop are the output, the offsets of artist and album, the
  counter \<open>idx\<close> and the flag; \<open>i\<close> is the index of the next character.
\<close>
definition tokenize_step ::
  "nat \<Rightarrow> char \<Rightarrow> string \<times> nat \<times> nat \<times> nat \<times> bool \<Rightarrow> string \<times> nat \<times> nat \<times> nat \<times> bool" where
  "tokenize_step i ch acc =
     (case acc of (dest, artist, album, idx, single) \<Rightarrow>
        if ch = CHR 0x1D
        then (if idx < 2
              then (if idx = 0 then (dest @ [CHR 0x00], i + 1, album, idx + 1, False)
                    else (dest @ [CHR 0x00], artist, i + 1, idx + 1, False))
              else (dest @ [CHR 0x00], artist, album, idx, False))
        else (dest @ [ch], artist, album, idx, single))"

fun tokenize_loop ::
  "nat \<Rightarrow> string \<Rightarrow> string \<times> nat \<times> nat \<times> nat \<times> bool \<Rightarrow> string \<times> nat \<times> nat \<times> nat \<times> bool" where
  "tokenize_loop i [] acc = acc"
| "tokenize_loop i (ch # src) acc = tokenize_loop (Suc i) src (tokenize_step i ch acc)"

definition tokenize_meta_data :: "string \<Rightarrow> string \<times> nat \<times> nat \<times> bool" where
  "tokenize_meta_data src =
     (case tokenize_loop 0 src ([], length src, length src, 0, True) of
        (dest, artist, album, idx, single) \<Rightarrow> (dest @ [CHR 0x00], artist, album, single))"

section \<open>Lemmas\<close>

lemma tokenize_loop_append:
  "tokenize_loop i (xs @ ys) acc = tokenize_loop (i + length xs) ys (tokenize_loop i xs acc)"
  by (induction xs arbitrary: i acc) simp_all

lemma tokenize_loop_plain:
  "CHR 0x1D \<notin> set xs \<Longrightarrow>
     tokenize_loop i xs (dest, artist, album, idx, single) = (dest @ xs, artist, album, idx, single)"
  by (induction xs arbitrary: i dest) (auto simp: tokenize_step_def)

lemma tokenize_loop_sep: "tokenize_loop i (CHR 0x1D # xs) acc =
    tokenize_loop (Suc i) xs (tokenize_step i (CHR 0x1D) acc)"
  by simp

text \<open>The C string that starts at an offset of a string with embedded NULs.\<close>
definition c_str_at :: "string \<Rightarrow> nat \<Rightarrow> string" where
  "c_str_at s n = takeWhile (\<lambda>ch. ch \<noteq> CHR 0x00) (drop n s)"

lemma c_str_at_prefix:
  "CHR 0x00 \<notin> set t \<Longrightarrow> n = length pre \<Longrightarrow> c_str_at (pre @ t @ CHR 0x00 # rest) n = t"
  by (simp add: c_str_at_def takeWhile_append2 takeWhile_tail) (metis takeWhile_append2 takeWhile.simps(2) append_Nil2)

lemma add_tuple_tags:
  "x \<in> set (add_tuple_to_tags_variant_builder (tag, vs)) \<Longrightarrow> fst x = tag \<and> tag \<notin> set filtered_out"
  by (auto simp: add_tuple_to_tags_variant_builder_def split: list.splits gvalue.splits if_splits)

lemma get_put_image [simp]:
  "get_image_sent_data b (put_image_sent_data b' d sd) =
     (if b = b' then d else get_image_sent_data b sd)"
  by (simp add: get_image_sent_data_def put_image_sent_data_def)

lemma send_image_priority:
  "img_priority (get_image_sent_data b sd)
     \<le> img_priority (get_image_sent_data b (snd (send_image_data_to_cover_art_cache s is_big base sd)))"
  by (auto simp: send_image_data_to_cover_art_cache_def Let_def split: option.split prod.split)

lemma update_picture_priority:
  "img_priority (get_image_sent_data b sd)
     \<le> img_priority (get_image_sent_data b (snd (update_picture_loop its tags sd)))"
proof (induction its arbitrary: sd)
  case (Cons x its)
  obtain tag prio is_big where x: "x = (tag, prio, is_big)"
    by (cases x)
  note send = send_image_priority [of b sd _ is_big prio]
  show ?case
    using Cons.IH order_trans [OF send Cons.IH]
    by (auto simp: x split: option.split image_tag_type.split prod.split)
       (metis fst_conv order_trans send send_image_priority snd_conv Cons.IH)+
qed simp

section \<open>Properties\<close>

text \<open>Titles of the form artist, album, title-like tokens separated by the group separator are
  cut at the separators: the offsets computed by \<open>tokenize_meta_data()\<close> lead to exactly the second
  and third token, and the text itself reads as the first one.\<close>
lemma tokenize_finds_tokens:
  assumes "\<forall>t \<in> {t0, t1, t2}. CHR 0x1D \<notin> set t \<and> CHR 0x00 \<notin> set t"
  shows "\<exists>dest artist album.
    tokenize_meta_data (t0 @ [CHR 0x1D] @ t1 @ [CHR 0x1D] @ t2) = (dest, artist, album, False) \<and>
    c_str_at dest 0 = t0 \<and> c_str_at dest artist = t1 \<and> c_str_at dest album = t2 \<and>
    length dest = length t0 + length t1 + length t2 + 3"
proof -
  let ?dest = "t0 @ [CHR 0x00] @ t1 @ [CHR 0x00] @ t2 @ [CHR 0x00]"
  have "tokenize_meta_data (t0 @ [CHR 0x1D] @ t1 @ [CHR 0x1D] @ t2) =
      (?dest, length t0 + 1, length t0 + length t1 + 2, False)"
    using assms
    by (simp add: tokenize_meta_data_def tokenize_loop_append tokenize_loop_plain tokenize_step_def)
  moreover have "c_str_at ?dest 0 = t0" "c_str_at ?dest (length t0 + 1) = t1"
    "c_str_at ?dest (length t0 + length t1 + 2) = t2"
    using assms c_str_at_prefix [of t0 0 "[]" "t1 @ [CHR 0x00] @ t2 @ [CHR 0x00]"]
      c_str_at_prefix [of t1 "length t0 + 1" "t0 @ [CHR 0x00]" "t2 @ [CHR 0x00]"]
      c_str_at_prefix [of t2 "length t0 + length t1 + 2" "t0 @ [CHR 0x00] @ t1 @ [CHR 0x00]" "[]"]
    by simp_all
  ultimately show ?thesis by auto
qed

lemma tokenize_finds_tokens_witness:
  "\<exists>dest artist album.
    tokenize_meta_data (''ab'' @ [CHR 0x1D] @ ''c'' @ [CHR 0x1D] @ ''d'') = (dest, artist, album, False) \<and>
    c_str_at dest artist = ''c''"
  using tokenize_finds_tokens [of "''ab''" "''c''" "''d''"] by (simp (no_asm_use)) blast

text \<open>No filtered tag gets into the meta data sent over D-Bus, except as one of the item's extra
  tags; every unfiltered string tag does get in.\<close>
lemma sent_tags_filtered:
  "(\<forall>x \<in> set (tag_list_to_g_variant tags extra). x \<in> set extra \<or> fst x \<notin> set filtered_out) \<and>
   (\<forall>tgs tag s vs. tags = Some tgs \<and> (tag, VString s # vs) \<in> set tgs \<and> tag \<notin> set filtered_out \<longrightarrow>
      (tag, s) \<in> set (tag_list_to_g_variant tags extra)) \<and>
   set extra \<subseteq> set (tag_list_to_g_variant tags extra)"
proof (intro conjI)
  show "\<forall>x \<in> set (tag_list_to_g_variant tags extra). x \<in> set extra \<or> fst x \<notin> set filtered_out"
    by (auto simp: tag_list_to_g_variant_def dest: add_tuple_tags split: option.splits)
  show "\<forall>tgs tag s vs. tags = Some tgs \<and> (tag, VString s # vs) \<in> set tgs \<and> tag \<notin> set filtered_out \<longrightarrow>
      (tag, s) \<in> set (tag_list_to_g_variant tags extra)"
    by (force simp: tag_list_to_g_variant_def add_tuple_to_tags_variant_builder_def)
  show "set extra \<subseteq> set (tag_list_to_g_variant tags extra)"
    by (simp add: tag_list_to_g_variant_def)
qed

lemma sent_tags_filtered_witness:
  "(''title'', ''x'') \<in> set (tag_list_to_g_variant
      (Some [(''image'', [VOther]), (''title'', [VString ''x''])]) [])"
  using sent_tags_filtered [of "Some [(''image'', [VOther]), (''title'', [VString ''x''])]" "[]"]
  by (simp add: filtered_out_def)

text \<open>Cover art only gets better: handling the images of a tag message never lowers the recorded
  priority of the big or the preview image.\<close>
lemma image_priority_monotonic:
  "img_priority (get_image_sent_data is_big sd)
     \<le> img_priority (get_image_sent_data is_big (snd (update_picture_for_item tags sd)))"
  unfolding update_picture_for_item_def by (rule update_picture_priority)

end
