(* ===== verification/Play_Item.thy ===== *)
theory Play_Item
  imports Url_Collection Stopped_Reasons Stream_Data Airable_Call
begin

text \<open>
  Items of the play queue (\<^verbatim>\<open>src/playitem.hh\<close>, \<^verbatim>\<open>src/playitem.cc\<close>).

  The resolver of an item is a reference to a call object of theory \<open>Airable_Call\<close>.  Operations
  that use \<open>get_selected()\<close> are \<open>None\<close> for an item without URLs, which is undefined behaviour of
  the code; the current time is a parameter.  The part of \<open>resolver_begin()\<close> that makes the call is
  in theory \<open>Streamer_Core\<close>, because the call may notify the streamer before it returns.
\<close>

section \<open>State\<close>

datatype item_state =
    IN_QUEUE | ABOUT_TO_ACTIVATE | ACTIVE_HALF_PLAYING | ACTIVE_NOW_PLAYING
  | ABOUT_TO_PHASE_OUT | ABOUT_TO_BE_SKIPPED

datatype fail_state = NOT_FAILED | FAILURE_DETECTED

datatype url_state =
    KNOWN_DIRECT_URL | KNOWN_AIRABLE_LINK | RESOLVING_LINK | KNOWN_RESOLVED_URL | URL_BROKEN

datatype pipeline_start_required = NOT_REQUIRED | START_NOW | WHEN_READY

datatype resolver_result = RESOLVED | HAVE_MORE_URLS | RESOLVER_FAILED

record item =
  item_state :: item_state
  item_fail_state :: fail_state
  prefail_reason :: reason
  item_id :: stream_id
  item_urls :: stream_urls
  resolver :: "call_ref option"
  start_required_after_resolve :: bool
  enable_realtime_processing :: bool
  item_stream_type :: stream_type
  start_time :: time_ns
  end_time :: time_ns
  item_stream_data :: stream_data

definition new_item ::
  "('w, 'z) usb_env_scheme \<Rightarrow> stream_id \<Rightarrow> stream_key \<Rightarrow> stream_urls \<Rightarrow> bool \<Rightarrow> string
     \<Rightarrow> string_pairs \<Rightarrow> tag_list option \<Rightarrow> time_ns \<Rightarrow> time_ns \<Rightarrow> item" where
  "new_item E sid key su realtime cover extra preset t0 t1 =
     \<lparr>item_state = IN_QUEUE, item_fail_state = NOT_FAILED, prefail_reason = REASON_UNKNOWN,
      item_id = sid, item_urls = su, resolver = None, start_required_after_resolve = False,
      enable_realtime_processing = realtime,
      item_stream_type = (case urls su of [] \<Rightarrow> ST_EMPTY | u # _ \<Rightarrow> determine_stream_type_from_url E u),
      start_time = t0, end_time = t1,
      item_stream_data = stream_data_init preset cover extra key\<rparr>"

section \<open>Operations\<close>

definition set_item_state :: "item_state \<Rightarrow> item \<Rightarrow> item" where
  "set_item_state st it = it\<lparr>item_state := st\<rparr>"

definition disable_realtime :: "item \<Rightarrow> item" where
  "disable_realtime it = it\<lparr>enable_realtime_processing := False\<rparr>"

text \<open>\<open>None\<close> is the failed assertion that a reason is given.\<close>
definition prefail :: "reason \<Rightarrow> item \<Rightarrow> (bool \<times> item) option" where
  "prefail r it =
     (if r = REASON_UNKNOWN then None
      else if prefail_reason it \<noteq> REASON_UNKNOWN then Some (False, it)
      else Some (True, it\<lparr>prefail_reason := r\<rparr>))"

definition has_prefailed :: "item \<Rightarrow> bool" where
  "has_prefailed it \<longleftrightarrow> prefail_reason it \<noteq> REASON_UNKNOWN"

definition item_fail :: "item \<Rightarrow> bool \<times> item" where
  "item_fail it =
     (case item_fail_state it of
        NOT_FAILED \<Rightarrow> (True, it\<lparr>item_fail_state := FAILURE_DETECTED\<rparr>)
      | FAILURE_DETECTED \<Rightarrow> (False, it))"

definition item_empty :: "item \<Rightarrow> bool" where
  "item_empty it \<longleftrightarrow> urls (item_urls it) = []"

definition get_selected_url_state :: "item \<Rightarrow> url_state option" where
  "get_selected_url_state it =
     (if urls (item_urls it) = [] then Some URL_BROKEN
      else if resolver it \<noteq> None then Some RESOLVING_LINK
      else do { u \<leftarrow> get_selected (item_urls it);
                Some (case get_stream_uri u of (uri, is_link) \<Rightarrow>
                  if uri = [] then (if is_link then KNOWN_AIRABLE_LINK else URL_BROKEN)
                  else (if is_link then KNOWN_RESOLVED_URL else KNOWN_DIRECT_URL)) })"

definition get_url_for_playing :: "item \<Rightarrow> string option" where
  "get_url_for_playing it = map_option (\<lambda>u. fst (get_stream_uri u)) (get_selected (item_urls it))"

definition get_url_for_reporting :: "item \<Rightarrow> string option" where
  "get_url_for_reporting it = map_option original_url_string (get_selected (item_urls it))"

definition is_network_stream :: "item \<Rightarrow> bool" where
  "is_network_stream it \<longleftrightarrow> item_stream_type it \<noteq> LOCAL_FILE"

definition select_next_url :: "time_ns \<Rightarrow> item \<Rightarrow> (bool \<times> item) option" where
  "select_next_url now it =
     do { u \<leftarrow> get_selected (item_urls it);
          let (cleared, u') = clear_expired_uri now u;
          if cleared then Some (True, it\<lparr>item_urls := update_selected (\<lambda>_. u') (item_urls it)\<rparr>)
          else let (found, su) = select_next_index (item_urls it)
               in Some (found, it\<lparr>item_urls := su\<rparr>) }"

definition is_pipeline_start_required :: "item \<Rightarrow> bool \<times> item" where
  "is_pipeline_start_required it =
     (start_required_after_resolve it, it\<lparr>start_required_after_resolve := False\<rparr>)"

definition pipeline_start_required_when_ready :: "item \<Rightarrow> (pipeline_start_required \<times> item) option" where
  "pipeline_start_required_when_ready it =
     do { let it' = it\<lparr>start_required_after_resolve := True\<rparr>;
          st \<leftarrow> get_selected_url_state it';
          Some (case st of
                  KNOWN_DIRECT_URL \<Rightarrow> START_NOW
                | KNOWN_RESOLVED_URL \<Rightarrow> START_NOW
                | RESOLVING_LINK \<Rightarrow> WHEN_READY
                | KNOWN_AIRABLE_LINK \<Rightarrow> NOT_REQUIRED
                | URL_BROKEN \<Rightarrow> NOT_REQUIRED, it') }"

text \<open>\<open>resolver_finish(URLState)\<close>; its argument is not used.\<close>
definition resolver_finish_state :: "time_ns \<Rightarrow> url_state \<Rightarrow> item \<Rightarrow> (resolver_result \<times> item) option" where
  "resolver_finish_state now st it =
     do { u \<leftarrow> get_selected (item_urls it);
          let su = update_selected (\<lambda>_. set_resolved_uri [] 0 now u) (item_urls it);
          Some (if selected_url su + 1 < length (urls su) then HAVE_MORE_URLS else RESOLVER_FAILED,
                it\<lparr>item_urls := su, resolver := None\<rparr>) }"

text \<open>\<open>resolver_finish(uri, expected_valid)\<close>.\<close>
definition resolver_finish_uri ::
  "time_ns \<Rightarrow> string \<Rightarrow> int \<Rightarrow> item \<Rightarrow> (resolver_result \<times> item) option" where
  "resolver_finish_uri now uri expected_valid it =
     (if uri = [] then resolver_finish_state now URL_BROKEN it
      else do { u \<leftarrow> get_selected (item_urls it);
                Some (RESOLVED,
                  it\<lparr>item_urls := update_selected (\<lambda>_. set_resolved_uri uri expected_valid now u) (item_urls it),
                     resolver := None\<rparr>) })"

fun item_state_name :: "item_state \<Rightarrow> string" where
  "item_state_name IN_QUEUE = ''IN_QUEUE''"
| "item_state_name ABOUT_TO_ACTIVATE = ''ABOUT_TO_ACTIVATE''"
| "item_state_name ACTIVE_HALF_PLAYING = ''ACTIVE_HALF_PLAYING''"
| "item_state_name ACTIVE_NOW_PLAYING = ''ACTIVE_NOW_PLAYING''"
| "item_state_name ABOUT_TO_PHASE_OUT = ''ABOUT_TO_PHASE_OUT''"
| "item_state_name ABOUT_TO_BE_SKIPPED = ''ABOUT_TO_BE_SKIPPED''"

fun fail_state_name :: "fail_state \<Rightarrow> string" where
  "fail_state_name NOT_FAILED = ''NOT_FAILED''"
| "fail_state_name FAILURE_DETECTED = ''FAILURE_DETECTED''"

fun url_state_name :: "url_state \<Rightarrow> string" where
  "url_state_name KNOWN_DIRECT_URL = ''KNOWN_DIRECT_URL''"
| "url_state_name KNOWN_AIRABLE_LINK = ''KNOWN_AIRABLE_LINK''"
| "url_state_name RESOLVING_LINK = ''RESOLVING_LINK''"
| "url_state_name KNOWN_RESOLVED_URL = ''KNOWN_RESOLVED_URL''"
| "url_state_name URL_BROKEN = ''BROKEN''"

section \<open>Well-formed items\<close>

definition item_ok :: "item \<Rightarrow> bool" where
  "item_ok it \<longleftrightarrow> stream_urls_ok (item_urls it)"

text \<open>How many alternative URLs are left behind the selected one.\<close>
definition urls_left :: "item \<Rightarrow> nat" where
  "urls_left it = length (urls (item_urls it)) - selected_url (item_urls it)"

lemma item_ok_frame [simp]:
  "item_ok (it\<lparr>item_state := a\<rparr>) = item_ok it" "item_ok (it\<lparr>item_fail_state := b\<rparr>) = item_ok it"
  "item_ok (it\<lparr>prefail_reason := c\<rparr>) = item_ok it" "item_ok (it\<lparr>resolver := d\<rparr>) = item_ok it"
  "item_ok (it\<lparr>start_required_after_resolve := e\<rparr>) = item_ok it"
  "item_ok (it\<lparr>enable_realtime_processing := f\<rparr>) = item_ok it"
  "item_ok (it\<lparr>item_stream_data := g\<rparr>) = item_ok it"
  by (simp_all add: item_ok_def)

lemma item_ok_urls: "item_ok (it\<lparr>item_urls := su\<rparr>) = stream_urls_ok su"
  by (simp add: item_ok_def)

lemma item_ok_state [simp]:
  "item_ok (set_item_state st it) = item_ok it" "item_ok (disable_realtime it) = item_ok it"
  by (simp_all add: set_item_state_def disable_realtime_def)

lemma item_ok_fail [simp]: "item_ok (snd (item_fail it)) = item_ok it"
  by (simp add: item_fail_def split: fail_state.split)

lemma item_ok_select: "item_ok it \<Longrightarrow> post (\<lambda>(b, it'). item_ok it') (select_next_url now it)"
  by (auto simp: select_next_url_def Let_def item_ok_urls
      split: prod.splits intro!: postI dest!: stream_urls_ok_select_next)
     (auto simp: item_ok_def select_next_index_def stream_urls_ok_def split: if_splits)

lemma item_ok_finish_state: "item_ok it \<Longrightarrow> post (\<lambda>(r, it'). item_ok it') (resolver_finish_state now st it)"
  by (auto simp: resolver_finish_state_def Let_def item_ok_urls intro!: postI)
     (simp add: item_ok_def)

lemma item_ok_finish_uri: "item_ok it \<Longrightarrow> post (\<lambda>(r, it'). item_ok it') (resolver_finish_uri now uri v it)"
  by (auto simp: resolver_finish_uri_def item_ok_finish_state item_ok_urls intro!: postI
      dest: postD [OF item_ok_finish_state])
     (auto simp: item_ok_def)

lemma selected_defined: "item_ok it \<Longrightarrow> \<not> item_empty it \<Longrightarrow> \<exists>u. get_selected (item_urls it) = Some u"
  using get_selected_ok [of "item_urls it"] by (auto simp: item_ok_def item_empty_def)

lemma url_state_defined: "item_ok it \<Longrightarrow> get_selected_url_state it \<noteq> None"
  using selected_defined [of it] by (auto simp: get_selected_url_state_def item_empty_def split: prod.split)

lemma get_url_defined:
  "item_ok it \<Longrightarrow> \<not> item_empty it \<Longrightarrow>
     (\<exists>u. get_url_for_playing it = Some u) \<and> (\<exists>u. get_url_for_reporting it = Some u)"
  using selected_defined [of it] by (auto simp: get_url_for_playing_def get_url_for_reporting_def)

section \<open>Properties\<close>

text \<open>When the resolver gives up on a URL, the item forgets the resolver; it has more URLs exactly
  if there is one behind the selected one, and then \<open>select_next_url()\<close> moves on by one URL and does
  not try the failed one again.\<close>
lemma resolver_tries_alternatives:
  assumes "item_ok it" "\<not> item_empty it"
  shows "\<exists>r it1. resolver_finish_state now st it = Some (r, it1) \<and> resolver it1 = None \<and>
    (r = HAVE_MORE_URLS \<longleftrightarrow> 1 < urls_left it) \<and> (r = RESOLVER_FAILED \<longleftrightarrow> urls_left it = 1) \<and>
    (1 < urls_left it \<longrightarrow> is_airable_link (urls (item_urls it) ! selected_url (item_urls it)) \<longrightarrow>
       (\<exists>it2. select_next_url now' it1 = Some (True, it2) \<and>
          selected_url (item_urls it2) = selected_url (item_urls it) + 1 \<and>
          urls_left it2 = urls_left it - 1))"
proof -
  obtain u where u: "get_selected (item_urls it) = Some u"
    using selected_defined [OF assms] by blast
  have su: "selected_url (item_urls it) < length (urls (item_urls it))"
    using u by (simp add: get_selected_def split: if_splits)
  have "get_selected (update_selected (\<lambda>_. set_resolved_uri [] 0 now u) (item_urls it))
      = Some (set_resolved_uri [] 0 now u)"
    using u by (simp add: get_selected_update)
  moreover have "clear_expired_uri now' (set_resolved_uri [] 0 now u) = (False, set_resolved_uri [] 0 now u)"
    if "is_airable_link u"
    using that by (simp add: clear_expired_uri_def set_resolved_uri_def)
  moreover have "urls (item_urls it) ! selected_url (item_urls it) = u"
    using u by (simp add: get_selected_def split: if_splits)
  ultimately show ?thesis
    using u su
    by (auto simp: resolver_finish_state_def select_next_url_def select_next_index_def Let_def urls_left_def)
qed

definition sample_item :: item where
  "sample_item =
     \<lparr>item_state = IN_QUEUE, item_fail_state = NOT_FAILED, prefail_reason = REASON_UNKNOWN,
      item_id = 257, item_urls = \<lparr>urls = [url_link ''airable://a'', url_link ''airable://b''], selected_url = 0\<rparr>,
      resolver = Some 0, start_required_after_resolve = False, enable_realtime_processing = True,
      item_stream_type = GENERIC_NETWORK, start_time = time_point_min, end_time = time_point_max,
      item_stream_data = stream_data_init None [] [] ''key''\<rparr>"

lemma sample_item_simps [simp]:
  "item_urls sample_item = \<lparr>urls = [url_link ''airable://a'', url_link ''airable://b''], selected_url = 0\<rparr>"
  "resolver sample_item = Some 0" "item_id sample_item = 257" "item_state sample_item = IN_QUEUE"
  by (simp_all add: sample_item_def)

lemma sample_item_ok: "item_ok sample_item" "\<not> item_empty sample_item"
  by (simp_all add: item_ok_def item_empty_def stream_urls_ok_def)

lemma resolver_tries_alternatives_witness:
  "\<exists>it1 it2. resolver_finish_state 5 URL_BROKEN sample_item = Some (HAVE_MORE_URLS, it1) \<and>
     select_next_url 6 it1 = Some (True, it2) \<and> selected_url (item_urls it2) = 1"
  using resolver_tries_alternatives [OF sample_item_ok, of 5 URL_BROKEN 6]
  by (auto simp: urls_left_def url_link_def)

text \<open>The resolver's answer is what gets played: after \<open>resolver_finish()\<close> with a URI, an item
  whose selected URL is a link is in the state \<open>KNOWN_RESOLVED_URL\<close> and plays that URI, while it
  reports the link it was made from.  An empty URI counts as a failure to resolve.\<close>
lemma resolver_result_is_played:
  assumes "item_ok it" "get_selected (item_urls it) = Some u" "is_airable_link u" "uri \<noteq> []"
  shows "\<exists>it1. resolver_finish_uri now uri valid it = Some (RESOLVED, it1) \<and>
      get_selected_url_state it1 = Some KNOWN_RESOLVED_URL \<and>
      get_url_for_playing it1 = Some uri \<and>
      get_url_for_reporting it1 = Some (original_url_string u) \<and>
      resolver_finish_uri now [] valid it = resolver_finish_state now URL_BROKEN it"
proof -
  have "urls (item_urls it) \<noteq> []"
    using assms(2) by (auto simp: get_selected_def)
  then show ?thesis
    using assms
    by (simp add: resolver_finish_uri_def get_selected_url_state_def get_url_for_playing_def
        get_url_for_reporting_def get_selected_update set_resolved_uri_def get_stream_uri_def)
qed

lemma resolver_result_is_played_witness:
  "\<exists>it1. resolver_finish_uri 0 ''http://x'' 60 sample_item = Some (RESOLVED, it1) \<and>
      get_url_for_playing it1 = Some ''http://x'' \<and> get_url_for_reporting it1 = Some ''airable://a''"
  using resolver_result_is_played [OF sample_item_ok(1), of "url_link ''airable://a''" "''http://x''" 0 60]
  by (auto simp: get_selected_def url_link_def)

text \<open>A resolved link that has expired is refreshed before any alternative is tried:
  \<open>select_next_url()\<close> stays on the link and takes it back to the unresolved state.  In particular
  a URI that came without any time of validity is resolved again on every failure, as often as it
  fails.\<close>
lemma expired_link_is_refreshed:
  assumes "item_ok it" "resolver it = None" "get_selected (item_urls it) = Some u" "is_airable_link u"
    "direct_url u \<noteq> []" "when_expected_expiry u \<le> now"
  shows "\<exists>it1. select_next_url now it = Some (True, it1) \<and>
      selected_url (item_urls it1) = selected_url (item_urls it) \<and>
      get_selected_url_state it1 = Some KNOWN_AIRABLE_LINK"
proof -
  have "urls (item_urls it) \<noteq> []"
    using assms(3) by (auto simp: get_selected_def)
  then show ?thesis
    using assms
    by (simp add: select_next_url_def clear_expired_uri_def get_selected_url_state_def
        get_selected_update get_stream_uri_def)
qed

lemma expired_link_is_refreshed_witness:
  "\<exists>it1. select_next_url 100
      (sample_item\<lparr>resolver := None,
         item_urls := \<lparr>urls = [set_resolved_uri ''http://x'' 0 100 (url_link ''airable://a'')], selected_url = 0\<rparr>\<rparr>)
      = Some (True, it1) \<and> get_selected_url_state it1 = Some KNOWN_AIRABLE_LINK"
  using expired_link_is_refreshed [of "sample_item\<lparr>resolver := None,
         item_urls := \<lparr>urls = [set_resolved_uri ''http://x'' 0 100 (url_link ''airable://a'')], selected_url = 0\<rparr>\<rparr>"
       "set_resolved_uri ''http://x'' 0 100 (url_link ''airable://a'')" 100]
  by (auto simp: item_ok_def stream_urls_ok_def get_selected_def set_resolved_uri_def url_link_def
      seconds_ns_def)

end
