(* ===== verification/Item_Life.thy ===== *)
theory Item_Life
  imports Play_Item
begin

text \<open>
  The life of an item of the play queue: everything that the streamer may do to it, in any order,
  from its construction on.  The operations are those of theory \<open>Play_Item\<close>; an item is typed by the
  list of URLs it was made with, and the type is kept by all of them.
\<close>

section \<open>Operations on an item\<close>

datatype item_op =
    ItSetState item_state | ItDisableRealtime | ItPrefail reason | ItFail
  | ItSelectNextUrl time_ns | ItStartRequired | ItStartWhenReady
  | ItResolverBegin call_ref | ItResolverFinish time_ns url_state
  | ItResolverFinishUri time_ns string int

fun item_exec :: "item_op \<Rightarrow> item \<Rightarrow> item option" where
  "item_exec (ItSetState st) it = Some (set_item_state st it)"
| "item_exec ItDisableRealtime it = Some (disable_realtime it)"
| "item_exec (ItPrefail r) it = map_option snd (prefail r it)"
| "item_exec ItFail it = Some (snd (item_fail it))"
| "item_exec (ItSelectNextUrl now) it = map_option snd (select_next_url now it)"
| "item_exec ItStartRequired it = Some (snd (is_pipeline_start_required it))"
| "item_exec ItStartWhenReady it = map_option snd (pipeline_start_required_when_ready it)"
| "item_exec (ItResolverBegin ref) it = Some (it\<lparr>resolver := Some ref\<rparr>)"
| "item_exec (ItResolverFinish now st) it = map_option snd (resolver_finish_state now st it)"
| "item_exec (ItResolverFinishUri now uri v) it = map_option snd (resolver_finish_uri now uri v it)"

fun item_run :: "item_op list \<Rightarrow> item \<Rightarrow> item option" where
  "item_run [] it = Some it"
| "item_run (op # ops) it = do { it1 \<leftarrow> item_exec op it; item_run ops it1 }"

section \<open>The type of an item\<close>

text \<open>What never changes about an item: its identifier, the URLs given by the client and which of
  them are links; and that one of them is selected, at a position that only grows.\<close>
definition item_typed :: "stream_id \<Rightarrow> (string \<times> bool) list \<Rightarrow> item \<Rightarrow> bool" where
  "item_typed sid us it \<longleftrightarrow>
     item_id it = sid \<and> us \<noteq> [] \<and>
     map (\<lambda>u. (original_url_string u, is_airable_link u)) (urls (item_urls it)) = us \<and>
     selected_url (item_urls it) < length us"

text \<open>The only assertion of an item: a reason for failing must be given.\<close>
definition reason_given :: "item_op \<Rightarrow> bool" where
  "reason_given op \<longleftrightarrow> op \<noteq> ItPrefail REASON_UNKNOWN"

abbreviation url_type :: "url \<Rightarrow> string \<times> bool" where
  "url_type \<equiv> \<lambda>u. (original_url_string u, is_airable_link u)"

lemma url_type_resolved [simp]: "url_type (set_resolved_uri uri v now u) = url_type u"
  by (simp add: set_resolved_uri_def)

lemma url_type_cleared [simp]: "url_type (snd (clear_expired_uri now u)) = url_type u"
  by (simp add: clear_expired_uri_def)

lemma url_types_update:
  assumes "get_selected su = Some u" "url_type v = url_type u"
  shows "map url_type (urls (update_selected (\<lambda>_. v) su)) = map url_type (urls su)"
proof -
  have "selected_url su < length (urls su)" "urls su ! selected_url su = u"
    using assms(1) by (auto simp: get_selected_def split: if_splits)
  then have "map url_type (urls su) ! selected_url su = url_type v"
    using assms(2) by (simp only: nth_map)
  then have "(map url_type (urls su))[selected_url su := url_type v] = map url_type (urls su)"
    by (metis list_update_id)
  then show ?thesis by (simp add: update_selected_def map_update)
qed

lemma item_typed_selected:
  assumes "item_typed sid us it"
  obtains u where "get_selected (item_urls it) = Some u"
    "(original_url_string u, is_airable_link u) = us ! selected_url (item_urls it)"
proof -
  have n: "selected_url (item_urls it) < length (urls (item_urls it))"
    using assms by (auto simp: item_typed_def)
  show ?thesis
    by (rule that [of "urls (item_urls it) ! selected_url (item_urls it)"])
      (use assms n in \<open>auto simp: item_typed_def get_selected_def\<close>)
qed

lemma item_typed_ok: "item_typed sid us it \<Longrightarrow> item_ok it \<and> \<not> item_empty it"
  by (auto simp: item_typed_def item_ok_def item_empty_def stream_urls_ok_def)

lemma item_typed_frame:
  assumes "item_typed sid us it" "item_id it' = item_id it"
    "map url_type (urls (item_urls it')) = map url_type (urls (item_urls it))"
    "selected_url (item_urls it') < length us"
  shows "item_typed sid us it'"
  using assms by (simp add: item_typed_def)

lemma selected_in_range: "item_typed sid us it \<Longrightarrow> selected_url (item_urls it) < length us"
  by (simp add: item_typed_def)

lemma urls_length: "item_typed sid us it \<Longrightarrow> length (urls (item_urls it)) = length us"
  by (auto simp: item_typed_def)

section \<open>Progress and preservation\<close>

lemma item_exec_select:
  assumes "item_typed sid us it"
  shows "\<exists>it1. item_exec (ItSelectNextUrl now) it = Some it1 \<and> item_typed sid us it1
    \<and> selected_url (item_urls it) \<le> selected_url (item_urls it1)"
proof -
  obtain u where u: "get_selected (item_urls it) = Some u" using item_typed_selected [OF assms] by blast
  obtain b u' where c: "clear_expired_uri now u = (b, u')" by force
  have u': "url_type u' = url_type u" using url_type_cleared [of now u] by (simp add: c)
  note upd = url_types_update [OF u u']
  show ?thesis
    using selected_in_range [OF assms] urls_length [OF assms] upd
    by (auto simp: select_next_url_def u c Let_def select_next_index_def intro!: item_typed_frame [OF assms])
qed

lemma item_exec_finish:
  assumes "item_typed sid us it"
  shows "\<exists>it1. item_exec (ItResolverFinish now st) it = Some it1 \<and> item_typed sid us it1
    \<and> selected_url (item_urls it) \<le> selected_url (item_urls it1)"
proof -
  obtain u where u: "get_selected (item_urls it) = Some u" using item_typed_selected [OF assms] by blast
  note upd = url_types_update [OF u url_type_resolved]
  show ?thesis
    using selected_in_range [OF assms] upd
    by (auto simp: resolver_finish_state_def u Let_def intro!: item_typed_frame [OF assms])
qed

lemma item_exec_finish_uri:
  assumes "item_typed sid us it"
  shows "\<exists>it1. item_exec (ItResolverFinishUri now uri v) it = Some it1 \<and> item_typed sid us it1
    \<and> selected_url (item_urls it) \<le> selected_url (item_urls it1)"
proof (cases "uri = []")
  case True
  then show ?thesis using item_exec_finish [OF assms, of now URL_BROKEN] by (simp add: resolver_finish_uri_def)
next
  case False
  obtain u where u: "get_selected (item_urls it) = Some u" using item_typed_selected [OF assms] by blast
  note upd = url_types_update [OF u url_type_resolved]
  show ?thesis
    using False selected_in_range [OF assms] upd
    by (auto simp: resolver_finish_uri_def u intro!: item_typed_frame [OF assms])
qed

lemma item_exec_start:
  assumes "item_typed sid us it"
  shows "\<exists>it1. item_exec ItStartWhenReady it = Some it1 \<and> item_typed sid us it1
    \<and> selected_url (item_urls it) \<le> selected_url (item_urls it1)"
proof -
  let ?it = "it\<lparr>start_required_after_resolve := True\<rparr>"
  have ty: "item_typed sid us ?it" using assms by (simp add: item_typed_def)
  obtain st where "get_selected_url_state ?it = Some st"
    using url_state_defined [of ?it] item_typed_ok [OF ty] by blast
  then show ?thesis using ty by (simp add: pipeline_start_required_when_ready_def)
qed

lemma item_exec_typed:
  assumes "item_typed sid us it" "reason_given op"
  shows "\<exists>it1. item_exec op it = Some it1 \<and> item_typed sid us it1
    \<and> selected_url (item_urls it) \<le> selected_url (item_urls it1)"
proof (cases op)
  case (ItSelectNextUrl now)
  then show ?thesis using item_exec_select [OF assms(1)] by simp
next
  case (ItResolverFinish now st)
  then show ?thesis using item_exec_finish [OF assms(1)] by simp
next
  case (ItResolverFinishUri now uri v)
  then show ?thesis using item_exec_finish_uri [OF assms(1)] by simp
next
  case ItStartWhenReady
  then show ?thesis using item_exec_start [OF assms(1)] by simp
qed (use assms in \<open>auto simp: item_typed_def reason_given_def set_item_state_def disable_realtime_def prefail_def
      item_fail_def is_pipeline_start_required_def split: fail_state.split\<close>)

lemma item_run_typed:
  "item_typed sid us it \<Longrightarrow> list_all reason_given ops \<Longrightarrow>
     \<exists>it1. item_run ops it = Some it1 \<and> item_typed sid us it1
       \<and> selected_url (item_urls it) \<le> selected_url (item_urls it1)"
proof (induction ops arbitrary: it)
  case (Cons op ops)
  from item_exec_typed [OF Cons.prems(1), of op] Cons.prems(2)
  obtain it1 where it1: "item_exec op it = Some it1" "item_typed sid us it1"
    "selected_url (item_urls it) \<le> selected_url (item_urls it1)" by auto
  from Cons.IH [OF it1(2)] Cons.prems(2)
  obtain it2 where "item_run ops it1 = Some it2" "item_typed sid us it2"
    "selected_url (item_urls it1) \<le> selected_url (item_urls it2)" by auto
  with it1 show ?case by auto
qed simp

lemma new_item_typed:
  assumes "stream_urls_of_variant E v w = Some (su, w')" "urls su \<noteq> []"
  shows "\<exists>vs. subseq vs v \<and> item_typed sid vs (new_item E sid key su rt cover extra preset t0 t1)"
proof -
  obtain vs where vs: "subseq vs v" "list_all2 url_matches vs (urls su)" "selected_url su = 0"
    using assms(1) append_variant_urls_matches [of E v "[]" w]
    by (fastforce simp: stream_urls_of_variant_def Option.bind_eq_Some_conv)
  have "map url_type us = vs" if "list_all2 url_matches vs us" for us
    using that by (induction rule: list_all2_induct) (auto simp: url_matches_def)
  with vs assms(2) have "item_typed sid vs (new_item E sid key su rt cover extra preset t0 t1)"
    by (auto simp: item_typed_def new_item_def)
  with vs(1) show ?thesis by blast
qed

section \<open>Property\<close>

text \<open>C39. Items are well typed and do not go wrong: an item made with URLs from a client that has at
  least one usable URL can be put through any sequence of operations, prefailed only with a reason,
  without ever accessing a URL out of range.  It keeps its identifier and the client's URLs, the
  selected URL never goes back, and what is reported as the item's URL is always one of those the
  client gave.\<close>
theorem items_do_not_go_wrong:
  assumes "stream_urls_of_variant E v w = Some (su, w')" "urls su \<noteq> []" "list_all reason_given ops"
  shows "\<exists>vs it url. subseq vs v \<and>
    item_run ops (new_item E sid key su rt cover extra preset t0 t1) = Some it \<and>
    item_typed sid vs it \<and> get_selected_url_state it \<noteq> None \<and>
    get_url_for_reporting it = Some url \<and> url \<in> fst ` set v"
proof -
  obtain vs where vs: "subseq vs v" "item_typed sid vs (new_item E sid key su rt cover extra preset t0 t1)"
    using new_item_typed [OF assms(1,2)] by blast
  obtain it where it: "item_run ops (new_item E sid key su rt cover extra preset t0 t1) = Some it"
      "item_typed sid vs it"
    using item_run_typed [OF vs(2) assms(3)] by blast
  obtain u where u: "get_selected (item_urls it) = Some u"
      "(original_url_string u, is_airable_link u) = vs ! selected_url (item_urls it)"
    using item_typed_selected [OF it(2)] by blast
  have "vs ! selected_url (item_urls it) \<in> set v"
    using vs(1) selected_in_range [OF it(2)]
    by (meson nth_mem subseq_order.order_trans subseq_singleton_left)
  then have "original_url_string u \<in> fst ` set v"
    using u(2) by (metis fst_conv image_eqI)
  then show ?thesis
    using vs(1) it u url_state_defined item_typed_ok [OF it(2)]
    by (auto simp: get_url_for_reporting_def)
qed

lemma items_do_not_go_wrong_witness:
  "\<exists>it url. item_run [ItResolverBegin 0, ItResolverFinish 5 URL_BROKEN, ItSelectNextUrl 6, ItStartWhenReady]
      (new_item usb_env_sample 257 ''k'' \<lparr>urls = [url_link ''a:x'', url_link ''a:y''], selected_url = 0\<rparr>
         True [] [] None 0 0) = Some it \<and> get_url_for_reporting it = Some url \<and> url \<in> {''a:x'', ''a:y''}"
  using items_do_not_go_wrong [of usb_env_sample "[(''a:x'', True), (''a:y'', True)]" "[]"
      "\<lparr>urls = [url_link ''a:x'', url_link ''a:y''], selected_url = 0\<rparr>" "[]"
      "[ItResolverBegin 0, ItResolverFinish 5 URL_BROKEN, ItSelectNextUrl 6, ItStartWhenReady]"
      257 "''k''" True "[]" "[]" None 0 0]
  by (auto simp: stream_urls_of_variant_def reason_given_def)

end
