(* ===== verification/Stream_Logging.thy ===== *)
theory Stream_Logging
  imports Play_Item
begin

text \<open>
  What is written to the log about the next stream and about errors and warnings of GStreamer
  (\<^verbatim>\<open>src/stream_logging.cc\<close>).  A call of \<open>msg_info()\<close> or \<open>msg_error()\<close> is a value
  of type \<open>log_line\<close> with the arguments of the call; a C string is \<open>None\<close> for the null pointer.
  What C leaves undefined is the result \<open>None\<close> of the whole function: reading a C string behind the
  end of its buffer, and a null pointer for the conversion \<^verbatim>\<open>%s\<close>.  The
  splitting of titles is in theory \<open>Stream_Data\<close>.
\<close>

section \<open>Log lines\<close>

datatype log_line =
    LogSettingStream stream_id string string
  | LogTag char string string
  | LogErrorCode string int string string string
  | LogErrorMessage string string
  | LogErrorDebug string string

section \<open>The next stream\<close>

text \<open>\<open>gst_tag_list_peek_string_index()\<close> for index 0: the pointer stays null if there is no value.\<close>
definition peek_string :: "tag_list \<Rightarrow> string \<Rightarrow> string option" where
  "peek_string tgs tag =
     (case map_of tgs tag of
        Some (VString s # _) \<Rightarrow> Some s
      | _ \<Rightarrow> None)"

definition log_next_stream_tags :: "tag_list option \<Rightarrow> char \<Rightarrow> log_line list option" where
  "log_next_stream_tags list pfx =
     (case list of
        None \<Rightarrow> Some []
      | Some tgs \<Rightarrow>
          do { artist \<leftarrow> peek_string tgs ''artist'';
               album \<leftarrow> peek_string tgs ''album'';
               title \<leftarrow> peek_string tgs ''title'';
               Some [LogTag pfx ''Artist'' artist, LogTag pfx ''Album'' album, LogTag pfx ''Title'' title] })"

text \<open>\<open>&str[n]\<close>, read up to its terminator.\<close>
definition c_str_read :: "string \<Rightarrow> nat \<Rightarrow> string option" where
  "c_str_read s n = (if CHR 0x00 \<in> set (drop n s) then Some (c_str_at s n) else None)"

text \<open>The part of \<open>log_next_stream()\<close> for the tag \<^verbatim>\<open>x-drcpd-title\<close>.\<close>
definition log_drcpd_title :: "string \<Rightarrow> log_line list option" where
  "log_drcpd_title src =
     (case tokenize_meta_data src of (str, artist, album, is_single_string) \<Rightarrow>
        do { split \<leftarrow> (if \<not> is_single_string
                       then do { a \<leftarrow> c_str_read str artist;
                                 b \<leftarrow> c_str_read str album;
                                 Some [LogTag CHR ''R'' ''Artist'' a, LogTag CHR ''R'' ''Album'' b] }
                       else Some []);
             t \<leftarrow> c_str_read str 0;
             Some (split @ [LogTag CHR ''R'' ''Title'' t]) })"

definition log_next_stream :: "item \<Rightarrow> string \<Rightarrow> log_line list option" where
  "log_next_stream next_stream ctx =
     do { url \<leftarrow> get_url_for_playing next_stream;
          let sd = item_stream_data next_stream;
          tag_lines \<leftarrow> log_next_stream_tags (sd_tag_list sd) CHR ''T'';
          preset_lines \<leftarrow> log_next_stream_tags (preset_tag_list sd) CHR ''P'';
          title_lines \<leftarrow> (case map_of (extra_tag_list sd) ''x-drcpd-title'' of
                            None \<Rightarrow> Some []
                          | Some v \<Rightarrow> log_drcpd_title v);
          Some (LogSettingStream (item_id next_stream) url ctx # tag_lines @ preset_lines @ title_lines) }"

section \<open>Errors and warnings\<close>

text \<open>What is parsed from a message: the error, with its domain as a string, the debug string, which
  may be null, and the name of the message's source.\<close>
record glib_error =
  ge_domain :: string
  ge_code :: int
  ge_message :: string

record gst_failure_message =
  gfm_error :: glib_error
  gfm_debug :: "string option"
  gfm_src_name :: string

text \<open>\<open>gst_error_get_message()\<close> is the parameter \<open>generic\<close>.\<close>
definition log_error_or_warning ::
  "(string \<Rightarrow> int \<Rightarrow> string) \<Rightarrow> string \<Rightarrow> string option \<Rightarrow> glib_error \<Rightarrow> gst_failure_message
     \<Rightarrow> log_line list option"
where
  "log_error_or_warning generic pfx debug error message =
     do { debug_string \<leftarrow> debug;
          Some [LogErrorCode pfx (ge_code error) (ge_domain error) (gfm_src_name message)
                  (generic (ge_domain error) (ge_code error)),
                LogErrorMessage pfx (ge_message error),
                LogErrorDebug pfx debug_string] }"

definition log_error_message ::
  "(string \<Rightarrow> int \<Rightarrow> string) \<Rightarrow> gst_failure_message \<Rightarrow> (log_line list \<times> glib_error) option" where
  "log_error_message generic message =
     do { ls \<leftarrow> log_error_or_warning generic ''ERROR'' (gfm_debug message) (gfm_error message) message;
          Some (ls, gfm_error message) }"

definition log_warning_message ::
  "(string \<Rightarrow> int \<Rightarrow> string) \<Rightarrow> gst_failure_message \<Rightarrow> (log_line list \<times> glib_error) option" where
  "log_warning_message generic message =
     do { ls \<leftarrow> log_error_or_warning generic ''WARNING'' (gfm_debug message) (gfm_error message) message;
          Some (ls, gfm_error message) }"

section \<open>Offsets of artist and album\<close>

definition tokens_inv :: "nat \<Rightarrow> nat \<Rightarrow> string \<times> nat \<times> nat \<times> nat \<times> bool \<Rightarrow> bool" where
  "tokens_inv n i acc \<longleftrightarrow>
     (case acc of (dest, artist, album, idx, single) \<Rightarrow> length dest = i \<and> artist \<le> n \<and> album \<le> n)"

lemma tokens_inv_step: "tokens_inv n i acc \<Longrightarrow> i < n \<Longrightarrow> tokens_inv n (Suc i) (tokenize_step i ch acc)"
  by (auto simp: tokens_inv_def tokenize_step_def split: prod.splits if_splits)

lemma tokens_inv_loop:
  "tokens_inv n i acc \<Longrightarrow> i + length src \<le> n \<Longrightarrow> tokens_inv n (i + length src) (tokenize_loop i src acc)"
proof (induction src arbitrary: i acc)
  case (Cons ch src)
  have "tokens_inv n (Suc i) (tokenize_step i ch acc)"
    using Cons.prems by (intro tokens_inv_step) simp_all
  from Cons.IH [OF this] Cons.prems show ?case by simp
qed simp

lemma tokenize_offsets:
  assumes "tokenize_meta_data src = (dest, artist, album, single)"
  shows "length dest = length src + 1" "artist < length dest" "album < length dest" "last dest = CHR 0x00"
proof -
  obtain d a b idx s where run: "tokenize_loop 0 src ([], length src, length src, 0, True) = (d, a, b, idx, s)"
    by (metis prod_cases5)
  have "tokens_inv (length src) (0 + length src) (tokenize_loop 0 src ([], length src, length src, 0, True))"
    by (rule tokens_inv_loop) (simp_all add: tokens_inv_def)
  with run assms show "length dest = length src + 1" "artist < length dest" "album < length dest"
    "last dest = CHR 0x00"
    by (auto simp: tokens_inv_def tokenize_meta_data_def)
qed

lemma c_str_read_terminated:
  "last s = CHR 0x00 \<Longrightarrow> n < length s \<Longrightarrow> c_str_read s n = Some (c_str_at s n)"
  unfolding c_str_read_def using last_drop [of n s] last_in_set [of "drop n s"] by auto

lemma log_drcpd_title_defined: "\<exists>ls. log_drcpd_title src = Some ls \<and> ls \<noteq> [] \<and> length ls \<le> 3"
proof -
  obtain dest artist album single where t: "tokenize_meta_data src = (dest, artist, album, single)"
    by (metis prod_cases4)
  note o = tokenize_offsets [OF t]
  have "c_str_read dest n = Some (c_str_at dest n)" if "n < length dest" for n
    by (rule c_str_read_terminated [OF o(4) that])
  with o show ?thesis by (auto simp: log_drcpd_title_def t)
qed

text \<open>Whether a tag list, if there is one, has all the tags that are logged.\<close>
definition loggable_tags :: "tag_list option \<Rightarrow> bool" where
  "loggable_tags list \<longleftrightarrow>
     (case list of None \<Rightarrow> True | Some tgs \<Rightarrow>
        list_all (\<lambda>tag. case map_of tgs tag of Some (VString v # vs) \<Rightarrow> True | _ \<Rightarrow> False) [''artist'', ''album'', ''title''])"

lemma peek_string_defined:
  "peek_string tgs tag \<noteq> None \<longleftrightarrow> (case map_of tgs tag of Some (VString v # vs) \<Rightarrow> True | _ \<Rightarrow> False)"
  by (simp add: peek_string_def split: option.split list.split gvalue.split)

lemma tags_logged_iff: "log_next_stream_tags list pfx \<noteq> None \<longleftrightarrow> loggable_tags list"
  by (cases list)
    (auto simp: log_next_stream_tags_def loggable_tags_def bind_eq_None_conv peek_string_defined [symmetric])

section \<open>Properties\<close>

text \<open>C40. Logging the next stream never reads a string behind its end: for every item with a URL,
  whatever bytes its title consists of, it is well defined exactly if each of the two tag lists of
  the item that is present has an artist, an album and a title.  If one of them is missing, a null
  pointer is passed to \<^verbatim>\<open>%s\<close>; for items without URLs it is undefined, too.\<close>
theorem log_next_stream_defined_exactly:
  "(\<exists>ls. log_next_stream it ctx = Some ls) =
     ((\<exists>u. get_selected (item_urls it) = Some u) \<and>
      loggable_tags (sd_tag_list (item_stream_data it)) \<and> loggable_tags (preset_tag_list (item_stream_data it)))"
proof (cases "get_selected (item_urls it)")
  case (Some u)
  obtain ls where ls: "log_drcpd_title v = Some (ls v)" for v
    using log_drcpd_title_defined by metis
  let ?sd = "item_stream_data it"
  have "(\<exists>ls. log_next_stream it ctx = Some ls) \<longleftrightarrow>
      log_next_stream_tags (sd_tag_list ?sd) CHR ''T'' \<noteq> None \<and> log_next_stream_tags (preset_tag_list ?sd) CHR ''P'' \<noteq> None"
    using Some ls
    by (auto simp: log_next_stream_def get_url_for_playing_def Let_def bind_eq_Some_conv split: option.split)
  then show ?thesis using Some unfolding tags_logged_iff by simp
qed (simp add: log_next_stream_def get_url_for_playing_def)

text \<open>A title of three tokens is logged as title, artist and album, in the order in which the
  tokens follow each other.\<close>
lemma log_title_tokens:
  assumes "\<forall>t \<in> {t0, t1, t2}. CHR 0x1D \<notin> set t \<and> CHR 0x00 \<notin> set t"
  shows "log_drcpd_title (t0 @ [CHR 0x1D] @ t1 @ [CHR 0x1D] @ t2) =
    Some [LogTag CHR ''R'' ''Artist'' t1, LogTag CHR ''R'' ''Album'' t2, LogTag CHR ''R'' ''Title'' t0]"
proof -
  obtain dest artist album where t:
      "tokenize_meta_data (t0 @ [CHR 0x1D] @ t1 @ [CHR 0x1D] @ t2) = (dest, artist, album, False)"
    and c: "c_str_at dest 0 = t0" "c_str_at dest artist = t1" "c_str_at dest album = t2"
    using tokenize_finds_tokens [OF assms] by blast
  note o = tokenize_offsets [OF t]
  show ?thesis
    unfolding log_drcpd_title_def t using o c by (simp add: c_str_read_terminated [OF o(4)])
qed

text \<open>A stream with a tag list that lacks the artist cannot be logged without passing a null pointer.\<close>
lemma missing_tag_undefined:
  "sd_tag_list (item_stream_data it) = Some tgs \<Longrightarrow> map_of tgs ''artist'' = None \<Longrightarrow> log_next_stream it ctx = None"
  by (simp add: log_next_stream_def log_next_stream_tags_def peek_string_def Let_def bind_eq_None_conv)

text \<open>Errors and warnings are handed on as they were parsed, and logging them is well defined exactly if
  the message has a debug string.\<close>
lemma error_logged_iff:
  "log_error_message generic m \<noteq> None \<longleftrightarrow> gfm_debug m \<noteq> None"
  "map_option snd (log_error_message generic m) = map_option snd (log_warning_message generic m)"
  by (cases "gfm_debug m"; simp add: log_warning_message_def log_error_message_def log_error_or_warning_def)+

end
