(* ===== verification/Streamer_State.thy ===== *)
theory Streamer_State
  imports Url_Fifo Play_Item Buffering Boosted_Threads Airable_Call
begin

text \<open>
  The state of the streamer and its environment (\<^verbatim>\<open>src/streamer.cc\<close>, from the enumerations up
  to the class \<open>StreamerData\<close>), and the bookkeeping classes defined there: failure details, the
  throttling of meta data updates, the check for a replaced pipeline.

  The nested records follow the nested classes.  GStreamer, GLib, the D-Bus peers and the clock are
  the fields of a record \<open>streamer_env\<close>; their state is a value of type \<open>'w\<close>, kept beside the RNF
  calls.  Everything the streamer emits (D-Bus signals, calls that expect no answer, scheduling
  requests, timers and idle functions) is appended to \<open>trace\<close>.  The recursive mutexes make each
  entry point atomic.  Log messages are not modelled, and neither are \<open>MSG_BUG()\<close>, \<open>MSG_BUG_IF()\<close>,
  \<open>MSG_UNREACHABLE()\<close> and \<open>MSG_NOT_IMPLEMENTED()\<close>, which log and return.
\<close>

section \<open>GStreamer values\<close>

type_synonym pipeline_id = nat

datatype gst_state =
    GST_STATE_VOID_PENDING | GST_STATE_NULL | GST_STATE_READY | GST_STATE_PAUSED | GST_STATE_PLAYING

datatype state_change_return = CHANGE_FAILURE | CHANGE_SUCCESS | CHANGE_ASYNC | CHANGE_NO_PREROLL

text \<open>The source of a message: a pipeline, or some other element, which may be a video decoder.\<close>
datatype message_source = SrcPipeline pipeline_id | SrcElement bool

definition GST_SECOND :: int where "GST_SECOND = 1000000000"
definition GST_MSECOND :: int where "GST_MSECOND = 1000000"
definition GST_USECOND :: int where "GST_USECOND = 1000"
definition GST_FORMAT_PERCENT_MAX :: int where "GST_FORMAT_PERCENT_MAX = 1000000"

record 'w streamer_env = "'w airable_env" +
  gst_make_playbin :: "'w \<Rightarrow> pipeline_id option \<times> 'w"
  gst_configure_playbin :: "pipeline_id \<Rightarrow> bool \<Rightarrow> string option \<Rightarrow> 'w \<Rightarrow> 'w"
  gst_bus_add_watch :: "pipeline_id \<Rightarrow> 'w \<Rightarrow> nat \<times> 'w"
  g_signal_connect :: "pipeline_id \<Rightarrow> string \<Rightarrow> 'w \<Rightarrow> nat \<times> 'w"
  g_signal_handler_disconnect :: "pipeline_id \<Rightarrow> nat \<Rightarrow> 'w \<Rightarrow> 'w"
  gst_object_unref :: "pipeline_id \<Rightarrow> 'w \<Rightarrow> 'w"
  g_timeout_add :: "nat \<Rightarrow> 'w \<Rightarrow> nat \<times> 'w"
  g_source_remove :: "nat \<Rightarrow> 'w \<Rightarrow> 'w"
  gst_element_set_state :: "pipeline_id \<Rightarrow> gst_state \<Rightarrow> 'w \<Rightarrow> state_change_return \<times> 'w"
  gst_current_state :: "pipeline_id \<Rightarrow> 'w \<Rightarrow> gst_state"
  gst_pending_state :: "pipeline_id \<Rightarrow> 'w \<Rightarrow> gst_state"
  gst_target_state :: "pipeline_id \<Rightarrow> 'w \<Rightarrow> gst_state"
  gst_element_get_state :: "pipeline_id \<Rightarrow> 'w \<Rightarrow> state_change_return \<times> gst_state \<times> gst_state"
  gst_set_uri :: "pipeline_id \<Rightarrow> string \<Rightarrow> 'w \<Rightarrow> 'w"
  gst_get_uri :: "pipeline_id \<Rightarrow> 'w \<Rightarrow> string option"
  gst_get_current_uri :: "pipeline_id \<Rightarrow> 'w \<Rightarrow> string option"
  gst_query_position :: "pipeline_id \<Rightarrow> 'w \<Rightarrow> int option"
  gst_query_duration :: "pipeline_id \<Rightarrow> 'w \<Rightarrow> int option"
  gst_query_seeking :: "pipeline_id \<Rightarrow> 'w \<Rightarrow> (bool \<times> int) option"
  gst_send_seek :: "pipeline_id \<Rightarrow> int \<Rightarrow> 'w \<Rightarrow> bool \<times> 'w"
  gst_post_wrong_type :: "pipeline_id \<Rightarrow> 'w \<Rightarrow> 'w"
  gst_recalculate_latency :: "pipeline_id \<Rightarrow> 'w \<Rightarrow> 'w"
  gst_clock_get_time :: "'w \<Rightarrow> int"
  timebase_now :: "'w \<Rightarrow> time_ns"
  tags_env :: tag_env
  filename_from_uri :: "string \<Rightarrow> string option"
  os_realpath :: "string \<Rightarrow> 'w \<Rightarrow> string"
  STREAM_ID_SOURCE_INVALID :: stream_id

section \<open>Parts of the state\<close>

datatype play_status = STOPPED | PLAYING | PAUSED

datatype activate_stream_result = INVALID_ITEM | INVALID_STATE | ALREADY_ACTIVE | ACTIVATED

datatype which_stream_failed =
    FAILED_UNKNOWN | FAILED_CURRENT | FAILED_CURRENT_WITH_PREFAIL_REASON | FAILED_GAPLESS_NEXT
  | FAILED_GAPLESS_NEXT_WITH_PREFAIL_REASON | FAILED_ALREADY_GONE

datatype next_stream_request_state = NOT_REQUESTED | REQUESTED | REQUEST_DEFERRED

record time_data =
  position_s :: int
  duration_s :: int

record pipeline_data =
  pipeline :: "pipeline_id option"
  bus_watch :: nat
  signal_handler_ids :: "nat list"
  current_stream_protected_once :: bool
  current_stream :: "item option"
  next_stream_request :: next_stream_request_state
  stream_has_just_started :: bool
  stream_buffering_data :: buffering_data

definition pipeline_data_init :: pipeline_data where
  "pipeline_data_init =
     \<lparr>pipeline = None, bus_watch = 0, signal_handler_ids = [], current_stream_protected_once = False,
      current_stream = None, next_stream_request = NOT_REQUESTED, stream_has_just_started = False,
      stream_buffering_data = buffering_init\<rparr>"

record throttled_update =
  system_clock :: bool
  next_allowed_tag_update_time :: int
  is_update_scheduled :: bool
  update_stream_id :: stream_id

record presentation_data =
  previous_time :: time_data
  current_time :: time_data
  progress_watcher :: nat
  md_update :: throttled_update

record failure_details =
  fail_reason :: reason
  clear_fifo_on_error :: bool
  report_on_stream_stop :: bool

record failure_data =
  is_failing :: bool
  details :: failure_details

record control_data =
  is_player_activated :: bool
  supposed_play_status :: play_status
  initial_seek_position_ns :: "int option"

record resolve_context =
  rctx_stream_id :: stream_id
  rctx_next_state :: gst_state
  rctx_prefetching :: bool

text \<open>An array of stream identifiers in a message: an ordered part, then those of a set in any
  order.\<close>
type_synonym id_array = "stream_id list \<times> stream_id set"

datatype emission =
    Stopped stream_id id_array
  | StoppedWithError stream_id string bool id_array string
  | NowPlaying stream_id stream_key string bool id_array string_pairs
  | MetaDataChanged stream_id string_pairs
  | PositionChanged stream_id int int
  | PauseState stream_id bool
  | BufferLevel int bool
  | AddImageByData stream_key "8 word" nat nat
  | AddImageByURI stream_key nat string
  | Schedule "sched_request list"
  | IdleRestart
  | TagTimer int
  | IdlePostFailure pipeline_id string nat

record 'w streamer =
  ctl :: control_data
  pl :: pipeline_data
  fd :: failure_data
  pr :: presentation_data
  fifo :: "(item, stream_id) play_queue"
  threads :: boosted_threads
  rnfs :: "(resolve_context, 'w) rnf_world"
  soup_http_block_size :: nat
  boost_streaming_thread :: bool
  force_alsa_device :: "string option"
  trace :: "emission list"

definition world :: "'w streamer \<Rightarrow> 'w" where
  "world s = rworld (rnfs s)"

definition set_world :: "'w \<Rightarrow> 'w streamer \<Rightarrow> 'w streamer" where
  "set_world w s = s\<lparr>rnfs := (rnfs s)\<lparr>rworld := w\<rparr>\<rparr>"

definition emit :: "emission \<Rightarrow> 'w streamer \<Rightarrow> 'w streamer" where
  "emit e s = s\<lparr>trace := trace s @ [e]\<rparr>"

section \<open>Failure details\<close>

definition failure_details_init :: failure_details where
  "failure_details_init =
     \<lparr>fail_reason = REASON_UNKNOWN, clear_fifo_on_error = False, report_on_stream_stop = False\<rparr>"

definition failure_details_of_reason :: "reason \<Rightarrow> failure_details" where
  "failure_details_of_reason r =
     \<lparr>fail_reason = r, clear_fifo_on_error = False, report_on_stream_stop = False\<rparr>"

definition failure_details_of_report :: "bool \<Rightarrow> failure_details" where
  "failure_details_of_report report_on_stop =
     \<lparr>fail_reason = REASON_UNKNOWN, clear_fifo_on_error = False, report_on_stream_stop = report_on_stop\<rparr>"

definition failure_details_reset :: "failure_details \<Rightarrow> failure_details" where
  "failure_details_reset d =
     d\<lparr>fail_reason := REASON_UNKNOWN, clear_fifo_on_error := False, report_on_stream_stop := False\<rparr>"

definition failure_init :: failure_data where
  "failure_init = \<lparr>is_failing = False, details = failure_details_init\<rparr>"

definition failure_fail :: "reason \<Rightarrow> bool \<Rightarrow> failure_data \<Rightarrow> failure_data" where
  "failure_fail r clear_fifo f =
     f\<lparr>is_failing := True, details := (details f)\<lparr>fail_reason := r, clear_fifo_on_error := clear_fifo\<rparr>\<rparr>"

definition failure_reset :: "failure_data \<Rightarrow> failure_data" where
  "failure_reset f = f\<lparr>is_failing := False, details := failure_details_reset (details f)\<rparr>"

section \<open>Throttled meta data updates\<close>

definition COOLDOWN :: int where "COOLDOWN = 800"

definition throttled_update_init :: "stream_id \<Rightarrow> throttled_update" where
  "throttled_update_init invalid =
     \<lparr>system_clock = False, next_allowed_tag_update_time = 0, is_update_scheduled = False,
      update_stream_id = invalid\<rparr>"

definition update_clock_init :: "int \<Rightarrow> throttled_update \<Rightarrow> throttled_update" where
  "update_clock_init now u = u\<lparr>system_clock := True, next_allowed_tag_update_time := now\<rparr>"

definition update_clock_shutdown :: "throttled_update \<Rightarrow> throttled_update" where
  "update_clock_shutdown u = u\<lparr>system_clock := False\<rparr>"

definition try_emit_for_stream_id ::
  "stream_id \<Rightarrow> stream_id \<Rightarrow> throttled_update \<Rightarrow> bool \<times> throttled_update" where
  "try_emit_for_stream_id invalid sid u =
     (if sid = update_stream_id u then (update_stream_id u \<noteq> invalid, u)
      else (False, u\<lparr>is_update_scheduled := False\<rparr>))"

definition timer_activated :: "throttled_update \<Rightarrow> bool \<times> throttled_update" where
  "timer_activated u =
     (if \<not> is_update_scheduled u then (False, u) else (True, u\<lparr>is_update_scheduled := False\<rparr>))"

definition emitted_tags_timed :: "int \<Rightarrow> throttled_update \<Rightarrow> throttled_update" where
  "emitted_tags_timed now u =
     u\<lparr>next_allowed_tag_update_time := now + COOLDOWN * GST_MSECOND, is_update_scheduled := False\<rparr>"

definition emitted_nothing_timed :: "throttled_update \<Rightarrow> throttled_update" where
  "emitted_nothing_timed u = u\<lparr>is_update_scheduled := False\<rparr>"

definition emitted_tags_now_playing :: "int \<Rightarrow> stream_id \<Rightarrow> throttled_update \<Rightarrow> throttled_update" where
  "emitted_tags_now_playing now sid u =
     u\<lparr>next_allowed_tag_update_time := now + COOLDOWN * GST_MSECOND, is_update_scheduled := False,
       update_stream_id := sid\<rparr>"

text \<open>The second component is the timeout in milliseconds of the timer that is started, if any.\<close>
definition try_emit_tags :: "int \<Rightarrow> throttled_update \<Rightarrow> bool \<times> int option \<times> throttled_update" where
  "try_emit_tags now u =
     (if is_update_scheduled u then (False, None, u)
      else let remaining = next_allowed_tag_update_time u - now
           in if remaining \<le> 0 then (True, None, u)
              else (False, Some (remaining div GST_MSECOND), u\<lparr>is_update_scheduled := True\<rparr>))"

section \<open>The initial state\<close>

definition presentation_init :: "stream_id \<Rightarrow> presentation_data" where
  "presentation_init invalid =
     \<lparr>previous_time = \<lparr>position_s = 0, duration_s = 0\<rparr>, current_time = \<lparr>position_s = 0, duration_s = 0\<rparr>,
      progress_watcher = 0, md_update = throttled_update_init invalid\<rparr>"

definition control_init :: control_data where
  "control_init = \<lparr>is_player_activated = False, supposed_play_status = STOPPED,
     initial_seek_position_ns = None\<rparr>"

definition streamer_init ::
  "('w, 'z) streamer_env_scheme \<Rightarrow> boosted_threads \<Rightarrow> 'w \<Rightarrow> 'w streamer" where
  "streamer_init E th w =
     \<lparr>ctl = control_init, pl = pipeline_data_init, fd = failure_init,
      pr = presentation_init (STREAM_ID_SOURCE_INVALID E),
      fifo = queue_init default_max_number_of_items, threads = th,
      rnfs = \<lparr>calls = [], cookies = pending_cookies_init, rworld = w\<rparr>,
      soup_http_block_size = 0, boost_streaming_thread = True, force_alsa_device = None, trace = []\<rparr>"

section \<open>Replaced pipelines\<close>

text \<open>The second component of \<open>PipelineData::lock_rw(src)\<close> and \<open>lock_ro(src)\<close>: the message is not
  from a pipeline that has been replaced.  With a null pointer it is always true.\<close>
definition pipeline_is_current :: "message_source \<Rightarrow> 'w streamer \<Rightarrow> bool" where
  "pipeline_is_current src s =
     (case src of SrcPipeline p \<Rightarrow> pipeline (pl s) = Some p | SrcElement _ \<Rightarrow> True)"

section \<open>Items behind pointers\<close>

text \<open>A pointer to the current item or to the item at the head of the queue.\<close>
datatype item_ref = CurrentItem | FifoHead

fun get_item :: "item_ref \<Rightarrow> 'w streamer \<Rightarrow> item option" where
  "get_item CurrentItem s = current_stream (pl s)"
| "get_item FifoHead s = peek (fifo s)"

fun update_item :: "item_ref \<Rightarrow> (item \<Rightarrow> item) \<Rightarrow> 'w streamer \<Rightarrow> 'w streamer" where
  "update_item CurrentItem f s = s\<lparr>pl := (pl s)\<lparr>current_stream := map_option f (current_stream (pl s))\<rparr>\<rparr>"
| "update_item FifoHead f s = s\<lparr>fifo := update_head f (fifo s)\<rparr>"

definition put_item :: "item_ref \<Rightarrow> item \<Rightarrow> 'w streamer \<Rightarrow> 'w streamer" where
  "put_item r it s = update_item r (\<lambda>_. it) s"

end
