(* ===== verification/Streamer_Core.thy ===== *)
theory Streamer_Core
  imports Streamer_State
begin

text \<open>
  The functions of \<^verbatim>\<open>src/streamer.cc\<close> that the handlers and the public interface share:
  pipeline states and reconstruction, the messages about stopping, error recovery, the choice of
  the next item, and the resolving of Airable links.

  References to the locked parts of the state are the whole state here.  \<open>None\<close> is a crash: a null
  pointer or an empty URL vector dereferenced, or a failed \<open>msg_log_assert()\<close>.
\<close>

section \<open>Time information\<close>

definition invalid_time :: time_data where
  "invalid_time = \<lparr>position_s = INT64_MAX, duration_s = INT64_MAX\<rparr>"

definition invalidate_previous_time :: "'w streamer \<Rightarrow> 'w streamer" where
  "invalidate_previous_time s = s\<lparr>pr := (pr s)\<lparr>previous_time := invalid_time\<rparr>\<rparr>"

definition invalidate_current_time :: "'w streamer \<Rightarrow> 'w streamer" where
  "invalidate_current_time s = s\<lparr>pr := (pr s)\<lparr>current_time := invalid_time\<rparr>\<rparr>"

section \<open>Pipeline\<close>

text \<open>\<open>gst_element_set_state()\<close> on a null pointer returns a failure.\<close>
definition set_stream_state ::
  "('w, 'z) streamer_env_scheme \<Rightarrow> gst_state \<Rightarrow> 'w streamer \<Rightarrow> bool \<times> 'w streamer" where
  "set_stream_state E next_state s =
     (case pipeline (pl s) of
        None \<Rightarrow> (False, s)
      | Some p \<Rightarrow>
          (case gst_element_set_state E p next_state (world s) of (ret, w) \<Rightarrow>
             (case ret of
                CHANGE_SUCCESS \<Rightarrow> True | CHANGE_ASYNC \<Rightarrow> True | CHANGE_NO_PREROLL \<Rightarrow> True
              | CHANGE_FAILURE \<Rightarrow> False, set_world w s)))"

text \<open>\<open>GST_STATE()\<close> and its relatives dereference the pipeline.\<close>
definition pipeline_state ::
  "(pipeline_id \<Rightarrow> 'w \<Rightarrow> gst_state) \<Rightarrow> 'w streamer \<Rightarrow> gst_state option" where
  "pipeline_state f s = map_option (\<lambda>p. f p (world s)) (pipeline (pl s))"

text \<open>Setting a property of a null pointer does nothing.\<close>
definition set_pipeline_uri ::
  "('w, 'z) streamer_env_scheme \<Rightarrow> string \<Rightarrow> 'w streamer \<Rightarrow> 'w streamer" where
  "set_pipeline_uri E uri s =
     (case pipeline (pl s) of None \<Rightarrow> s | Some p \<Rightarrow> set_world (gst_set_uri E p uri (world s)) s)"

definition wipe_out_uri :: "('w, 'z) streamer_env_scheme \<Rightarrow> 'w streamer \<Rightarrow> 'w streamer" where
  "wipe_out_uri E s = set_pipeline_uri E [] s"

definition throttle_threads :: "'w streamer \<Rightarrow> 'w streamer" where
  "throttle_threads s =
     (case throttle (threads s) of (reqs, th) \<Rightarrow> emit (Schedule reqs) (s\<lparr>threads := th\<rparr>))"

definition boost_threads :: "'w streamer \<Rightarrow> 'w streamer" where
  "boost_threads s =
     (case boost (threads s) of (reqs, th) \<Rightarrow> emit (Schedule reqs) (s\<lparr>threads := th\<rparr>))"

definition disconnect_playbin_signals :: "('w, 'z) streamer_env_scheme \<Rightarrow> 'w streamer \<Rightarrow> 'w streamer" where
  "disconnect_playbin_signals E s =
     (case pipeline (pl s) of
        None \<Rightarrow> s
      | Some p \<Rightarrow>
          (set_world (fold (g_signal_handler_disconnect E p) (signal_handler_ids (pl s)) (world s)) s)
            \<lparr>pl := (pl s)\<lparr>signal_handler_ids := []\<rparr>\<rparr>)"

definition teardown_playbin :: "('w, 'z) streamer_env_scheme \<Rightarrow> 'w streamer \<Rightarrow> 'w streamer" where
  "teardown_playbin E s =
     (case pipeline (pl s) of
        None \<Rightarrow> s
      | Some p \<Rightarrow>
          (set_world (gst_object_unref E p (g_source_remove E (bus_watch (pl s)) (world s))) s)
            \<lparr>pl := (pl s)\<lparr>bus_watch := 0, pipeline := None\<rparr>\<rparr>)"

text \<open>
  \<open>gst_configure_playbin\<close> stands for the calls that set the sync handler (if asked for), the
  flags and the audio sink (if a device is given).  The result is false if there is no playbin.
\<close>
definition create_playbin :: "('w, 'z) streamer_env_scheme \<Rightarrow> 'w streamer \<Rightarrow> (bool \<times> 'w streamer) option" where
  "create_playbin E s =
     (case gst_make_playbin E (world s) of
        (None, w1) \<Rightarrow> Some (False, (set_world w1 s)\<lparr>pl := (pl s)\<lparr>pipeline := None, bus_watch := 0\<rparr>\<rparr>)
      | (Some p, w1) \<Rightarrow>
          (case gst_bus_add_watch E p w1 of (watch, w2) \<Rightarrow>
             let w3 = gst_configure_playbin E p (boost_streaming_thread s) (force_alsa_device s) w2
             in if signal_handler_ids (pl s) \<noteq> [] then None
                else
                  (case g_signal_connect E p ''about-to-finish'' w3 of (id1, w4) \<Rightarrow>
                   case (if 0 < soup_http_block_size s
                         then case g_signal_connect E p ''source-setup'' w4 of (id2, w5) \<Rightarrow> ([id1, id2], w5)
                         else ([id1], w4)) of (ids, w6) \<Rightarrow>
                     Some (True,
                       snd (set_stream_state E GST_STATE_READY
                         ((set_world w6 s)\<lparr>pl := (pl s)\<lparr>pipeline := Some p, bus_watch := watch,
                            signal_handler_ids := ids\<rparr>\<rparr>))))))"

definition rebuild_playbin :: "('w, 'z) streamer_env_scheme \<Rightarrow> 'w streamer \<Rightarrow> (bool \<times> 'w streamer) option" where
  "rebuild_playbin E s =
     create_playbin E (teardown_playbin E (snd (set_stream_state E GST_STATE_NULL
       (disconnect_playbin_signals E (throttle_threads s)))))"

section \<open>Arrays of stream identifiers\<close>

definition mk_id_array :: "item list \<Rightarrow> stream_id set \<Rightarrow> id_array" where
  "mk_id_array input dropped_ids =
     (if input = [] \<and> dropped_ids = {} then ([], {})
      else (map item_id input, dropped_ids - set (map item_id input)))"

definition mk_id_array_from_queued_items :: "'w streamer \<Rightarrow> id_array" where
  "mk_id_array_from_queued_items s = mk_id_array (queue (fifo s)) {}"

definition mk_id_array_from_dropped_items :: "'w streamer \<Rightarrow> id_array \<times> 'w streamer" where
  "mk_id_array_from_dropped_items s =
     (let (rem, q1) = get_removed (fifo s); (drp, q2) = get_dropped q1
      in (mk_id_array rem drp, s\<lparr>fifo := q2\<rparr>))"

section \<open>Stopping\<close>

text \<open>What both messages about stopping do first.\<close>
definition enter_stopped :: "('w, 'z) streamer_env_scheme \<Rightarrow> 'w streamer \<Rightarrow> 'w streamer" where
  "enter_stopped E s =
     wipe_out_uri E (throttle_threads
       (s\<lparr>ctl := (ctl s)\<lparr>supposed_play_status := STOPPED\<rparr>,
          pl := (pl s)\<lparr>stream_buffering_data := buffering_reset (stream_buffering_data (pl s))\<rparr>\<rparr>))"

definition emit_stopped :: "('w, 'z) streamer_env_scheme \<Rightarrow> 'w streamer \<Rightarrow> 'w streamer" where
  "emit_stopped E s =
     (case mk_id_array_from_dropped_items (enter_stopped E s) of (ids, s1) \<Rightarrow>
        if current_stream (pl s1) = None \<and> ids = ([], {}) then s1
        else emit (Stopped (case current_stream (pl s1) of Some it \<Rightarrow> item_id it | None \<Rightarrow> 0) ids) s1)"

definition emit_stopped_with_error ::
  "('w, 'z) streamer_env_scheme \<Rightarrow> reason \<Rightarrow> item option \<Rightarrow> 'w streamer \<Rightarrow> 'w streamer option" where
  "emit_stopped_with_error E r failed_stream s =
     (case mk_id_array_from_dropped_items (enter_stopped E s) of (ids, s1) \<Rightarrow>
        case failed_stream of
          None \<Rightarrow> Some (emit (StoppedWithError 0 [] (q_size (fifo s1) = 0) ids (as_string r)) s1)
        | Some it \<Rightarrow>
            do { url \<leftarrow> get_url_for_reporting it;
                 Some (emit (StoppedWithError (item_id it) url (q_size (fifo s1) = 0) ids (as_string r)) s1) })"

definition do_stop_pipeline_and_recover_from_error ::
  "('w, 'z) streamer_env_scheme \<Rightarrow> 'w streamer \<Rightarrow> 'w streamer option" where
  "do_stop_pipeline_and_recover_from_error E s =
     do { (_, s1) \<leftarrow> rebuild_playbin E s;
          let s2 = (if clear_fifo_on_error (details (fd s1)) then s1\<lparr>fifo := snd (clear 0 (fifo s1))\<rparr> else s1);
          let s3 = invalidate_previous_time s2;
          s4 \<leftarrow> emit_stopped_with_error E (fail_reason (details (fd s3))) (current_stream (pl s3))
                  (s3\<lparr>pl := (pl s3)\<lparr>current_stream := None\<rparr>\<rparr>);
          Some (s4\<lparr>pl := (pl s4)\<lparr>stream_has_just_started := False, next_stream_request := NOT_REQUESTED\<rparr>,
                   fd := failure_reset (fd s4)\<rparr>) }"

definition do_error_recovery ::
  "('w, 'z) streamer_env_scheme \<Rightarrow> reason \<Rightarrow> 'w streamer \<Rightarrow> 'w streamer option" where
  "do_error_recovery E r s =
     do_stop_pipeline_and_recover_from_error E
       (s\<lparr>pl := (pl s)\<lparr>next_stream_request := NOT_REQUESTED\<rparr>, fd := failure_fail r False (fd s)\<rparr>)"

definition recover_from_error_now_or_later ::
  "('w, 'z) streamer_env_scheme \<Rightarrow> failure_details \<Rightarrow> 'w streamer \<Rightarrow> 'w streamer option" where
  "recover_from_error_now_or_later E d s =
     (if \<not> report_on_stream_stop d then do_error_recovery E (fail_reason d) s
      else Some (s\<lparr>fd := (fd s)\<lparr>details := d\<rparr>\<rparr>))"

definition rebuild_playbin_for_workarounds ::
  "('w, 'z) streamer_env_scheme \<Rightarrow> 'w streamer \<Rightarrow> 'w streamer option" where
  "rebuild_playbin_for_workarounds E s =
     do { (_, s1) \<leftarrow> rebuild_playbin E s;
          Some (invalidate_previous_time (invalidate_current_time
            (s1\<lparr>pl := (pl s1)\<lparr>current_stream_protected_once := True, stream_has_just_started := False,
                  next_stream_request := NOT_REQUESTED,
                  stream_buffering_data := buffering_reset (stream_buffering_data (pl s1))\<rparr>,
                fd := failure_reset (fd s1)\<rparr>))) }"

section \<open>The next item\<close>

text \<open>The item returned, if any, and the out parameter \<open>next_stream_is_in_fifo\<close>.\<close>
definition pick_next_item :: "'w streamer \<Rightarrow> item_ref option \<times> bool" where
  "pick_next_item s =
     (let from_fifo = (if peek (fifo s) = None then (None, False) else (Some FifoHead, True))
      in case current_stream (pl s) of
           None \<Rightarrow> from_fifo
         | Some it \<Rightarrow>
             (case item_state it of
                IN_QUEUE \<Rightarrow> (Some CurrentItem, False)
              | ABOUT_TO_ACTIVATE \<Rightarrow> (Some CurrentItem, False)
              | ACTIVE_HALF_PLAYING \<Rightarrow> (Some CurrentItem, False)
              | ACTIVE_NOW_PLAYING \<Rightarrow> from_fifo
              | ABOUT_TO_PHASE_OUT \<Rightarrow> from_fifo
              | ABOUT_TO_BE_SKIPPED \<Rightarrow> from_fifo))"

text \<open>\<open>pop()\<close> into \<open>current_stream_\<close>, which is left alone if the queue is empty.\<close>
definition pop_current :: "'w streamer \<Rightarrow> bool \<times> 'w streamer" where
  "pop_current s =
     (case pop (fifo s) of
        (None, q) \<Rightarrow> (False, s\<lparr>fifo := q\<rparr>)
      | (Some it, q) \<Rightarrow> (True, s\<lparr>fifo := q, pl := (pl s)\<lparr>current_stream := Some it\<rparr>\<rparr>))"

text \<open>\<open>current_stream_->fail()\<close> and, if it was the first failure, recovery with the given details.\<close>
definition fail_current ::
  "('w, 'z) streamer_env_scheme \<Rightarrow> failure_details \<Rightarrow> 'w streamer \<Rightarrow> 'w streamer option" where
  "fail_current E d s =
     (case current_stream (pl s) of
        None \<Rightarrow> Some s
      | Some it \<Rightarrow>
          (case item_fail it of (first, it1) \<Rightarrow>
             let s1 = put_item CurrentItem it1 s
             in if first then recover_from_error_now_or_later E d s1 else Some s1))"

text \<open>
  \<open>try_take_next()\<close>: the item returned, \<open>replaced_current_stream\<close>,
  \<open>current_stream_is_just_in_queue\<close>, and the new state.
\<close>
definition try_take_next ::
  "('w, 'z) streamer_env_scheme \<Rightarrow> bool \<Rightarrow> 'w streamer
     \<Rightarrow> (item_ref option \<times> bool \<times> bool \<times> 'w streamer) option" where
  "try_take_next E is_queued_item_expected s =
     (let failed = (\<lambda>r.
            let d = (failure_details_of_report (current_stream (pl s) \<noteq> None))\<lparr>fail_reason := r\<rparr>;
                replaced = (current_stream (pl s) \<noteq> None)
            in if replaced \<or> peek (fifo s) \<noteq> None
               then do { let s1 = (if replaced then snd (pop_current s)
                                   else s\<lparr>fifo := snd (pop_drop (fifo s))\<rparr>);
                         s2 \<leftarrow> fail_current E d s1;
                         Some (None, replaced, False, s2) }
               else do { s2 \<leftarrow> do_error_recovery E r s; Some (None, False, False, s2) })
      in case pick_next_item s of
           (None, in_fifo) \<Rightarrow>
             if \<not> is_queued_item_expected then Some (None, in_fifo, False, s) else failed QUEUE_EMPTY
         | (Some nxt, in_fifo) \<Rightarrow>
             do { it \<leftarrow> get_item nxt s;
                  if item_empty it then failed URL_MISSING
                  else let s1 = (if in_fifo then snd (pop_current s) else s);
                           just_queued = (case current_stream (pl s1) of
                              Some cur \<Rightarrow> item_state cur = IN_QUEUE | None \<Rightarrow> False)
                       in Some (Some CurrentItem, in_fifo, just_queued, s1) })"

section \<open>Buffer underruns\<close>

definition set_buffering :: "buffering_data \<Rightarrow> 'w streamer \<Rightarrow> 'w streamer" where
  "set_buffering d s = s\<lparr>pl := (pl s)\<lparr>stream_buffering_data := d\<rparr>\<rparr>"

text \<open>The first switch of the function does nothing but log a failure to get the state.\<close>
definition handle_buffer_underrun ::
  "('w, 'z) streamer_env_scheme \<Rightarrow> 'w streamer \<Rightarrow> 'w streamer option" where
  "handle_buffer_underrun E s =
     (if is_buffering (stream_buffering_data (pl s)) then Some s
      else do {
        p \<leftarrow> pipeline (pl s);
        let (_, cur_state, _) = gst_element_get_state E p (world s);
        let next_state = gst_target_state E p (world s);
        Some (case next_state of
            GST_STATE_PLAYING \<Rightarrow>
              (let s1 = (if cur_state \<noteq> GST_STATE_PAUSED
                         then snd (set_stream_state E GST_STATE_PAUSED s) else s);
                   s2 = throttle_threads s1
               in set_buffering (start_buffering
                    (if cur_state = GST_STATE_PAUSED then PAUSED_FOR_BUFFERING else PAUSED_PENDING)
                    (stream_buffering_data (pl s2))) s2)
          | GST_STATE_PAUSED \<Rightarrow>
              (let s2 = throttle_threads s
               in set_buffering (start_buffering
                    (if cur_state = GST_STATE_PAUSED then PAUSED_PIGGYBACK else PAUSED_PENDING)
                    (stream_buffering_data (pl s2))) s2)
          | GST_STATE_VOID_PENDING \<Rightarrow> s
          | GST_STATE_NULL \<Rightarrow> s
          | GST_STATE_READY \<Rightarrow> s) })"

definition do_encourage_buffering ::
  "('w, 'z) streamer_env_scheme \<Rightarrow> 'w streamer \<Rightarrow> 'w streamer option" where
  "do_encourage_buffering E s =
     do { it \<leftarrow> current_stream (pl s);
          if is_network_stream it
          then handle_buffer_underrun E
                 (set_buffering (snd (set_buffer_level 0 (stream_buffering_data (pl s)))) s)
          else Some s }"

section \<open>Resolving links and playing URIs\<close>

text \<open>The last part of \<open>on_link_resolved()\<close>, which starts the pipeline.\<close>
definition start_resolved ::
  "('w, 'z) streamer_env_scheme \<Rightarrow> gst_state \<Rightarrow> 'w streamer \<Rightarrow> (bool \<times> 'w streamer) option" where
  "start_resolved E next_state s =
     (case set_stream_state E next_state s of (ok, s1) \<Rightarrow>
        if ok then do { s2 \<leftarrow> do_encourage_buffering E (invalidate_previous_time s1); Some (True, s2) }
        else Some (False, s1))"

definition on_link_resolved ::
  "('w, 'z) streamer_env_scheme \<Rightarrow> bool \<Rightarrow> item_ref \<Rightarrow> gst_state \<Rightarrow> bool \<Rightarrow> 'w streamer
     \<Rightarrow> (bool \<times> 'w streamer) option" where
  "on_link_resolved E pipeline_has_changed stream next_state is_prefetching s =
     (if pipeline_has_changed then Some (False, s)
      else do {
        it \<leftarrow> get_item stream s;
        uri \<leftarrow> get_url_for_playing it;
        let s1 = set_pipeline_uri E uri s;
        let s2 = s1\<lparr>pl := (pl s1)\<lparr>next_stream_request := NOT_REQUESTED\<rparr>\<rparr>;
        if is_prefetching
        then (case is_pipeline_start_required it of (required, it1) \<Rightarrow>
                let s3 = put_item stream it1 s2
                in if \<not> required then Some (True, s3)
                   else start_resolved E
                     (if next_state \<noteq> GST_STATE_PLAYING \<and> next_state \<noteq> GST_STATE_PAUSED
                      then GST_STATE_PLAYING else next_state) s3)
        else start_resolved E next_state s2 })"

text \<open>
  \<open>resolver_begin()\<close>: an active resolver is aborted, a new call is made and sent.  The result is
  the reference of the new call and, if it was answered at once, the state of which the context is
  to be notified (the call's function \<open>fast_path\<close> up to \<open>notify()\<close>).
\<close>
definition resolver_begin ::
  "('w, 'z) streamer_env_scheme \<Rightarrow> item_ref \<Rightarrow> resolve_context \<Rightarrow> 'w streamer
     \<Rightarrow> (call_ref \<times> call_state option \<times> 'w streamer) option" where
  "resolver_begin E stream ctx s =
     do { it \<leftarrow> get_item stream s;
          r0 \<leftarrow> (case resolver it of
                  None \<Rightarrow> Some (rnfs s)
                | Some old \<Rightarrow> map_option snd (call_abort_request E old (rnfs s)));
          url \<leftarrow> get_url_for_reporting it;
          let i = length (calls r0);
          let r1 = r0\<lparr>calls := calls r0 @ [new_call E url ctx]\<rparr>;
          let s1 = put_item stream (it\<lparr>resolver := Some i\<rparr>) (s\<lparr>rnfs := r1\<rparr>);
          (act, r2) \<leftarrow> cookie_request E i (rnfs s1);
          case act of
            FastPath \<Rightarrow> do { (st, r3) \<leftarrow> fetch_and_notify E i r2; Some (i, st, s1\<lparr>rnfs := r3\<rparr>) }
          | _ \<Rightarrow> Some (i, None, s1\<lparr>rnfs := r2\<rparr>) }"

text \<open>The item that \<open>ResolveAirableRedirectContext::notify()\<close> finds for its stream identifier.\<close>
definition find_resolved_item :: "stream_id \<Rightarrow> 'w streamer \<Rightarrow> item_ref option" where
  "find_resolved_item sid s =
     (let from_fifo = (case peek (fifo s) of
          Some it \<Rightarrow> if item_id it \<noteq> sid then None else Some FifoHead
        | None \<Rightarrow> None)
      in case current_stream (pl s) of
           Some it \<Rightarrow> if item_id it = sid then Some CurrentItem else from_fifo
         | None \<Rightarrow> from_fifo)"

text \<open>
  How the resolver's result gets into the item.  An exception that is not a \<open>std::exception\<close>
  leaves \<open>notify()\<close>; it is not possible in the state \<open>RESULT_FETCHED\<close>, and \<open>None\<close> here.
\<close>
definition finish_resolver ::
  "('w, 'z) streamer_env_scheme \<Rightarrow> call_ref \<Rightarrow> call_state \<Rightarrow> item_ref \<Rightarrow> 'w streamer
     \<Rightarrow> (resolver_result \<times> 'w streamer) option" where
  "finish_resolver E i st ref s =
     do { it \<leftarrow> get_item ref s;
          let now = timebase_now E (world s);
          let broken = (\<lambda>s1. do { (res, it1) \<leftarrow> resolver_finish_state now URL_BROKEN it;
                                   Some (res, put_item ref it1 s1) });
          case st of
            RESULT_FETCHED \<Rightarrow>
              do { c \<leftarrow> get_call i (rnfs s);
                   (result, c1) \<leftarrow> get_result_unlocked (rnf c);
                   let s1 = s\<lparr>rnfs := update_rnf i (\<lambda>_. c1) (rnfs s)\<rparr>;
                   case result of
                     Inr r \<Rightarrow>
                       do { (res, it1) \<leftarrow> resolver_finish_uri now (rr_url r) (rr_expected_valid r) it;
                            Some (res, put_item ref it1 s1) }
                   | Inl (ListException _) \<Rightarrow> None
                   | Inl _ \<Rightarrow> broken s1 }
          | _ \<Rightarrow> broken s }"

text \<open>
  \<open>ResolveAirableRedirectContext::notify()\<close> up to its call of
  \<open>resolve_selected_url_or_play_uri()\<close>: the item that is to be resolved further, if any.
\<close>
definition notify_resolved ::
  "('w, 'z) streamer_env_scheme \<Rightarrow> call_ref \<Rightarrow> call_state \<Rightarrow> 'w streamer
     \<Rightarrow> (item_ref option \<times> 'w streamer) option" where
  "notify_resolved E i st s =
     (if st \<in> {INITIALIZED, WAIT_FOR_NOTIFICATION, READY_TO_FETCH, ABOUT_TO_DESTROY} then Some (None, s)
      else do {
        c \<leftarrow> get_call i (rnfs s);
        let ctx = context_data c;
        case find_resolved_item (rctx_stream_id ctx) s of
          None \<Rightarrow> Some (None, s)
        | Some ref \<Rightarrow>
            do { (res, s1) \<leftarrow> finish_resolver E i st ref s;
                 case res of
                   RESOLVED \<Rightarrow>
                     do { (_, s2) \<leftarrow> on_link_resolved E False ref (rctx_next_state ctx) (rctx_prefetching ctx) s1;
                          Some (None, s2) }
                 | HAVE_MORE_URLS \<Rightarrow>
                     do { it \<leftarrow> get_item ref s1;
                          (more, it1) \<leftarrow> select_next_url (timebase_now E (world s1)) it;
                          Some (if more then Some ref else None, put_item ref it1 s1) }
                 | RESOLVER_FAILED \<Rightarrow> Some (None, s1) } })"

text \<open>
  \<open>resolve_selected_url_or_play_uri()\<close> and \<open>notify()\<close> call each other when a link is answered at
  once.  The first argument bounds the depth of this recursion; every level moves an item on to its
  next URL, so the number of URLs that are left is enough.
\<close>
fun resolve_selected_url ::
  "nat \<Rightarrow> ('w, 'z) streamer_env_scheme \<Rightarrow> bool \<Rightarrow> item_ref \<Rightarrow> gst_state \<Rightarrow> bool \<Rightarrow> 'w streamer
     \<Rightarrow> (bool \<times> 'w streamer) option" where
  "resolve_selected_url 0 E pipeline_has_changed stream next_state is_prefetching s = None"
| "resolve_selected_url (Suc n) E pipeline_has_changed stream next_state is_prefetching s =
     do { it \<leftarrow> get_item stream s;
          _ \<leftarrow> get_url_for_playing it;
          st \<leftarrow> get_selected_url_state it;
          case st of
            KNOWN_AIRABLE_LINK \<Rightarrow>
              do { (i, notified, s1) \<leftarrow> resolver_begin E stream
                     \<lparr>rctx_stream_id = item_id it, rctx_next_state = next_state,
                      rctx_prefetching = is_prefetching\<rparr> s;
                   case notified of
                     None \<Rightarrow> Some (True, s1)
                   | Some cst \<Rightarrow>
                       do { (again, s2) \<leftarrow> notify_resolved E i cst s1;
                            case again of
                              None \<Rightarrow> Some (True, s2)
                            | Some ref \<Rightarrow>
                                do { (_, s3) \<leftarrow> resolve_selected_url n E False ref next_state is_prefetching s2;
                                     Some (True, s3) } } }
          | RESOLVING_LINK \<Rightarrow> Some (True, s)
          | URL_BROKEN \<Rightarrow> Some (False, s)
          | KNOWN_DIRECT_URL \<Rightarrow> on_link_resolved E pipeline_has_changed stream next_state is_prefetching s
          | KNOWN_RESOLVED_URL \<Rightarrow> on_link_resolved E pipeline_has_changed stream next_state is_prefetching s }"

definition resolver_rank :: "'w streamer \<Rightarrow> nat" where
  "resolver_rank s = (case current_stream (pl s) of None \<Rightarrow> 0 | Some it \<Rightarrow> urls_left it)
     + (case peek (fifo s) of None \<Rightarrow> 0 | Some it \<Rightarrow> urls_left it)"

definition resolve_selected_url_or_play_uri ::
  "('w, 'z) streamer_env_scheme \<Rightarrow> bool \<Rightarrow> item_ref \<Rightarrow> gst_state \<Rightarrow> bool \<Rightarrow> 'w streamer
     \<Rightarrow> (bool \<times> 'w streamer) option" where
  "resolve_selected_url_or_play_uri E pipeline_has_changed stream next_state is_prefetching s =
     resolve_selected_url (Suc (resolver_rank s)) E pipeline_has_changed stream next_state is_prefetching s"

text \<open>\<open>notify()\<close> as called for a signal of the list broker.\<close>
definition context_notify ::
  "('w, 'z) streamer_env_scheme \<Rightarrow> call_ref \<Rightarrow> call_state \<Rightarrow> 'w streamer \<Rightarrow> 'w streamer option" where
  "context_notify E i st s =
     do { (again, s1) \<leftarrow> notify_resolved E i st s;
          case again of
            None \<Rightarrow> Some s1
          | Some ref \<Rightarrow>
              do { c \<leftarrow> get_call i (rnfs s1);
                   (_, s2) \<leftarrow> resolve_selected_url_or_play_uri E False ref
                     (rctx_next_state (context_data c)) (rctx_prefetching (context_data c)) s1;
                   Some s2 } }"

section \<open>Playing the next item\<close>

text \<open>\<open>play_next_stream()\<close>; \<open>replaced_stream\<close> is the null pointer or a pointer to an item.\<close>
definition play_next_stream ::
  "('w, 'z) streamer_env_scheme \<Rightarrow> bool \<Rightarrow> item_ref option \<Rightarrow> item_ref \<Rightarrow> gst_state \<Rightarrow> bool \<Rightarrow> bool
     \<Rightarrow> 'w streamer \<Rightarrow> (bool \<times> 'w streamer) option" where
  "play_next_stream E pipeline_has_changed replaced_stream nxt next_state is_skipping is_prefetching s =
     (if pipeline_has_changed then None
      else do {
        it \<leftarrow> get_item nxt s;
        case item_state it of
          IN_QUEUE \<Rightarrow>
            (let s1 = update_item nxt (set_item_state ABOUT_TO_ACTIVATE) s;
                 s2 = (case replaced_stream of
                         None \<Rightarrow> s1
                       | Some ref \<Rightarrow> update_item ref (set_item_state
                           (if is_skipping then ABOUT_TO_BE_SKIPPED else ABOUT_TO_PHASE_OUT)) s1)
             in resolve_selected_url_or_play_uri E pipeline_has_changed nxt next_state is_prefetching s2)
        | ABOUT_TO_ACTIVATE \<Rightarrow>
            Some (True,
              if replaced_stream = None \<and> next_stream_request (pl s) = REQUESTED
              then s\<lparr>pl := (pl s)\<lparr>next_stream_request := REQUEST_DEFERRED\<rparr>\<rparr> else s)
        | _ \<Rightarrow> Some (False, s) })"

text \<open>\<open>queue_stream_from_url_fifo__unlocked()\<close>.\<close>
definition queue_stream_from_url_fifo_unlocked ::
  "('w, 'z) streamer_env_scheme \<Rightarrow> bool \<Rightarrow> 'w streamer \<Rightarrow> 'w streamer option" where
  "queue_stream_from_url_fifo_unlocked E pipeline_has_changed s =
     (if pipeline_has_changed then None
      else case pick_next_item s of
             (None, _) \<Rightarrow>
               (if current_stream (pl s) = None then Some s
                else Some (update_item CurrentItem (set_item_state ABOUT_TO_PHASE_OUT) s))
           | (Some nxt, is_next_in_fifo) \<Rightarrow>
               map_option snd (play_next_stream E pipeline_has_changed
                 (if is_next_in_fifo then None
                  else if current_stream (pl s) = None then None else Some CurrentItem)
                 nxt GST_STATE_NULL False True s))"

definition try_play_next_stream ::
  "('w, 'z) streamer_env_scheme \<Rightarrow> bool \<Rightarrow> gst_state \<Rightarrow> 'w streamer \<Rightarrow> 'w streamer option" where
  "try_play_next_stream E pipeline_has_changed next_state s =
     do { (nxt, is_next_current, is_just_queued, s1) \<leftarrow> try_take_next E True s;
          case nxt of
            None \<Rightarrow> Some s1
          | Some ref \<Rightarrow>
              if is_next_current \<or> is_just_queued
              then map_option snd (play_next_stream E pipeline_has_changed None ref next_state False False s1)
              else Some s1 }"

end
