(* ===== verification/Streamer_Handlers.thy ===== *)
theory Streamer_Handlers
  imports Streamer_Core
begin

text \<open>
  The callbacks of \<^verbatim>\<open>src/streamer.cc\<close>: the handlers of GStreamer bus messages, the signal
  \<^verbatim>\<open>about-to-finish\<close>, the timers, and the signals of the list broker.

  A handler gets what it reads from its message as arguments.  \<open>None\<close> is a crash.
\<close>

section \<open>About to finish, end of stream\<close>

definition queue_stream_from_url_fifo ::
  "('w, 'z) streamer_env_scheme \<Rightarrow> pipeline_id \<Rightarrow> 'w streamer \<Rightarrow> 'w streamer option" where
  "queue_stream_from_url_fifo E elem s =
     (if \<not> pipeline_is_current (SrcPipeline elem) s then Some s
      else queue_stream_from_url_fifo_unlocked E False
             (s\<lparr>pl := (pl s)\<lparr>next_stream_request := REQUESTED\<rparr>\<rparr>))"

text \<open>The body of the lambda run under the queue's lock: whether a restart is required now.\<close>
definition end_of_stream_queue ::
  "('w, 'z) streamer_env_scheme \<Rightarrow> 'w streamer \<Rightarrow> (bool \<times> 'w streamer) option" where
  "end_of_stream_queue E s =
     (case peek (fifo s) of
        None \<Rightarrow> Some (False, emit_stopped E s)
      | Some it \<Rightarrow>
          do { (required, it1) \<leftarrow> pipeline_start_required_when_ready it;
               let s1 = put_item FifoHead it1 s;
               Some (case required of
                       NOT_REQUIRED \<Rightarrow> (False, emit_stopped E s1)
                     | START_NOW \<Rightarrow> (True, s1)
                     | WHEN_READY \<Rightarrow> (False, s1)) })"

definition handle_end_of_stream ::
  "('w, 'z) streamer_env_scheme \<Rightarrow> message_source \<Rightarrow> 'w streamer \<Rightarrow> 'w streamer option" where
  "handle_end_of_stream E src s =
     (if \<not> pipeline_is_current src s then Some s
      else do {
        (restart_required_now, s1) \<leftarrow> end_of_stream_queue E (snd (set_stream_state E GST_STATE_READY s));
        let s2 = wipe_out_uri E (s1\<lparr>pl := (pl s1)\<lparr>current_stream := None\<rparr>\<rparr>);
        Some (if restart_required_now then emit IdleRestart s2 else s2) })"

section \<open>Tags\<close>

definition emit_tags_unlocked ::
  "('w, 'z) streamer_env_scheme \<Rightarrow> 'w streamer \<Rightarrow> 'w streamer option" where
  "emit_tags_unlocked E s =
     do { it \<leftarrow> current_stream (pl s);
          let sd = item_stream_data it;
          let meta_data = tag_list_to_g_variant (sd_tag_list sd) (extra_tag_list sd);
          let (ok, u) = try_emit_for_stream_id (STREAM_ID_SOURCE_INVALID E) (item_id it) (md_update (pr s));
          Some (if ok
                then emit (MetaDataChanged (item_id it) meta_data)
                       (s\<lparr>pr := (pr s)\<lparr>md_update := emitted_tags_timed (gst_clock_get_time E (world s)) u\<rparr>\<rparr>)
                else s\<lparr>pr := (pr s)\<lparr>md_update := u\<rparr>\<rparr>) }"

definition timed_emit_tags ::
  "('w, 'z) streamer_env_scheme \<Rightarrow> 'w streamer \<Rightarrow> 'w streamer option" where
  "timed_emit_tags E s =
     (case timer_activated (md_update (pr s)) of (active, u) \<Rightarrow>
        let s1 = s\<lparr>pr := (pr s)\<lparr>md_update := u\<rparr>\<rparr>
        in if \<not> active then Some s1
           else if current_stream (pl s1) \<noteq> None then emit_tags_unlocked E s1
           else Some (s1\<lparr>pr := (pr s1)\<lparr>md_update := emitted_nothing_timed u\<rparr>\<rparr>))"

text \<open>The source of the message plays no part: the handler does not look whether the pipeline has
  been replaced.\<close>
definition handle_tag ::
  "('w, 'z) streamer_env_scheme \<Rightarrow> tag_list \<Rightarrow> 'w streamer \<Rightarrow> 'w streamer option" where
  "handle_tag E tags s =
     (case current_stream (pl s) of
        None \<Rightarrow> Some s
      | Some it \<Rightarrow>
          (case update_picture_for_item (Some tags) (item_stream_data it) of (sent, sd) \<Rightarrow>
             let s1 = put_item CurrentItem
                        (it\<lparr>item_stream_data := merge_tag_list (tags_env E) (Some tags) sd\<rparr>)
                        (s\<lparr>trace := trace s @ map (\<lambda>(k, p, a, n). AddImageByData k p a n) sent\<rparr>)
             in case try_emit_tags (gst_clock_get_time E (world s1)) (md_update (pr s1)) of
                  (now, timer, u) \<Rightarrow>
                    let s2 = s1\<lparr>pr := (pr s1)\<lparr>md_update := u\<rparr>\<rparr>;
                        s3 = (case timer of None \<Rightarrow> s2 | Some ms \<Rightarrow> emit (TagTimer ms) s2)
                    in if now then emit_tags_unlocked E s3 else Some s3))"

definition emit_now_playing ::
  "('w, 'z) streamer_env_scheme \<Rightarrow> 'w streamer \<Rightarrow> 'w streamer option" where
  "emit_now_playing E s =
     (case current_stream (pl s) of
        None \<Rightarrow> Some s
      | Some it \<Rightarrow>
          (let sd = item_stream_data it;
               meta_data = tag_list_to_g_variant (sd_tag_list sd) (extra_tag_list sd)
           in case mk_id_array_from_dropped_items s of (ids, s1) \<Rightarrow>
                do { url \<leftarrow> get_url_for_reporting it;
                     let s2 = emit (NowPlaying (item_id it) (stream_key sd) url (q_full (fifo s1)) ids meta_data) s1;
                     Some (s2\<lparr>pr := (pr s2)\<lparr>md_update := emitted_tags_now_playing
                        (gst_clock_get_time E (world s2)) (item_id it) (md_update (pr s2))\<rparr>\<rparr>) }))"

section \<open>Errors\<close>

text \<open>The URI property is a C string that may be null.\<close>
definition determine_failed_stream ::
  "string option \<Rightarrow> 'w streamer \<Rightarrow> which_stream_failed option" where
  "determine_failed_stream current_uri s =
     (let uri_empty = (current_uri = None \<or> current_uri = Some []);
          look_at_next = (case peek (fifo s) of
              None \<Rightarrow> Some FAILED_UNKNOWN
            | Some nxt \<Rightarrow> do { u \<leftarrow> get_url_for_playing nxt;
                               Some (if Some u = current_uri then FAILED_GAPLESS_NEXT else FAILED_UNKNOWN) })
      in case current_stream (pl s) of
           None \<Rightarrow> if uri_empty then Some FAILED_ALREADY_GONE else look_at_next
         | Some it \<Rightarrow>
             if has_prefailed it
             then Some (if uri_empty then FAILED_GAPLESS_NEXT_WITH_PREFAIL_REASON
                        else FAILED_CURRENT_WITH_PREFAIL_REASON)
             else do { u \<leftarrow> get_url_for_playing it;
                       if uri_empty then Some FAILED_UNKNOWN
                       else if Some u = current_uri then Some FAILED_CURRENT
                       else look_at_next })"

definition try_refresh_uri_or_resolve_alternative_uri ::
  "('w, 'z) streamer_env_scheme \<Rightarrow> bool \<Rightarrow> bool \<Rightarrow> 'w streamer \<Rightarrow> (bool \<times> 'w streamer) option" where
  "try_refresh_uri_or_resolve_alternative_uri E pipeline_has_changed is_prefetching s =
     (case current_stream (pl s) of
        None \<Rightarrow> Some (False, s)
      | Some it \<Rightarrow>
          if pipeline_has_changed then Some (False, s)
          else do {
            (more, it1) \<leftarrow> select_next_url (timebase_now E (world s)) it;
            let s1 = put_item CurrentItem it1 s;
            if \<not> more then Some (False, s1)
            else do {
              (_, s2) \<leftarrow> rebuild_playbin E s1;
              let s3 = update_item CurrentItem (set_item_state ABOUT_TO_ACTIVATE) s2;
              let s4 = s3\<lparr>pl := (pl s3)\<lparr>current_stream_protected_once := True\<rparr>\<rparr>;
              let pos = position_s (current_time (pr s4));
              let s5 = (if 0 < pos \<and> pos < INT64_MAX div GST_SECOND
                        then s4\<lparr>ctl := (ctl s4)\<lparr>initial_seek_position_ns := Some (pos * GST_SECOND)\<rparr>\<rparr>
                        else s4);
              resolve_selected_url_or_play_uri E pipeline_has_changed CurrentItem
                (if supposed_play_status (ctl s5) = PLAYING then GST_STATE_PLAYING else GST_STATE_PAUSED)
                is_prefetching s5 } })"

text \<open>Reasons for which trying again is worthwhile.\<close>
definition worth_a_retry :: "reason \<Rightarrow> bool" where
  "worth_a_retry r \<longleftrightarrow>
     r \<in> {NET_IO, URL_MISSING, PROTOCOL, DOES_NOT_EXIST, WRONG_TYPE, PERMISSION_DENIED, MISSING_CODEC,
          WRONG_STREAM_FORMAT, BROKEN_STREAM, ENCRYPTED, DECRYPTION_NOT_SUPPORTED}"

text \<open>The first switch of \<open>handle_error_message()\<close>: the item taken out of the queue, if any, and
  the reason.  \<open>pop()\<close> from an empty queue leaves a null pointer.\<close>
definition error_reason_and_item ::
  "gerror \<Rightarrow> which_stream_failed \<Rightarrow> 'w streamer \<Rightarrow> (reason \<times> item option \<times> 'w streamer) option" where
  "error_reason_and_item error which s =
     (let (popped, q) = pop (fifo s);
          from_error = (\<lambda>failed s1. do { it \<leftarrow> current_stream (pl s1);
                          Some (from_gerror error (\<not> is_network_stream it), failed, s1) })
      in case which of
           FAILED_GAPLESS_NEXT \<Rightarrow> from_error popped (s\<lparr>fifo := q\<rparr>)
         | FAILED_CURRENT \<Rightarrow> from_error None s
         | FAILED_CURRENT_WITH_PREFAIL_REASON \<Rightarrow>
             do { it \<leftarrow> current_stream (pl s); Some (prefail_reason it, None, s) }
         | FAILED_GAPLESS_NEXT_WITH_PREFAIL_REASON \<Rightarrow>
             do { it \<leftarrow> popped; Some (prefail_reason it, popped, s\<lparr>fifo := q\<rparr>) }
         | FAILED_ALREADY_GONE \<Rightarrow> Some (REASON_UNKNOWN, None, s)
         | FAILED_UNKNOWN \<Rightarrow> Some (REASON_UNKNOWN, None, s))"

text \<open>The last switch, for a failed item that was going to be played gaplessly.\<close>
definition fail_gapless_next ::
  "('w, 'z) streamer_env_scheme \<Rightarrow> reason \<Rightarrow> item option \<Rightarrow> 'w streamer \<Rightarrow> 'w streamer option" where
  "fail_gapless_next E r failed_item s =
     do { let s1 = (case current_stream (pl s) of
                      None \<Rightarrow> s | Some it \<Rightarrow> s\<lparr>fifo := mark_as_dropped (item_id it) (fifo s)\<rparr>);
          failed \<leftarrow> failed_item;
          let (first, failed1) = item_fail failed;
          if \<not> first then Some s1
          else do {
            let s2 = invalidate_previous_time (snd (set_stream_state E GST_STATE_NULL s1));
            s3 \<leftarrow> emit_stopped_with_error E r (Some failed1) s2;
            Some (s3\<lparr>fd := failure_reset (fd s3),
                     pl := (pl s3)\<lparr>stream_has_just_started := False, next_stream_request := NOT_REQUESTED,
                                   current_stream := None\<rparr>\<rparr>) } }"

definition handle_error_message ::
  "('w, 'z) streamer_env_scheme \<Rightarrow> message_source \<Rightarrow> gerror \<Rightarrow> 'w streamer \<Rightarrow> 'w streamer option" where
  "handle_error_message E src error s =
     (if \<not> pipeline_is_current src s then Some s
      else do {
        let s0 = s\<lparr>ctl := (ctl s)\<lparr>initial_seek_position_ns := None\<rparr>\<rparr>;
        let current_uri = (case pipeline (pl s0) of None \<Rightarrow> None | Some p \<Rightarrow> gst_get_current_uri E p (world s0));
        which \<leftarrow> determine_failed_stream current_uri s0;
        if which = FAILED_ALREADY_GONE \<or> which = FAILED_UNKNOWN then Some s0
        else do {
          (r, failed_item, s1) \<leftarrow> error_reason_and_item error which s0;
          let gapless = (which = FAILED_GAPLESS_NEXT \<or> which = FAILED_GAPLESS_NEXT_WITH_PREFAIL_REASON);
          (retried, s2) \<leftarrow> (if worth_a_retry r
                            then try_refresh_uri_or_resolve_alternative_uri E False gapless s1
                            else Some (False, s1));
          if retried then Some s2
          else if gapless then fail_gapless_next E r failed_item s2
          else do { _ \<leftarrow> current_stream (pl s2);
                    fail_current E (failure_details_of_reason r) s2 } } })"

section \<open>Progress\<close>

text \<open>\<open>query_seconds()\<close>, on the result of the query.\<close>
definition query_seconds :: "int option \<Rightarrow> int" where
  "query_seconds t = (case t of None \<Rightarrow> -1 | Some t_ns \<Rightarrow> if t_ns < 0 then -1 else t_ns div 1000000000)"

text \<open>The first component tells whether the timer goes on (\<open>G_SOURCE_CONTINUE\<close>).\<close>
definition report_progress_unlocked ::
  "('w, 'z) streamer_env_scheme \<Rightarrow> 'w streamer \<Rightarrow> (bool \<times> 'w streamer) option" where
  "report_progress_unlocked E s =
     (case current_stream (pl s) of
        None \<Rightarrow> Some (False, s\<lparr>pr := (pr s)\<lparr>progress_watcher := 0\<rparr>\<rparr>)
      | Some it \<Rightarrow>
          if is_buffering (stream_buffering_data (pl s)) then Some (True, s)
          else do {
            p \<leftarrow> pipeline (pl s);
            let s1 = (if gst_current_state E p (world s) \<in> {GST_STATE_PLAYING, GST_STATE_PAUSED}
                      then s\<lparr>pr := (pr s)\<lparr>current_time := (current_time (pr s))
                              \<lparr>position_s := query_seconds (gst_query_position E p (world s))\<rparr>\<rparr>\<rparr>
                      else invalidate_current_time s);
            Some (True,
              if position_s (current_time (pr s1)) \<noteq> position_s (previous_time (pr s1)) \<or>
                 duration_s (current_time (pr s1)) \<noteq> duration_s (previous_time (pr s1))
              then emit (PositionChanged (item_id it) (position_s (current_time (pr s1)))
                           (duration_s (current_time (pr s1))))
                     (s1\<lparr>pr := (pr s1)\<lparr>previous_time := current_time (pr s1)\<rparr>\<rparr>)
              else s1) })"

definition report_progress ::
  "('w, 'z) streamer_env_scheme \<Rightarrow> 'w streamer \<Rightarrow> (bool \<times> 'w streamer) option" where
  "report_progress E s = report_progress_unlocked E s"

section \<open>State changes\<close>

text \<open>\<open>activate_stream()\<close> on the current item.\<close>
definition activate_stream :: "nat \<Rightarrow> 'w streamer \<Rightarrow> activate_stream_result \<times> 'w streamer" where
  "activate_stream phase s =
     (case current_stream (pl s) of
        None \<Rightarrow> (INVALID_ITEM, s)
      | Some it \<Rightarrow>
          (case item_state it of
             ACTIVE_HALF_PLAYING \<Rightarrow>
               if phase = 0 \<or> phase = 1 then (ALREADY_ACTIVE, s)
               else if phase = 2
               then (ACTIVATED, update_item CurrentItem (set_item_state
                       (if q_empty (fifo s) then ABOUT_TO_PHASE_OUT else ACTIVE_NOW_PLAYING)) s)
               else (INVALID_STATE, s)
           | ACTIVE_NOW_PLAYING \<Rightarrow> (if phase = 0 \<or> phase = 2 then ALREADY_ACTIVE else INVALID_STATE, s)
           | ABOUT_TO_PHASE_OUT \<Rightarrow> (if phase = 0 \<or> phase = 2 then ALREADY_ACTIVE else INVALID_STATE, s)
           | IN_QUEUE \<Rightarrow> (INVALID_STATE, update_item CurrentItem (set_item_state ABOUT_TO_BE_SKIPPED) s)
           | ABOUT_TO_BE_SKIPPED \<Rightarrow> (INVALID_STATE, s)
           | ABOUT_TO_ACTIVATE \<Rightarrow>
               if phase = 0 \<or> phase = 1
               then (ACTIVATED, update_item CurrentItem (set_item_state ACTIVE_HALF_PLAYING) s)
               else if phase = 2
               then (ACTIVATED, update_item CurrentItem (set_item_state ACTIVE_NOW_PLAYING) s)
               else (INVALID_STATE, s)))"

definition try_leave_buffering_state ::
  "('w, 'z) streamer_env_scheme \<Rightarrow> 'w streamer \<Rightarrow> 'w streamer option" where
  "try_leave_buffering_state E s =
     (case try_leave_buffering (stream_buffering_data (pl s)) of (result, d) \<Rightarrow>
        let s1 = set_buffering d s
        in case result of
             STILL_BUFFERING \<Rightarrow> Some s1
           | LEAVE_NOT_BUFFERING \<Rightarrow> Some s1
           | BUFFER_FILLED \<Rightarrow>
               do { it \<leftarrow> current_stream (pl s1);
                    let s2 = (if enable_realtime_processing it then boost_threads s1 else s1);
                    case supposed_play_status (ctl s2) of
                      PLAYING \<Rightarrow> Some (snd (set_stream_state E GST_STATE_PLAYING s2))
                    | _ \<Rightarrow> if progress_watcher (pr s2) = 0
                          then map_option snd (report_progress_unlocked E s2) else Some s2 })"

definition emit_pause_state_if_not_buffering :: "bool \<Rightarrow> 'w streamer \<Rightarrow> 'w streamer option" where
  "emit_pause_state_if_not_buffering is_paused s =
     (if is_buffering (stream_buffering_data (pl s)) then Some s
      else do { it \<leftarrow> current_stream (pl s); Some (emit (PauseState (item_id it) is_paused) s) })"

definition activate_stream_and_emit_pause_state :: "bool \<Rightarrow> 'w streamer \<Rightarrow> 'w streamer option" where
  "activate_stream_and_emit_pause_state is_paused s =
     (case activate_stream 0 s of (result, s1) \<Rightarrow>
        case result of
          INVALID_ITEM \<Rightarrow> Some s1
        | INVALID_STATE \<Rightarrow> Some s1
        | ALREADY_ACTIVE \<Rightarrow> emit_pause_state_if_not_buffering is_paused s1
        | ACTIVATED \<Rightarrow> emit_pause_state_if_not_buffering is_paused s1)"

text \<open>The work-around for video decoders.\<close>
definition block_video ::
  "('w, 'z) streamer_env_scheme \<Rightarrow> gst_state \<Rightarrow> 'w streamer \<Rightarrow> 'w streamer option" where
  "block_video E st s =
     (if st \<in> {GST_STATE_PAUSED, GST_STATE_PLAYING, GST_STATE_READY}
      then case current_stream (pl s) of
             None \<Rightarrow> Some s
           | Some it \<Rightarrow>
               do { (first, it1) \<leftarrow> prefail WRONG_TYPE it;
                    let s1 = put_item CurrentItem it1 s;
                    Some (if first \<and> item_state it1 \<in> {ABOUT_TO_ACTIVATE, ACTIVE_HALF_PLAYING,
                                ACTIVE_NOW_PLAYING, ABOUT_TO_PHASE_OUT}
                          then case pipeline (pl s1) of
                                 None \<Rightarrow> s1 | Some p \<Rightarrow> set_world (gst_post_wrong_type E p (world s1)) s1
                          else s1) }
      else Some s)"

text \<open>The switch over the new state.\<close>
definition enter_pipeline_state ::
  "('w, 'z) streamer_env_scheme \<Rightarrow> gst_state \<Rightarrow> gst_state \<Rightarrow> gst_state \<Rightarrow> gst_state
     \<Rightarrow> 'w streamer \<Rightarrow> 'w streamer option" where
  "enter_pipeline_state E oldstate st pend target_state s =
     (if st = GST_STATE_NULL \<or> st = GST_STATE_READY
      then Some (if progress_watcher (pr s) \<noteq> 0
                 then (set_world (g_source_remove E (progress_watcher (pr s)) (world s)) s)
                        \<lparr>pr := (pr s)\<lparr>progress_watcher := 0\<rparr>\<rparr>
                 else s)
      else if st = GST_STATE_PAUSED \<and> (oldstate = GST_STATE_READY \<or> oldstate = GST_STATE_NULL) \<and>
              pend = GST_STATE_PLAYING
      then (let s1 = s\<lparr>pl := (pl s)\<lparr>stream_has_just_started := True\<rparr>\<rparr>
            in if target_state \<noteq> GST_STATE_PAUSED
               then Some (set_buffering (buffering_reset (stream_buffering_data (pl s1))) s1)
               else case entered_pause (stream_buffering_data (pl s1)) of (paused, d) \<Rightarrow>
                      if paused then try_leave_buffering_state E (set_buffering d s1)
                      else Some (set_buffering d s1))
      else Some s)"

text \<open>The case that the pipeline has reached the state \<open>READY\<close> as its target.\<close>
definition previous_stream_stopped ::
  "('w, 'z) streamer_env_scheme \<Rightarrow> 'w streamer \<Rightarrow> 'w streamer option" where
  "previous_stream_stopped E s =
     do { let s1 = wipe_out_uri E s;
          let leave_current = (\<lambda>s2. Some
            (let s3 = (if current_stream_protected_once (pl s2)
                       then s2\<lparr>pl := (pl s2)\<lparr>current_stream_protected_once := False\<rparr>\<rparr>
                       else case pop_current s2 of (popped, s2') \<Rightarrow>
                              if popped then s2' else s2'\<lparr>pl := (pl s2')\<lparr>current_stream := None\<rparr>\<rparr>)
             in s3\<lparr>pl := (pl s3)\<lparr>stream_has_just_started := False\<rparr>\<rparr>));
          case current_stream (pl s1) of
            None \<Rightarrow> leave_current s1
          | Some it \<Rightarrow>
              do { st \<leftarrow> get_selected_url_state it;
                   case st of
                     KNOWN_DIRECT_URL \<Rightarrow> leave_current (emit_stopped E s1)
                   | KNOWN_RESOLVED_URL \<Rightarrow> leave_current (emit_stopped E s1)
                   | KNOWN_AIRABLE_LINK \<Rightarrow> Some s1
                   | RESOLVING_LINK \<Rightarrow> Some s1
                   | URL_BROKEN \<Rightarrow> leave_current s1 } }"

text \<open>The case that the pipeline has reached the state \<open>PAUSED\<close> as its target.\<close>
definition pipeline_paused ::
  "('w, 'z) streamer_env_scheme \<Rightarrow> 'w streamer \<Rightarrow> 'w streamer option" where
  "pipeline_paused E s =
     do { s1 \<leftarrow> activate_stream_and_emit_pause_state True s;
          s2 \<leftarrow> (case entered_pause (stream_buffering_data (pl s1)) of (paused, d) \<Rightarrow>
                  if paused then try_leave_buffering_state E (set_buffering d s1)
                  else Some (set_buffering d s1));
          if progress_watcher (pr s2) = 0 then map_option snd (report_progress_unlocked E s2) else Some s2 }"

text \<open>The case that the pipeline has reached the state \<open>PLAYING\<close> as its target.\<close>
definition pipeline_playing ::
  "('w, 'z) streamer_env_scheme \<Rightarrow> 'w streamer \<Rightarrow> 'w streamer option" where
  "pipeline_playing E s =
     do { s1 \<leftarrow> (if \<not> stream_has_just_started (pl s) then activate_stream_and_emit_pause_state False s
                else emit_pause_state_if_not_buffering False s);
          let s2 = s1\<lparr>pl := (pl s1)\<lparr>stream_has_just_started := False\<rparr>\<rparr>;
          Some (if progress_watcher (pr s2) = 0
                then case g_timeout_add E 50 (world s2) of (watcher, w) \<Rightarrow>
                       (set_world w s2)\<lparr>pr := (pr s2)\<lparr>progress_watcher := watcher\<rparr>\<rparr>
                else s2) }"

text \<open>\<open>verbose\<close> tells whether trace messages are enabled.\<close>
definition handle_stream_state_change ::
  "('w, 'z) streamer_env_scheme \<Rightarrow> bool \<Rightarrow> message_source \<Rightarrow> gst_state \<Rightarrow> gst_state \<Rightarrow> gst_state
     \<Rightarrow> 'w streamer \<Rightarrow> 'w streamer option" where
  "handle_stream_state_change E verbose src oldstate st pend s =
     (if \<not> pipeline_is_current src s then Some s
      else
        let is_ours = (case src of SrcPipeline p \<Rightarrow> pipeline (pl s) = Some p | SrcElement _ \<Rightarrow> False);
            video_decoder = (case src of SrcPipeline _ \<Rightarrow> False | SrcElement v \<Rightarrow> v)
        in if \<not> video_decoder \<and> \<not> is_ours \<and> \<not> verbose then Some s
           else do {
             target_state \<leftarrow> pipeline_state (gst_target_state E) s;
             s1 \<leftarrow> (if video_decoder then block_video E st s else Some s);
             if \<not> is_ours then Some s1
             else if st = oldstate \<and> (st = GST_STATE_READY \<or> st = GST_STATE_NULL) then Some s1
             else do {
               s2 \<leftarrow> enter_pipeline_state E oldstate st pend target_state s1;
               if pend \<noteq> GST_STATE_VOID_PENDING then Some s2
               else case target_state of
                      GST_STATE_READY \<Rightarrow> previous_stream_stopped E s2
                    | GST_STATE_PAUSED \<Rightarrow> pipeline_paused E s2
                    | GST_STATE_PLAYING \<Rightarrow> pipeline_playing E s2
                    | GST_STATE_VOID_PENDING \<Rightarrow> Some s2
                    | GST_STATE_NULL \<Rightarrow> Some s2 } })"

section \<open>Start of stream\<close>

text \<open>What the switch over the picked item decides: \<open>with_bug\<close>, \<open>need_activation\<close> and
  \<open>need_push_next_stream\<close>; \<open>failed\<close> is only logged.\<close>
definition start_of_stream_decision :: "item option \<Rightarrow> 'w streamer \<Rightarrow> bool \<times> bool \<times> bool" where
  "start_of_stream_decision picked s =
     (let deferred = (next_stream_request (pl s) = REQUEST_DEFERRED)
      in case picked of
           None \<Rightarrow> (True, True, False)
         | Some it \<Rightarrow>
             (case item_state it of
                IN_QUEUE \<Rightarrow> (True, True, deferred)
              | ABOUT_TO_BE_SKIPPED \<Rightarrow> (False, True, deferred)
              | ABOUT_TO_PHASE_OUT \<Rightarrow> (False, True, deferred)
              | ABOUT_TO_ACTIVATE \<Rightarrow> (False, True, deferred)
              | ACTIVE_HALF_PLAYING \<Rightarrow>
                  (False,
                   case peek (fifo s) of
                     None \<Rightarrow> False | Some nxt \<Rightarrow> item_state nxt = ABOUT_TO_ACTIVATE,
                   False)
              | ACTIVE_NOW_PLAYING \<Rightarrow> (False, False, False)))"

text \<open>What is done for an item that has just been activated.\<close>
definition announce_stream ::
  "('w, 'z) streamer_env_scheme \<Rightarrow> 'w streamer \<Rightarrow> 'w streamer option" where
  "announce_stream E s =
     do { it \<leftarrow> current_stream (pl s);
          let sd = clear_meta_data (item_stream_data it);
          let s1 = put_item CurrentItem (it\<lparr>item_stream_data := sd\<rparr>) s;
          let s2 = (if cover_art_url sd \<noteq> [] then emit (AddImageByURI (stream_key sd) 140 (cover_art_url sd)) s1
                    else s1);
          let s3 = invalidate_previous_time s2;
          let dur = (case pipeline (pl s3) of None \<Rightarrow> None | Some p \<Rightarrow> gst_query_duration E p (world s3));
          emit_now_playing E (s3\<lparr>pr := (pr s3)\<lparr>current_time := (current_time (pr s3))
            \<lparr>duration_s := query_seconds dur\<rparr>\<rparr>\<rparr>) }"

text \<open>The handler does not look whether the pipeline has been replaced, it only passes this on.\<close>
definition handle_start_of_stream ::
  "('w, 'z) streamer_env_scheme \<Rightarrow> message_source \<Rightarrow> 'w streamer \<Rightarrow> 'w streamer option" where
  "handle_start_of_stream E src s =
     do { s1 \<leftarrow> (if is_buffering (stream_buffering_data (pl s)) then Some s
                else do { it \<leftarrow> current_stream (pl s);
                          Some (if enable_realtime_processing it then boost_threads s else s) });
          let (picked, next_stream_is_in_fifo) = pick_next_item s1;
          let picked_item = (case picked of
              Some ref \<Rightarrow> get_item ref s1 | None \<Rightarrow> current_stream (pl s1));
          let (with_bug, activation, need_push_next_stream) = start_of_stream_decision picked_item s1;
          s2 \<leftarrow> (if with_bug \<and> q_empty (fifo s1) then None else Some s1);
          let (popped, s3) = (if next_stream_is_in_fifo then pop_current s2 else (True, s2));
          let need_activation = (activation \<and> popped);
          s4 \<leftarrow> (if need_activation
                 then do { _ \<leftarrow> current_stream (pl s3);
                           Some (update_item CurrentItem (set_item_state ACTIVE_HALF_PLAYING) s3) }
                 else Some s3);
          s5 \<leftarrow> (case activate_stream 2 s4 of (result, s') \<Rightarrow>
                 case result of
                   INVALID_ITEM \<Rightarrow> do { _ \<leftarrow> current_stream (pl s'); Some s' }
                 | INVALID_STATE \<Rightarrow> do { _ \<leftarrow> current_stream (pl s'); Some s' }
                 | ALREADY_ACTIVE \<Rightarrow> Some s'
                 | ACTIVATED \<Rightarrow> announce_stream E s');
          if need_push_next_stream
          then queue_stream_from_url_fifo_unlocked E (\<not> pipeline_is_current src s5)
                 (s5\<lparr>pl := (pl s5)\<lparr>next_stream_request := REQUESTED\<rparr>\<rparr>)
          else Some s5 }"

section \<open>Buffering and the other messages\<close>

text \<open>\<open>percent\<close> is the buffer level found in the message.\<close>
definition handle_buffering ::
  "('w, 'z) streamer_env_scheme \<Rightarrow> message_source \<Rightarrow> int \<Rightarrow> 'w streamer \<Rightarrow> 'w streamer option" where
  "handle_buffering E src percent s =
     (if \<not> pipeline_is_current src s then Some s
      else if supposed_play_status (ctl s) = STOPPED then Some s
      else if percent < 0 \<or> percent > 100 then Some s
      else case set_buffer_level (nat percent) (stream_buffering_data (pl s)) of (change, d) \<Rightarrow>
        do { s1 \<leftarrow> (case change of
                     FULL_DETECTED \<Rightarrow> try_leave_buffering_state E (set_buffering d s)
                   | UNDERRUN_DETECTED \<Rightarrow> handle_buffer_underrun E (set_buffering d s)
                   | CHANGE_NONE \<Rightarrow> Some (set_buffering d s));
             Some (emit (BufferLevel percent (is_buffering (stream_buffering_data (pl s1)))) s1) })"

definition do_seek ::
  "('w, 'z) streamer_env_scheme \<Rightarrow> int \<Rightarrow> 'w streamer \<Rightarrow> bool \<times> 'w streamer" where
  "do_seek E position s =
     (case pipeline (pl s) of
        None \<Rightarrow> (False, s)
      | Some p \<Rightarrow> (case gst_send_seek E p position (world s) of (ok, w) \<Rightarrow> (ok, set_world w s)))"

text \<open>\<open>running_time\<close> is \<open>None\<close> for \<open>GST_CLOCK_TIME_NONE\<close>.\<close>
definition handle_stream_duration_async ::
  "('w, 'z) streamer_env_scheme \<Rightarrow> message_source \<Rightarrow> nat option \<Rightarrow> 'w streamer \<Rightarrow> 'w streamer option" where
  "handle_stream_duration_async E src running_time s =
     (if \<not> pipeline_is_current src s then Some s
      else
        let dur = (case running_time of
              Some t \<Rightarrow> int t div 1000000000
            | None \<Rightarrow> query_seconds (case pipeline (pl s) of
                        None \<Rightarrow> None | Some p \<Rightarrow> gst_query_duration E p (world s)));
            s1 = s\<lparr>pr := (pr s)\<lparr>current_time := (current_time (pr s))\<lparr>duration_s := dur\<rparr>\<rparr>\<rparr>
        in do {
          s2 \<leftarrow> (if dur < 0
                 then do { it \<leftarrow> current_stream (pl s1);
                           Some (throttle_threads (put_item CurrentItem (disable_realtime it) s1)) }
                 else Some s1);
          Some (case initial_seek_position_ns (ctl s2) of
                  None \<Rightarrow> s2
                | Some pos \<Rightarrow>
                    (let s3 = snd (do_seek E pos s2)
                     in s3\<lparr>ctl := (ctl s3)\<lparr>initial_seek_position_ns := None\<rparr>\<rparr>)) })"

definition handle_clock_lost_message ::
  "('w, 'z) streamer_env_scheme \<Rightarrow> message_source \<Rightarrow> 'w streamer \<Rightarrow> 'w streamer" where
  "handle_clock_lost_message E src s =
     (if \<not> pipeline_is_current src s then s
      else snd (set_stream_state E GST_STATE_PLAYING (snd (set_stream_state E GST_STATE_PAUSED s))))"

definition handle_latency_message ::
  "('w, 'z) streamer_env_scheme \<Rightarrow> message_source \<Rightarrow> 'w streamer \<Rightarrow> 'w streamer" where
  "handle_latency_message E src s =
     (if pipeline_is_current src s
      then case pipeline (pl s) of
             None \<Rightarrow> s | Some p \<Rightarrow> set_world (gst_recalculate_latency E p (world s)) s
      else s)"

definition handle_request_state_message ::
  "('w, 'z) streamer_env_scheme \<Rightarrow> message_source \<Rightarrow> gst_state \<Rightarrow> 'w streamer \<Rightarrow> 'w streamer" where
  "handle_request_state_message E src st s =
     (if pipeline_is_current src s then snd (set_stream_state E st s) else s)"

text \<open>The block size set on a source element, if any.\<close>
definition setup_source_element :: "string \<Rightarrow> 'w streamer \<Rightarrow> nat option" where
  "setup_source_element type_name s =
     (if is_failing (fd s) then None
      else if type_name = ''GstSoupHTTPSrc'' \<and> 0 < soup_http_block_size s then Some (soup_http_block_size s)
      else None)"

section \<open>The bus\<close>

text \<open>Messages with what their handlers read from them; the types that are ignored or only logged
  are the last two.\<close>
datatype bus_message =
    MsgEos | MsgTag tag_list | MsgStateChanged bool gst_state gst_state gst_state | MsgStreamStart
  | MsgBuffering int | MsgAsyncDone "nat option" | MsgError gerror | MsgWarning | MsgClockLost
  | MsgLatency | MsgRequestState gst_state | MsgIgnored | MsgUnhandled

fun bus_message_handler ::
  "('w, 'z) streamer_env_scheme \<Rightarrow> message_source \<Rightarrow> bus_message \<Rightarrow> 'w streamer \<Rightarrow> 'w streamer option" where
  "bus_message_handler E src MsgEos s = handle_end_of_stream E src s"
| "bus_message_handler E src (MsgTag tags) s = handle_tag E tags s"
| "bus_message_handler E src (MsgStateChanged verbose oldstate st pend) s =
     handle_stream_state_change E verbose src oldstate st pend s"
| "bus_message_handler E src MsgStreamStart s = handle_start_of_stream E src s"
| "bus_message_handler E src (MsgBuffering percent) s = handle_buffering E src percent s"
| "bus_message_handler E src (MsgAsyncDone t) s = handle_stream_duration_async E src t s"
| "bus_message_handler E src (MsgError error) s = handle_error_message E src error s"
| "bus_message_handler E src MsgWarning s = Some s"
| "bus_message_handler E src MsgClockLost s = Some (handle_clock_lost_message E src s)"
| "bus_message_handler E src MsgLatency s = Some (handle_latency_message E src s)"
| "bus_message_handler E src (MsgRequestState st) s = Some (handle_request_state_message E src st s)"
| "bus_message_handler E src MsgIgnored s = Some s"
| "bus_message_handler E src MsgUnhandled s = Some s"

section \<open>Signals of the list broker\<close>

text \<open>The signals \<open>DataAvailable\<close> and \<open>DataError\<close>, with the error of each cookie.\<close>
fun airable_signal ::
  "('w, 'z) streamer_env_scheme \<Rightarrow> (cookie \<times> list_error) list \<Rightarrow> 'w streamer \<Rightarrow> 'w streamer option" where
  "airable_signal E [] s = Some s"
| "airable_signal E ((ck, e) # rest) s =
     do { (n, r) \<leftarrow> cookie_signal E ck e (rnfs s);
          let s1 = s\<lparr>rnfs := r\<rparr>;
          s2 \<leftarrow> (case n of None \<Rightarrow> Some s1 | Some (i, st) \<Rightarrow> context_notify E i st s1);
          airable_signal E rest s2 }"

definition airable_data_available ::
  "('w, 'z) streamer_env_scheme \<Rightarrow> cookie list \<Rightarrow> 'w streamer \<Rightarrow> 'w streamer option" where
  "airable_data_available E cks s = airable_signal E (map (\<lambda>ck. (ck, list_error_ok E)) cks) s"

definition airable_data_error ::
  "('w, 'z) streamer_env_scheme \<Rightarrow> (cookie \<times> list_error) list \<Rightarrow> 'w streamer \<Rightarrow> 'w streamer option" where
  "airable_data_error E errors s = airable_signal E errors s"

end
