(* ===== verification/Streamer_Api.thy ===== *)
theory Streamer_Api
  imports Streamer_Handlers
begin

text \<open>
  The public interface of the streamer (namespace \<open>Streamer\<close> in \<^verbatim>\<open>src/streamer.cc\<close>,
  declared in \<^verbatim>\<open>src/streamer.hh\<close>) and the D-Bus methods built on it
  (\<^verbatim>\<open>src/dbus.cc\<close>).  The reasons passed along are only logged.
\<close>

section \<open>Setup\<close>

text \<open>\<open>setup()\<close>; the second call fails an assertion, which \<open>initialized\<close> stands for.\<close>
definition streamer_setup ::
  "('w, 'z) streamer_env_scheme \<Rightarrow> bool \<Rightarrow> nat \<Rightarrow> bool \<Rightarrow> string \<Rightarrow> 'w streamer
     \<Rightarrow> (bool \<times> 'w streamer) option" where
  "streamer_setup E initialized block_size boost_thread alsa_device s =
     do { (ok, s1) \<leftarrow> create_playbin E
            (s\<lparr>soup_http_block_size := block_size, boost_streaming_thread := boost_thread,
               force_alsa_device := (if alsa_device = [] then None else Some alsa_device)\<rparr>);
          if \<not> ok then Some (False, s1)
          else if initialized then None
          else Some (True, s1\<lparr>pr := (pr s1)\<lparr>md_update :=
                 update_clock_init (gst_clock_get_time E (world s1)) (md_update (pr s1))\<rparr>\<rparr>) }"

text \<open>The function returns at once for a null main loop, which \<open>main()\<close> never passes.\<close>
definition streamer_shutdown :: "('w, 'z) streamer_env_scheme \<Rightarrow> 'w streamer \<Rightarrow> 'w streamer" where
  "streamer_shutdown E s =
     (let s1 = teardown_playbin E (snd (set_stream_state E GST_STATE_NULL (disconnect_playbin_signals E s)));
          s2 = s1\<lparr>pr := (pr s1)\<lparr>md_update := update_clock_shutdown (md_update (pr s1))\<rparr>\<rparr>
      in s2\<lparr>pl := (pl s2)\<lparr>current_stream := None\<rparr>\<rparr>)"

section \<open>Stopping\<close>

text \<open>\<open>do_stop()\<close>: the result, \<open>failed_hard\<close>, and the state.\<close>
definition do_stop ::
  "('w, 'z) streamer_env_scheme \<Rightarrow> gst_state \<Rightarrow> 'w streamer \<Rightarrow> (bool \<times> bool \<times> 'w streamer) option" where
  "do_stop E pend s =
     do { p \<leftarrow> pipeline (pl s);
          let s1 = s\<lparr>ctl := (ctl s)\<lparr>supposed_play_status := STOPPED\<rparr>\<rparr>;
          let st = (if pend = GST_STATE_VOID_PENDING then gst_current_state E p (world s1) else pend);
          let cleared = (\<lambda>s2. s2\<lparr>fifo := snd (clear 0 (fifo s2))\<rparr>);
          Some (if st = GST_STATE_PLAYING \<or> st = GST_STATE_PAUSED
                then (case set_stream_state E GST_STATE_READY s1 of (ok, s2) \<Rightarrow>
                        if ok then (False, False, cleared s2)
                        else (True, False, s2\<lparr>fd := (fd s2)\<lparr>details := (details (fd s2))
                                             \<lparr>clear_fifo_on_error := True\<rparr>\<rparr>\<rparr>))
                else if st = GST_STATE_READY \<or> st = GST_STATE_NULL then (True, False, cleared s1)
                else (True, True, s1)) }"

definition activate :: "'w streamer \<Rightarrow> 'w streamer" where
  "activate s =
     (if is_player_activated (ctl s) then s else s\<lparr>ctl := (ctl s)\<lparr>is_player_activated := True\<rparr>\<rparr>)"

definition deactivate :: "('w, 'z) streamer_env_scheme \<Rightarrow> 'w streamer \<Rightarrow> 'w streamer option" where
  "deactivate E s =
     (if \<not> is_player_activated (ctl s) then Some s
      else do {
        let s1 = s\<lparr>ctl := (ctl s)\<lparr>is_player_activated := False\<rparr>\<rparr>;
        pend \<leftarrow> pipeline_state (gst_pending_state E) s1;
        map_option (\<lambda>(_, _, s2). s2) (do_stop E pend s1) })"

definition start :: "('w, 'z) streamer_env_scheme \<Rightarrow> 'w streamer \<Rightarrow> (bool \<times> 'w streamer) option" where
  "start E s =
     (if \<not> is_player_activated (ctl s) then Some (False, s)
      else do {
        p \<leftarrow> pipeline (pl s);
        let s1 = s\<lparr>ctl := (ctl s)\<lparr>supposed_play_status := PLAYING\<rparr>\<rparr>;
        if is_buffering (stream_buffering_data (pl s1)) then Some (True, s1)
        else
          let pend = gst_pending_state E p (world s1);
              st = (if pend = GST_STATE_PAUSED then GST_STATE_PAUSED else gst_current_state E p (world s1))
          in if pend = GST_STATE_PLAYING then Some (True, s1)
             else case st of
                    GST_STATE_PLAYING \<Rightarrow> Some (True, s1)
                  | GST_STATE_READY \<Rightarrow>
                      do { s2 \<leftarrow> rebuild_playbin_for_workarounds E s1;
                           s3 \<leftarrow> try_play_next_stream E False GST_STATE_PLAYING s2;
                           Some (True, s3) }
                  | GST_STATE_NULL \<Rightarrow>
                      do { s2 \<leftarrow> rebuild_playbin_for_workarounds E s1;
                           s3 \<leftarrow> try_play_next_stream E False GST_STATE_PLAYING s2;
                           Some (True, s3) }
                  | GST_STATE_PAUSED \<Rightarrow> Some (True, snd (set_stream_state E GST_STATE_PLAYING s1))
                  | GST_STATE_VOID_PENDING \<Rightarrow> Some (False, s1) })"

text \<open>The idle function that a handler of the end of stream asks for.\<close>
definition do_restart_playing :: "('w, 'z) streamer_env_scheme \<Rightarrow> 'w streamer \<Rightarrow> 'w streamer option" where
  "do_restart_playing E s = map_option snd (start E s)"

definition is_pipeline_uri_empty :: "('w, 'z) streamer_env_scheme \<Rightarrow> 'w streamer \<Rightarrow> bool" where
  "is_pipeline_uri_empty E s =
     (case pipeline (pl s) of
        None \<Rightarrow> True
      | Some p \<Rightarrow> (case gst_get_uri E p (world s) of None \<Rightarrow> True | Some u \<Rightarrow> u = []))"

definition stop :: "('w, 'z) streamer_env_scheme \<Rightarrow> 'w streamer \<Rightarrow> (bool \<times> 'w streamer) option" where
  "stop E s =
     (if \<not> is_player_activated (ctl s) then Some (False, s)
      else if is_pipeline_uri_empty E s then Some (False, s)
      else do {
        pend \<leftarrow> pipeline_state (gst_pending_state E) s;
        (may_emit, failed_hard, s1) \<leftarrow> do_stop E pend s;
        st \<leftarrow> pipeline_state (gst_current_state E) s1;
        if may_emit \<and> (st = GST_STATE_READY \<or> st = GST_STATE_NULL) \<and> pend = GST_STATE_VOID_PENDING
        then do { s2 \<leftarrow> emit_stopped_with_error E ALREADY_STOPPED (current_stream (pl s1))
                          (s1\<lparr>pl := (pl s1)\<lparr>current_stream := None\<rparr>\<rparr>);
                  Some (failed_hard, s2) }
        else Some (failed_hard, s1) })"

definition pause :: "('w, 'z) streamer_env_scheme \<Rightarrow> 'w streamer \<Rightarrow> (bool \<times> 'w streamer) option" where
  "pause E s =
     (if \<not> is_player_activated (ctl s) then Some (False, s)
      else if is_pipeline_uri_empty E s then Some (False, s)
      else do {
        p \<leftarrow> pipeline (pl s);
        let s1 = s\<lparr>ctl := (ctl s)\<lparr>supposed_play_status := PAUSED\<rparr>\<rparr>;
        if is_buffering (stream_buffering_data (pl s1)) then Some (True, s1)
        else case gst_current_state E p (world s1) of
               GST_STATE_PAUSED \<Rightarrow> Some (True, s1)
             | GST_STATE_NULL \<Rightarrow>
                 do { s2 \<leftarrow> try_play_next_stream E False GST_STATE_PAUSED s1; Some (True, s2) }
             | GST_STATE_READY \<Rightarrow> Some (True, snd (set_stream_state E GST_STATE_PAUSED s1))
             | GST_STATE_PLAYING \<Rightarrow> Some (True, snd (set_stream_state E GST_STATE_PAUSED s1))
             | GST_STATE_VOID_PENDING \<Rightarrow> Some (False, s1) })"

section \<open>Seeking\<close>

text \<open>\<open>gst_util_uint64_scale_int()\<close> computes with arbitrary precision and rounds down.\<close>
definition compute_position_from_percentage :: "int \<Rightarrow> int \<Rightarrow> int" where
  "compute_position_from_percentage percentage duration_ns =
     (if percentage \<le> GST_FORMAT_PERCENT_MAX
      then duration_ns * percentage div GST_FORMAT_PERCENT_MAX else -1)"

definition query_seek_duration :: "('w, 'z) streamer_env_scheme \<Rightarrow> 'w streamer \<Rightarrow> int" where
  "query_seek_duration E s =
     (case pipeline (pl s) of
        None \<Rightarrow> INT64_MIN
      | Some p \<Rightarrow>
          (case gst_query_seeking E p (world s) of
             None \<Rightarrow> INT64_MIN
           | Some (is_seekable, duration_ns) \<Rightarrow>
               if is_seekable \<and> duration_ns > 0 then duration_ns else INT64_MIN))"

text \<open>The position in nanoseconds; \<open>None\<close> is the overflow of the signed multiplication.\<close>
definition seek_position :: "int \<Rightarrow> string \<Rightarrow> int \<Rightarrow> int option" where
  "seek_position position units duration_ns =
     (if units = ''%'' then Some (compute_position_from_percentage position duration_ns)
      else if units = ''s'' then mul_int64 position GST_SECOND
      else if units = ''ms'' then mul_int64 position GST_MSECOND
      else if units = ''us'' then mul_int64 position GST_USECOND
      else if units = ''ns'' then Some position
      else Some INT64_MIN)"

definition seek ::
  "('w, 'z) streamer_env_scheme \<Rightarrow> int \<Rightarrow> string \<Rightarrow> 'w streamer \<Rightarrow> (bool \<times> 'w streamer) option" where
  "seek E position units s =
     (if position < 0 then Some (False, s)
      else if \<not> is_player_activated (ctl s) then Some (False, s)
      else
        let duration_ns = query_seek_duration E s
        in if duration_ns < 0 then Some (False, s)
           else do {
             pos \<leftarrow> seek_position position units duration_ns;
             if pos < 0 then Some (False, s)
             else if pos > duration_ns then Some (False, s)
             else case do_seek E pos s of (ok, s1) \<Rightarrow>
               if \<not> ok then Some (False, s1)
               else do { s2 \<leftarrow> do_encourage_buffering E s1; Some (True, s2) } })"

section \<open>Skipping\<close>

definition UINT32_MAX :: "32 word" where "UINT32_MAX = - 1"

text \<open>The part of \<open>next()\<close> before the queue is touched, for \<open>skip_only_if_not_stopped\<close>.\<close>
definition skip_current :: "'w streamer \<Rightarrow> 'w streamer" where
  "skip_current s =
     (case current_stream (pl s) of
        None \<Rightarrow> s
      | Some it \<Rightarrow>
          if item_state it = ABOUT_TO_ACTIVATE \<or> item_state it = ACTIVE_HALF_PLAYING
          then (update_item CurrentItem (set_item_state ABOUT_TO_BE_SKIPPED) s)
                 \<lparr>fifo := mark_as_dropped (item_id it) (fifo s)\<rparr>
          else s\<lparr>pl := (pl s)\<lparr>current_stream := None\<rparr>\<rparr>)"

text \<open>What \<open>next()\<close> does if the item it got is the current one still: the item to be played, the
  identifier of the skipped item, and the state.\<close>
definition skip_taken ::
  "item_ref option \<Rightarrow> bool \<Rightarrow> 32 word \<Rightarrow> 'w streamer \<Rightarrow> item_ref option \<times> 32 word \<times> 'w streamer" where
  "skip_taken nxt is_next_current skipped_id s =
     (if nxt \<noteq> None \<and> \<not> is_next_current
      then case current_stream (pl s) of
             None \<Rightarrow> (nxt, skipped_id, s)
           | Some it \<Rightarrow>
               (case item_state it of
                  IN_QUEUE \<Rightarrow> (nxt, skipped_id, s)
                | ABOUT_TO_ACTIVATE \<Rightarrow>
                    (nxt, skipped_id, update_item CurrentItem (set_item_state ABOUT_TO_BE_SKIPPED) s)
                | ACTIVE_HALF_PLAYING \<Rightarrow>
                    (nxt, skipped_id, update_item CurrentItem (set_item_state ABOUT_TO_BE_SKIPPED) s)
                | ACTIVE_NOW_PLAYING \<Rightarrow>
                    (nxt, skipped_id, update_item CurrentItem (set_item_state ABOUT_TO_BE_SKIPPED) s)
                | ABOUT_TO_PHASE_OUT \<Rightarrow> (None, UINT32_MAX, s)
                | ABOUT_TO_BE_SKIPPED \<Rightarrow> (None, UINT32_MAX, s))
      else (nxt, skipped_id, s))"

text \<open>The last part of \<open>next()\<close>: the identifier of the next item, and the state.\<close>
definition play_taken ::
  "('w, 'z) streamer_env_scheme \<Rightarrow> item_ref option \<Rightarrow> bool \<Rightarrow> 'w streamer
     \<Rightarrow> (32 word \<times> 'w streamer) option" where
  "play_taken E nxt is_next_current s =
     (case nxt of
        None \<Rightarrow> Some (UINT32_MAX, s\<lparr>ctl := (ctl s)\<lparr>supposed_play_status := STOPPED\<rparr>\<rparr>)
      | Some ref \<Rightarrow>
          (case set_stream_state E GST_STATE_READY s of (ok, s1) \<Rightarrow>
             if \<not> ok then Some (UINT32_MAX, s1)
             else
               let next_state = (case supposed_play_status (ctl s1) of
                     STOPPED \<Rightarrow> GST_STATE_READY | PLAYING \<Rightarrow> GST_STATE_PLAYING | PAUSED \<Rightarrow> GST_STATE_PAUSED)
               in do { it \<leftarrow> get_item ref s1;
                       (played, s2) \<leftarrow> play_next_stream E False
                         (if is_next_current then None
                          else if current_stream (pl s1) = None then None else Some CurrentItem)
                         ref next_state True False s1;
                       Some (if played then ucast (item_id it) else UINT32_MAX, s2) }))"

text \<open>The second component holds the out parameters, which are not set while inactive.\<close>
definition next_stream ::
  "('w, 'z) streamer_env_scheme \<Rightarrow> bool \<Rightarrow> 'w streamer
     \<Rightarrow> (play_status \<times> (32 word \<times> 32 word) option \<times> 'w streamer) option" where
  "next_stream E skip_only_if_not_stopped s =
     (if \<not> is_player_activated (ctl s) then Some (STOPPED, None, s)
      else do {
        _ \<leftarrow> pipeline (pl s);
        let s1 = (if skip_only_if_not_stopped then skip_current s else s);
        let is_dequeuing_permitted =
              (supposed_play_status (ctl s1) \<noteq> STOPPED \<or> \<not> skip_only_if_not_stopped);
        let skipped_id = (case current_stream (pl s1) of
              Some it \<Rightarrow> ucast (item_id it) | None \<Rightarrow> UINT32_MAX);
        (nxt, is_next_current, s2) \<leftarrow>
          (if is_dequeuing_permitted
           then map_option (\<lambda>(n, c, _, s2). (n, c, s2)) (try_take_next E True s1)
           else Some (None, False, s1));
        let (nxt', skipped', s3) = skip_taken nxt is_next_current skipped_id s2;
        (next_id, s4) \<leftarrow> play_taken E nxt' is_next_current s3;
        Some (supposed_play_status (ctl s4), Some (skipped', next_id), s4) })"

section \<open>The queue\<close>

definition clear_queue :: "int \<Rightarrow> 'w streamer \<Rightarrow> id_array \<times> id_array \<times> 'w streamer" where
  "clear_queue keep_first_n_entries s =
     (let s1 = (if 0 \<le> keep_first_n_entries
                then s\<lparr>fifo := snd (clear (nat keep_first_n_entries) (fifo s))\<rparr> else s);
          queued = mk_id_array_from_queued_items s1
      in case mk_id_array_from_dropped_items s1 of (drp, s2) \<Rightarrow> (queued, drp, s2))"

definition is_playing :: "('w, 'z) streamer_env_scheme \<Rightarrow> 'w streamer \<Rightarrow> bool option" where
  "is_playing E s = map_option (\<lambda>st. st = GST_STATE_PLAYING) (pipeline_state (gst_current_state E) s)"

definition get_current_stream_id :: "'w streamer \<Rightarrow> stream_id option" where
  "get_current_stream_id s =
     (case current_stream (pl s) of
        None \<Rightarrow> None | Some it \<Rightarrow> if item_empty it then None else Some (item_id it))"

text \<open>
  \<open>push_item()\<close>: the result, the out parameters \<open>out_dropped_ids_before\<close> and
  \<open>out_dropped_ids_now\<close> (\<open>None\<close> if not set), and the state.
\<close>
definition push_item ::
  "('w, 'z) streamer_env_scheme \<Rightarrow> stream_id \<Rightarrow> stream_key \<Rightarrow> stream_urls \<Rightarrow> string_pairs \<Rightarrow> nat
     \<Rightarrow> 'w streamer \<Rightarrow> (bool \<times> id_array option \<times> id_array option \<times> 'w streamer) option" where
  "push_item E sid key su meta_data keep_items s =
     (if \<not> is_player_activated (ctl s) then Some (False, None, None, s)
      else
        (case mk_id_array_from_dropped_items s of (before, s1) \<Rightarrow>
         case g_variant_to_tag_list (tags_env E) meta_data of (list, cover, extra) \<Rightarrow>
           let it = new_item E sid key su True cover extra list time_point_min time_point_max
           in case push it keep_items (fifo s1) of (n, q) \<Rightarrow>
                let s2 = s1\<lparr>fifo := q\<rparr>
                in if n = 0 then Some (False, Some before, None, s2)
                   else do {
                     s3 \<leftarrow> (if next_stream_request (pl s2) = REQUESTED \<and>
                               (case current_stream (pl s2) of
                                  None \<Rightarrow> False | Some cur \<Rightarrow> item_state cur = ABOUT_TO_PHASE_OUT)
                            then queue_stream_from_url_fifo_unlocked E False s2 else Some s2);
                     let (now, s4) = mk_id_array_from_dropped_items s3;
                     Some (True, Some before, Some now, s4) }))"

definition starts_with :: "string \<Rightarrow> string \<Rightarrow> bool" where
  "starts_with s prfx \<longleftrightarrow> length s > length prfx \<and> take (length prfx) s = prfx"

definition PATH_MAX :: nat where "PATH_MAX = 4096"

text \<open>\<open>os_realpath\<close> gives the contents of the buffer of \<open>PATH_MAX\<close> characters after
  \<open>realpath()\<close>.\<close>
definition realpath_cxx :: "('w, 'z) streamer_env_scheme \<Rightarrow> string \<Rightarrow> 'w \<Rightarrow> string" where
  "realpath_cxx E file_path w = (if length file_path > PATH_MAX then [] else os_realpath E file_path w)"

definition remove_items_for_root_path ::
  "('w, 'z) streamer_env_scheme \<Rightarrow> string \<Rightarrow> 'w streamer \<Rightarrow> (bool \<times> 'w streamer) option" where
  "remove_items_for_root_path E root_path s =
     (case current_stream (pl s) of
        None \<Rightarrow> Some (True, s)
      | Some it \<Rightarrow>
          do { url \<leftarrow> get_url_for_playing it;
               if \<not> starts_with url ''file://'' then Some (True, s)
               else case filename_from_uri E url of
                      None \<Rightarrow> Some (False, s)
                    | Some [] \<Rightarrow> Some (False, s)
                    | Some (ch # filename) \<Rightarrow>
                        if starts_with (realpath_cxx E (ch # filename) (world s)) root_path
                        then do { (_, s1) \<leftarrow> stop E s; Some (True, s1) }
                        else Some (True, s) })"

section \<open>Injected failures\<close>

definition inject_stream_failure :: "string \<Rightarrow> nat \<Rightarrow> 'w streamer \<Rightarrow> 'w streamer" where
  "inject_stream_failure domain code s =
     (if domain \<in> {''core'', ''library'', ''resource'', ''stream''}
      then case pipeline (pl s) of
             None \<Rightarrow> s | Some p \<Rightarrow> emit (IdlePostFailure p domain code) s
      else s)"

text \<open>Whether the message is posted when the idle function runs.\<close>
definition post_injected_failure :: "pipeline_id \<Rightarrow> 'w streamer \<Rightarrow> bool" where
  "post_injected_failure expected_pipeline s = pipeline_is_current (SrcPipeline expected_pipeline) s"

section \<open>D-Bus methods\<close>

definition playback_start :: "('w, 'z) streamer_env_scheme \<Rightarrow> 'w streamer \<Rightarrow> 'w streamer option" where
  "playback_start E s = map_option snd (start E s)"

definition playback_stop :: "('w, 'z) streamer_env_scheme \<Rightarrow> 'w streamer \<Rightarrow> 'w streamer option" where
  "playback_stop E s = map_option snd (stop E s)"

definition playback_pause :: "('w, 'z) streamer_env_scheme \<Rightarrow> 'w streamer \<Rightarrow> 'w streamer option" where
  "playback_pause E s = map_option snd (pause E s)"

text \<open>The error message of the reply, if any.\<close>
definition playback_seek ::
  "('w, 'z) streamer_env_scheme \<Rightarrow> int \<Rightarrow> string \<Rightarrow> 'w streamer \<Rightarrow> (string option \<times> 'w streamer) option" where
  "playback_seek E position units s =
     map_option (\<lambda>(ok, s1). (if ok then None else Some ''Seek failed'', s1)) (seek E position units s)"

definition playback_set_speed :: "'w streamer \<Rightarrow> string option \<times> 'w streamer" where
  "playback_set_speed s = (Some ''Set speed not implemented'', s)"

definition playback_inject_failure :: "string \<Rightarrow> nat \<Rightarrow> 'w streamer \<Rightarrow> 'w streamer" where
  "playback_inject_failure domain code s = inject_stream_failure domain code s"

definition fifo_clear :: "int \<Rightarrow> 'w streamer \<Rightarrow> (32 word \<times> id_array \<times> id_array) \<times> 'w streamer" where
  "fifo_clear keep_first_n_entries s =
     (let current_id = (case get_current_stream_id s of Some i \<Rightarrow> ucast i | None \<Rightarrow> UINT32_MAX)
      in case clear_queue keep_first_n_entries s of (queued, drp, s1) \<Rightarrow> ((current_id, queued, drp), s1))"

text \<open>The identifiers in the reply are those of uninitialised variables while inactive:
  \<open>None\<close>.\<close>
definition fifo_next ::
  "('w, 'z) streamer_env_scheme \<Rightarrow> 'w streamer
     \<Rightarrow> (((32 word \<times> 32 word) option \<times> play_status) \<times> 'w streamer) option" where
  "fifo_next E s = map_option (\<lambda>(status, ids, s1). ((ids, status), s1)) (next_stream E False s)"

definition keep_items :: "nat \<Rightarrow> int \<Rightarrow> nat" where
  "keep_items SIZE_MAX keep_first_n_entries =
     (if keep_first_n_entries < 0 then (if keep_first_n_entries = -2 then 0 else SIZE_MAX)
      else nat keep_first_n_entries)"

text \<open>\<open>fifo_push()\<close>: failed, is playing, and the two arrays of dropped identifiers.\<close>
definition fifo_push ::
  "('w, 'z) streamer_env_scheme \<Rightarrow> nat \<Rightarrow> stream_id \<Rightarrow> (string \<times> bool) list \<Rightarrow> stream_key \<Rightarrow> int
     \<Rightarrow> string_pairs \<Rightarrow> 'w streamer
     \<Rightarrow> ((bool \<times> bool \<times> id_array option \<times> id_array option) \<times> 'w streamer) option" where
  "fifo_push E SIZE_MAX sid variant key keep_first_n_entries meta_data s =
     do { (su, w1) \<leftarrow> stream_urls_of_variant E variant (world s);
          (ok, before, now, s1) \<leftarrow> push_item E sid key su meta_data
             (keep_items SIZE_MAX keep_first_n_entries) (set_world w1 s);
          (playing, s2) \<leftarrow>
            (if keep_first_n_entries = -2
             then map_option (\<lambda>(status, _, s2). (status = PLAYING, s2)) (next_stream E True s1)
             else map_option (\<lambda>b. (b, s1)) (is_playing E s1));
          Some ((\<not> ok, playing, before, now), s2) }"

definition audiopath_player_activate :: "'w streamer \<Rightarrow> 'w streamer" where
  "audiopath_player_activate s = activate s"

definition audiopath_player_deactivate ::
  "('w, 'z) streamer_env_scheme \<Rightarrow> 'w streamer \<Rightarrow> 'w streamer option" where
  "audiopath_player_deactivate E s = deactivate E s"

definition mounta_device_will_be_removed ::
  "('w, 'z) streamer_env_scheme \<Rightarrow> string \<Rightarrow> 'w streamer \<Rightarrow> 'w streamer option" where
  "mounta_device_will_be_removed E root_path s =
     map_option snd (remove_items_for_root_path E root_path s)"

end
