(* ===== verification/Streamer_Invariant.thy ===== *)
theory Streamer_Invariant
  imports Streamer_Api
begin

text \<open>
  What every function of the streamer keeps: the invariant \<open>streamer_ok\<close>.

  The invariant is proved once for two uses, which the \<open>demands\<close> select.  \<open>item_wf ne n\<close> says of an
  item that its selected URL exists, that its resolver is one of the \<open>n\<close> calls made so far, and, if
  \<open>needs_urls ne\<close> is true, that it has URLs at all: without this demand the invariant holds for all
  inputs, with it if no item without URLs is pushed.  \<open>queue_wf\<close> adds the bound of the queue, and
  that only the item at its head may have left the state \<open>IN_QUEUE\<close>.  If \<open>play_order ne\<close> is a list of
  stream identifiers, then the current stream and after it the queued ones appear in that list, in
  this order, and those in the queue also in \<open>queue_order ne\<close>; with the lists of the streams before a
  step, this says that the step does not reorder or repeat streams.

  The lemmas named \<open>core_\<dots>\<close> are destruction rules: from \<open>f s = Some s'\<close> to the implication that
  the invariant for \<open>s\<close> gives the invariant for \<open>s'\<close>.
\<close>

section \<open>The invariant\<close>

record demands =
  needs_urls :: bool
  play_order :: "stream_id list option"
  queue_order :: "stream_id list option"

abbreviation any_order :: "bool \<Rightarrow> demands" where
  "any_order b \<equiv> \<lparr>needs_urls = b, play_order = None, queue_order = None\<rparr>"

definition follows :: "stream_id list option \<Rightarrow> stream_id list \<Rightarrow> bool" where
  "follows ord ids \<longleftrightarrow> pred_option (subseq ids) ord"

definition item_wf :: "demands \<Rightarrow> nat \<Rightarrow> item \<Rightarrow> bool" where
  "item_wf ne n it \<longleftrightarrow> item_ok it \<and> (\<forall>i. resolver it = Some i \<longrightarrow> i < n) \<and> (needs_urls ne \<longrightarrow> \<not> item_empty it)"

definition queue_wf :: "demands \<Rightarrow> nat \<Rightarrow> (item, stream_id) play_queue \<Rightarrow> bool" where
  "queue_wf ne n q \<longleftrightarrow> fifo_ok q \<and> max_number_of_items q = default_max_number_of_items \<and>
     list_all (item_wf ne n) (queue q) \<and> list_all (\<lambda>it. item_state it = IN_QUEUE) (tl (queue q)) \<and>
     (queue q \<noteq> [] \<longrightarrow> item_state (hd (queue q)) \<in> {IN_QUEUE, ABOUT_TO_ACTIVATE})"

definition control_wf :: "bool \<Rightarrow> play_status \<Rightarrow> int option \<Rightarrow> bool" where
  "control_wf activated status seek_ns \<longleftrightarrow> (status \<noteq> STOPPED \<longrightarrow> activated) \<and>
     pred_option (\<lambda>t. 0 < t \<and> t \<le> INT64_MAX) seek_ns"

definition pipeline_wf :: "pipeline_id option \<Rightarrow> nat list \<Rightarrow> bool" where
  "pipeline_wf p ids \<longleftrightarrow> (p = None \<longrightarrow> ids = [])"

definition calls_wf :: "'c cookie_call list \<Rightarrow> call_ref pending_cookies \<Rightarrow> bool" where
  "calls_wf cs ck \<longleftrightarrow> rnf_world_ok \<lparr>calls = cs, cookies = ck, rworld = ()\<rparr>"

lemma calls_wf_world: "calls_wf (calls r) (cookies r) = rnf_world_ok r"
  by (simp add: calls_wf_def rnf_world_ok_def)

text \<open>The failure flag is set during error recovery only.\<close>
abbreviation streamer_core :: "demands \<Rightarrow> 'w streamer \<Rightarrow> bool" where
  "streamer_core ne s \<equiv>
     control_wf (is_player_activated (ctl s)) (supposed_play_status (ctl s))
       (initial_seek_position_ns (ctl s)) \<and>
     pipeline_wf (pipeline (pl s)) (signal_handler_ids (pl s)) \<and>
     calls_wf (calls (rnfs s)) (cookies (rnfs s)) \<and>
     pred_option (item_wf ne (length (calls (rnfs s)))) (current_stream (pl s)) \<and>
     queue_wf ne (length (calls (rnfs s))) (fifo s) \<and> \<not> is_failing (fd s) \<and>
     follows (queue_order ne) (map item_id (queue (fifo s))) \<and>
     follows (play_order ne) (map item_id (queue (fifo s))) \<and>
     pred_option (\<lambda>it. follows (play_order ne) (item_id it # map item_id (queue (fifo s)))) (current_stream (pl s))"

text \<open>The identifiers of the current stream and of the queued ones.\<close>
definition playlist :: "'w streamer \<Rightarrow> stream_id list" where
  "playlist s = (case current_stream (pl s) of None \<Rightarrow> [] | Some it \<Rightarrow> [item_id it])
     @ map item_id (queue (fifo s))"

definition streamer_ok :: "bool \<Rightarrow> 'w streamer \<Rightarrow> bool" where
  "streamer_ok ne s \<longleftrightarrow> streamer_core (any_order ne) s"

lemma pred_option_map [simp]: "pred_option P (map_option f x) = (\<forall>y. x = Some y \<longrightarrow> P (f y))"
  by (cases x) auto

lemma pred_option_top [simp]: "pred_option (\<lambda>x. True) c"
  by (cases c) auto

section \<open>Playing order\<close>

lemma follows_any [simp]: "follows None ids"
  by (simp add: follows_def)

lemma follows_subseq: "follows ord ids \<Longrightarrow> subseq ids' ids \<Longrightarrow> follows ord ids'"
  by (cases ord) (auto simp: follows_def intro: subseq_order.order_trans)

lemma follows_Cons: "follows ord (i # ids) \<Longrightarrow> follows ord ids"
  by (erule follows_subseq) auto

lemma subseq_map_take: "subseq (map f (take k xs)) (map f xs)"
  by (metis append_take_drop_id map_append subseq_rev_drop_many subseq_order.order_refl)

lemma follows_take [simp]:
  "follows ord (map item_id q) \<Longrightarrow> follows ord (map item_id (take k q))"
  "follows ord (i # map item_id q) \<Longrightarrow> follows ord (i # map item_id (take k q))"
  by (auto elim!: follows_subseq simp: subseq_map_take)

lemma follows_tl [simp]:
  "follows ord (map item_id q) \<Longrightarrow> follows ord (map item_id (tl q))"
  "follows ord (i # map item_id q) \<Longrightarrow> follows ord (i # map item_id (tl q))"
  by (cases q; auto elim!: follows_subseq)+

lemma follows_hd [simp]:
  "q \<noteq> [] \<Longrightarrow> follows ord (map item_id q) \<Longrightarrow> follows ord (item_id (hd q) # map item_id (tl q))"
  by (cases q) auto

lemma follows_current:
  "pred_option (\<lambda>it. follows ord (item_id it # ids)) c \<Longrightarrow> subseq ids' ids \<Longrightarrow>
     pred_option (\<lambda>it. follows ord (item_id it # ids')) c"
  by (cases c) (auto elim: follows_subseq)

lemma follows_Nil [simp]: "follows ord []"
  by (cases ord) (simp_all add: follows_def)

lemma follows_current_only:
  "pred_option (\<lambda>it. follows ord (item_id it # ids)) c \<Longrightarrow> pred_option (\<lambda>it. follows ord [item_id it]) c"
  by (erule follows_current) simp

lemma follows_current_queue [simp]:
  "pred_option (\<lambda>it. follows ord (item_id it # map item_id q)) c \<Longrightarrow>
     pred_option (\<lambda>it. follows ord (item_id it # map item_id (take k q))) c"
  "pred_option (\<lambda>it. follows ord (item_id it # map item_id q)) c \<Longrightarrow>
     pred_option (\<lambda>it. follows ord (item_id it # map item_id (tl q))) c"
  by (cases c; simp)+

lemma ids_update_head:
  "map_option (\<lambda>it. item_id (f it)) (peek q) = map_option item_id (peek q) \<Longrightarrow>
     map item_id (queue (update_head f q)) = map item_id (queue q)"
  by (cases "queue q") (auto simp: update_head_eq peek_eq)

lemma queue_frame [simp]:
  "queue (mark_as_dropped i q) = queue q" "queue (snd (clear k q)) = take k (queue q)"
  "queue (snd (pop q)) = tl (queue q)"
  by (auto simp: mark_as_dropped_def clear_eq pop_eq)

lemma queue_popped: "pop q = (r, q') \<Longrightarrow> queue q' = tl (queue q)"
  by (auto simp: pop_eq split: if_splits)

lemma follows_playlist:
  "follows ord (playlist s) \<longleftrightarrow> follows ord (map item_id (queue (fifo s))) \<and>
     pred_option (\<lambda>it. follows ord (item_id it # map item_id (queue (fifo s)))) (current_stream (pl s))"
  by (cases "current_stream (pl s)") (auto simp: playlist_def dest: follows_Cons)

lemma subseq_push:
  "subseq (map item_id (queue (snd (push it k q)))) (map item_id (queue q) @ [item_id it])"
  by (auto simp: push_eq subseq_map_take intro: list_emb_append_mono subseq_rev_drop_many)

lemma follows_push:
  assumes "follows ord (playlist s @ [item_id it])" "queue q = queue (fifo s)" "c = current_stream (pl s)"
  shows "follows ord (map item_id (queue (snd (push it k q)))) \<and>
    pred_option (\<lambda>cur. follows ord (item_id cur # map item_id (queue (snd (push it k q))))) c"
  using assms(1,3) subseq_push [of it k q] unfolding assms(2)
  by (cases "current_stream (pl s)") (auto simp: playlist_def elim!: follows_subseq)

section \<open>Items\<close>

lemma item_wf_mono: "item_wf ne n it \<Longrightarrow> n \<le> m \<Longrightarrow> item_wf ne m it"
  by (auto simp: item_wf_def)

lemma item_empty_frame [simp]:
  "item_empty (it\<lparr>item_state := a\<rparr>) = item_empty it" "item_empty (it\<lparr>item_fail_state := b\<rparr>) = item_empty it"
  "item_empty (it\<lparr>prefail_reason := c\<rparr>) = item_empty it" "item_empty (it\<lparr>resolver := d\<rparr>) = item_empty it"
  "item_empty (it\<lparr>start_required_after_resolve := e\<rparr>) = item_empty it"
  "item_empty (it\<lparr>enable_realtime_processing := f\<rparr>) = item_empty it"
  "item_empty (it\<lparr>item_stream_data := g\<rparr>) = item_empty it"
  by (simp_all add: item_empty_def)

lemma item_wf_frame [simp]:
  "item_wf ne n (it\<lparr>item_fail_state := b\<rparr>) = item_wf ne n it"
  "item_wf ne n (it\<lparr>prefail_reason := c\<rparr>) = item_wf ne n it"
  "item_wf ne n (it\<lparr>start_required_after_resolve := e\<rparr>) = item_wf ne n it"
  "item_wf ne n (it\<lparr>enable_realtime_processing := f\<rparr>) = item_wf ne n it"
  "item_wf ne n (it\<lparr>item_stream_data := g\<rparr>) = item_wf ne n it"
  "item_wf ne n (disable_realtime it) = item_wf ne n it"
  by (simp_all add: item_wf_def disable_realtime_def)

lemma item_wf_state [simp]: "item_wf ne n (set_item_state st it) = item_wf ne n it"
  by (simp add: item_wf_def set_item_state_def item_empty_def)

lemma item_id_disable [simp]: "item_id (disable_realtime it) = item_id it"
  by (simp add: disable_realtime_def)

lemma set_item_state_simps [simp]:
  "item_state (set_item_state st it) = st" "item_id (set_item_state st it) = item_id it"
  "item_urls (set_item_state st it) = item_urls it" "item_empty (set_item_state st it) = item_empty it"
  by (simp_all add: set_item_state_def)

lemma item_wf_resolver: "item_wf ne n it \<Longrightarrow> i < n \<Longrightarrow> item_wf ne n (it\<lparr>resolver := Some i\<rparr>)"
  by (simp add: item_wf_def)

lemma item_wf_fail: "item_fail it = (b, it') \<Longrightarrow> item_wf ne n it \<Longrightarrow> item_wf ne n it'"
  by (auto simp: item_fail_def split: fail_state.splits)

lemma item_fail_id: "item_fail it = (b, it') \<Longrightarrow> item_id it' = item_id it"
  by (auto simp: item_fail_def split: fail_state.splits)

lemma prefail_id: "prefail r it = Some (b, it') \<Longrightarrow> item_id it' = item_id it"
  by (auto simp: prefail_def split: if_splits)

lemma item_wf_prefail: "prefail r it = Some (b, it') \<Longrightarrow> item_wf ne n it \<Longrightarrow> item_wf ne n it'"
  by (auto simp: prefail_def split: if_splits)

lemma item_wf_start_required:
  "is_pipeline_start_required it = (b, it') \<Longrightarrow> item_wf ne n it \<Longrightarrow> item_wf ne n it'"
  by (auto simp: is_pipeline_start_required_def)

lemma item_wf_when_ready:
  "pipeline_start_required_when_ready it = Some (b, it') \<Longrightarrow> item_wf ne n it \<Longrightarrow> item_wf ne n it'"
  by (auto simp: pipeline_start_required_when_ready_def Let_def bind_eq_Some_conv)

lemma select_next_url_frame:
  assumes "select_next_url now it = Some (b, it')" "item_ok it"
  shows "item_ok it' \<and> resolver it' = resolver it \<and> item_state it' = item_state it \<and>
     item_empty it' = item_empty it \<and> item_id it' = item_id it"
proof -
  obtain u where u: "get_selected (item_urls it) = Some u"
    using assms(1) by (auto simp: select_next_url_def bind_eq_Some_conv)
  obtain c u' where c: "clear_expired_uri now u = (c, u')"
    by force
  have "item_ok it'"
    using postD [OF item_ok_select [OF assms(2)] assms(1)] by simp
  then show ?thesis
    using assms(1) u c
    by (cases c) (auto simp: select_next_url_def select_next_index_def item_empty_def split: if_splits)
qed

lemma item_wf_select: "select_next_url now it = Some (b, it') \<Longrightarrow> item_wf ne n it \<Longrightarrow> item_wf ne n it'"
  by (auto simp: item_wf_def dest!: select_next_url_frame)

lemma finish_state_frame:
  "resolver_finish_state now st it = Some (r, it') \<Longrightarrow>
     item_ok it' = item_ok it \<and> resolver it' = None \<and> item_state it' = item_state it \<and>
     item_empty it' = item_empty it \<and> item_id it' = item_id it \<and> urls_left it' = urls_left it"
  by (auto simp: resolver_finish_state_def Let_def bind_eq_Some_conv item_empty_def item_ok_def urls_left_def)

lemma finish_uri_frame:
  "resolver_finish_uri now uri v it = Some (r, it') \<Longrightarrow>
     item_ok it' = item_ok it \<and> resolver it' = None \<and> item_state it' = item_state it \<and>
     item_empty it' = item_empty it \<and> item_id it' = item_id it \<and> urls_left it' = urls_left it"
  by (auto simp: resolver_finish_uri_def bind_eq_Some_conv item_empty_def item_ok_def urls_left_def
      dest: finish_state_frame split: if_splits)

lemma item_wf_finish_state:
  "resolver_finish_state now st it = Some (r, it') \<Longrightarrow> item_wf ne n it \<Longrightarrow> item_wf ne n it'"
  by (auto simp: item_wf_def dest!: finish_state_frame)

lemma item_wf_finish_uri:
  "resolver_finish_uri now uri v it = Some (r, it') \<Longrightarrow> item_wf ne n it \<Longrightarrow> item_wf ne n it'"
  by (auto simp: item_wf_def dest!: finish_uri_frame)

lemma item_wf_new: "stream_urls_ok su \<Longrightarrow> (needs_urls ne \<Longrightarrow> urls su \<noteq> []) \<Longrightarrow>
    item_wf ne n (new_item E sid key su rt cover extra preset t0 t1)"
  by (auto simp: item_wf_def new_item_def item_ok_def item_empty_def)

section \<open>The queue\<close>

lemma queue_wf_mono: "queue_wf ne n q \<Longrightarrow> n \<le> m \<Longrightarrow> queue_wf ne m q"
  by (auto simp: queue_wf_def intro: list.pred_mono_strong item_wf_mono)

lemma list_all_take: "list_all P xs \<Longrightarrow> list_all P (take k xs)"
  by (auto simp: list_all_iff dest: in_set_takeD)

lemma list_all_tl: "list_all P xs \<Longrightarrow> list_all P (tl xs)"
  by (cases xs) auto

lemma tl_take: "tl (take k xs) = take (k - 1) (tl xs)"
  by (cases xs; cases k) auto

lemma queue_wf_clear: "queue_wf ne n q \<Longrightarrow> queue_wf ne n (snd (clear k q))"
  by (cases "queue q"; cases k)
    (auto simp: queue_wf_def clear_eq fifo_ok_def list_all_take)

lemma queue_wf_push:
  assumes "queue_wf ne n q" "item_wf ne n it" "item_state it = IN_QUEUE"
  shows "queue_wf ne n (snd (push it k q))"
proof -
  have "fifo_ok (snd (push it k q))"
    using assms by (simp add: queue_wf_def fifo_ok_push)
  then show ?thesis
    using assms
    by (cases "queue q"; cases k)
      (auto simp: queue_wf_def push_eq list_all_take tl_append hd_append split: list.splits)
qed

lemma queue_wf_pop: "queue_wf ne n q \<Longrightarrow> queue_wf ne n (snd (pop q))"
  by (cases "queue q") (auto simp: queue_wf_def pop_eq fifo_ok_def list_all_tl neq_Nil_conv)

lemma pop_item_wf: "queue_wf ne n q \<Longrightarrow> pop q = (Some it, q') \<Longrightarrow> item_wf ne n it \<and> queue_wf ne n q'"
  using queue_wf_pop [of ne n q] by (cases "queue q") (auto simp: queue_wf_def pop_eq)

lemma queue_wf_pop_drop: "queue_wf ne n q \<Longrightarrow> queue_wf ne n (snd (pop_drop q))"
  by (cases "queue q") (auto simp: queue_wf_def pop_drop_eq fifo_ok_def list_all_tl neq_Nil_conv)

lemma queue_wf_mark [simp]: "queue_wf ne n (mark_as_dropped i q) = queue_wf ne n q"
  by (simp add: queue_wf_def mark_as_dropped_def fifo_ok_def)

lemma queue_wf_fields [simp]:
  "queue_wf ne n (q\<lparr>removed := r\<rparr>) = queue_wf ne n q" "queue_wf ne n (q\<lparr>dropped := d\<rparr>) = queue_wf ne n q"
  by (simp_all add: queue_wf_def fifo_ok_def)

lemma queue_wf_head: "queue_wf ne n q \<Longrightarrow> peek q = Some it \<Longrightarrow>
    item_wf ne n it \<and> item_state it \<in> {IN_QUEUE, ABOUT_TO_ACTIVATE}"
  by (cases "queue q") (auto simp: queue_wf_def peek_eq)

lemma queue_wf_update_head:
  assumes "queue_wf ne n q"
    "\<And>it. peek q = Some it \<Longrightarrow> item_wf ne n (f it) \<and> item_state (f it) \<in> {IN_QUEUE, ABOUT_TO_ACTIVATE}"
  shows "queue_wf ne n (update_head f q)"
  using assms by (cases "queue q") (auto simp: queue_wf_def update_head_eq fifo_ok_def peek_eq)

section \<open>What the small operations leave alone\<close>

lemma world_frame [simp]:
  "ctl (set_world w s) = ctl s" "pl (set_world w s) = pl s" "fd (set_world w s) = fd s"
  "pr (set_world w s) = pr s" "fifo (set_world w s) = fifo s" "threads (set_world w s) = threads s"
  "trace (set_world w s) = trace s" "calls (rnfs (set_world w s)) = calls (rnfs s)"
  "cookies (rnfs (set_world w s)) = cookies (rnfs s)" "world (set_world w s) = w"
  by (simp_all add: set_world_def world_def)

lemma emit_frame [simp]:
  "ctl (emit e s) = ctl s" "pl (emit e s) = pl s" "fd (emit e s) = fd s" "pr (emit e s) = pr s"
  "fifo (emit e s) = fifo s" "threads (emit e s) = threads s" "rnfs (emit e s) = rnfs s"
  "world (emit e s) = world s" "trace (emit e s) = trace s @ [e]"
  by (simp_all add: emit_def world_def)

lemma set_buffering_frame [simp]:
  "ctl (set_buffering d s) = ctl s" "fd (set_buffering d s) = fd s" "pr (set_buffering d s) = pr s"
  "fifo (set_buffering d s) = fifo s" "rnfs (set_buffering d s) = rnfs s"
  "threads (set_buffering d s) = threads s" "trace (set_buffering d s) = trace s"
  "pipeline (pl (set_buffering d s)) = pipeline (pl s)"
  "signal_handler_ids (pl (set_buffering d s)) = signal_handler_ids (pl s)"
  "current_stream (pl (set_buffering d s)) = current_stream (pl s)"
  "next_stream_request (pl (set_buffering d s)) = next_stream_request (pl s)"
  "stream_buffering_data (pl (set_buffering d s)) = d"
  by (simp_all add: set_buffering_def)

lemma time_frame [simp]:
  "ctl (invalidate_previous_time s) = ctl s" "pl (invalidate_previous_time s) = pl s"
  "fd (invalidate_previous_time s) = fd s" "fifo (invalidate_previous_time s) = fifo s"
  "rnfs (invalidate_previous_time s) = rnfs s" "trace (invalidate_previous_time s) = trace s"
  "ctl (invalidate_current_time s) = ctl s" "pl (invalidate_current_time s) = pl s"
  "fd (invalidate_current_time s) = fd s" "fifo (invalidate_current_time s) = fifo s"
  "rnfs (invalidate_current_time s) = rnfs s" "trace (invalidate_current_time s) = trace s"
  "world (invalidate_previous_time s) = world s" "world (invalidate_current_time s) = world s"
  by (simp_all add: invalidate_previous_time_def invalidate_current_time_def world_def)

lemma threads_frame [simp]:
  "ctl (throttle_threads s) = ctl s" "pl (throttle_threads s) = pl s" "fd (throttle_threads s) = fd s"
  "pr (throttle_threads s) = pr s" "fifo (throttle_threads s) = fifo s" "rnfs (throttle_threads s) = rnfs s"
  "ctl (boost_threads s) = ctl s" "pl (boost_threads s) = pl s" "fd (boost_threads s) = fd s"
  "pr (boost_threads s) = pr s" "fifo (boost_threads s) = fifo s" "rnfs (boost_threads s) = rnfs s"
  by (simp_all add: throttle_threads_def boost_threads_def split: prod.split)

text \<open>Operations that change nothing but the world.\<close>
lemma stream_state_frame:
  "set_stream_state E st s = (ok, s') \<Longrightarrow> \<exists>w. s' = set_world w s"
  by (auto simp: set_stream_state_def set_world_def world_def split: option.splits prod.splits
      intro: exI [of _ "rworld (rnfs s)"])

lemma stream_state_snd: "\<exists>w. snd (set_stream_state E st s) = set_world w s"
  using stream_state_frame [of E st s] by (cases "set_stream_state E st s") auto

lemma set_state_frame [simp]:
  "ctl (snd (set_stream_state E st s)) = ctl s" "pl (snd (set_stream_state E st s)) = pl s"
  "fd (snd (set_stream_state E st s)) = fd s" "pr (snd (set_stream_state E st s)) = pr s"
  "fifo (snd (set_stream_state E st s)) = fifo s" "trace (snd (set_stream_state E st s)) = trace s"
  "calls (rnfs (snd (set_stream_state E st s))) = calls (rnfs s)"
  "cookies (rnfs (snd (set_stream_state E st s))) = cookies (rnfs s)"
  by (simp_all add: set_stream_state_def split: option.splits prod.splits)

lemma uri_frame [simp]:
  "ctl (set_pipeline_uri E u s) = ctl s" "pl (set_pipeline_uri E u s) = pl s"
  "fd (set_pipeline_uri E u s) = fd s" "pr (set_pipeline_uri E u s) = pr s"
  "fifo (set_pipeline_uri E u s) = fifo s" "trace (set_pipeline_uri E u s) = trace s"
  "calls (rnfs (set_pipeline_uri E u s)) = calls (rnfs s)"
  "cookies (rnfs (set_pipeline_uri E u s)) = cookies (rnfs s)"
  "ctl (wipe_out_uri E s) = ctl s" "pl (wipe_out_uri E s) = pl s" "fd (wipe_out_uri E s) = fd s"
  "pr (wipe_out_uri E s) = pr s" "fifo (wipe_out_uri E s) = fifo s" "trace (wipe_out_uri E s) = trace s"
  "calls (rnfs (wipe_out_uri E s)) = calls (rnfs s)" "cookies (rnfs (wipe_out_uri E s)) = cookies (rnfs s)"
  by (simp_all add: set_pipeline_uri_def wipe_out_uri_def split: option.splits)

lemma seek_frame [simp]:
  "ctl (snd (do_seek E t s)) = ctl s" "pl (snd (do_seek E t s)) = pl s" "fd (snd (do_seek E t s)) = fd s"
  "pr (snd (do_seek E t s)) = pr s" "fifo (snd (do_seek E t s)) = fifo s" "trace (snd (do_seek E t s)) = trace s"
  "calls (rnfs (snd (do_seek E t s))) = calls (rnfs s)"
  "cookies (rnfs (snd (do_seek E t s))) = cookies (rnfs s)"
  by (simp_all add: do_seek_def split: option.splits prod.splits)

lemma do_seek_frame: "do_seek E t s = (ok, s') \<Longrightarrow> \<exists>w. s' = set_world w s"
  by (auto simp: do_seek_def set_world_def world_def split: option.splits prod.splits
      intro: exI [of _ "rworld (rnfs s)"])

lemma queue_update [simp]:
  "queue_wf ne n (snd (get_removed q)) = queue_wf ne n q" "queue_wf ne n (snd (get_dropped q)) = queue_wf ne n q"
  by (simp_all add: get_removed_def get_dropped_def)

lemma dropped_frame [simp]:
  "ctl (snd (mk_id_array_from_dropped_items s)) = ctl s" "pl (snd (mk_id_array_from_dropped_items s)) = pl s"
  "fd (snd (mk_id_array_from_dropped_items s)) = fd s" "rnfs (snd (mk_id_array_from_dropped_items s)) = rnfs s"
  "pr (snd (mk_id_array_from_dropped_items s)) = pr s" "trace (snd (mk_id_array_from_dropped_items s)) = trace s"
  "queue_wf ne n (fifo (snd (mk_id_array_from_dropped_items s))) = queue_wf ne n (fifo s)"
  "queue (fifo (snd (mk_id_array_from_dropped_items s))) = queue (fifo s)"
  by (simp_all add: mk_id_array_from_dropped_items_def get_removed_def get_dropped_def)

lemma dropped_eq:
  "mk_id_array_from_dropped_items s = (ids, s') \<Longrightarrow>
     ctl s' = ctl s \<and> pl s' = pl s \<and> fd s' = fd s \<and> rnfs s' = rnfs s \<and> pr s' = pr s \<and>
     trace s' = trace s \<and> threads s' = threads s \<and> queue (fifo s') = queue (fifo s) \<and>
     (\<forall>ne n. queue_wf ne n (fifo s') = queue_wf ne n (fifo s))"
  by (auto simp: mk_id_array_from_dropped_items_def get_removed_def get_dropped_def)

lemma enter_stopped_frame [simp]:
  "ctl (enter_stopped E s) = (ctl s)\<lparr>supposed_play_status := STOPPED\<rparr>"
  "pl (enter_stopped E s) = (pl s)\<lparr>stream_buffering_data := buffering_reset (stream_buffering_data (pl s))\<rparr>"
  "fd (enter_stopped E s) = fd s" "fifo (enter_stopped E s) = fifo s" "pr (enter_stopped E s) = pr s"
  "calls (rnfs (enter_stopped E s)) = calls (rnfs s)" "cookies (rnfs (enter_stopped E s)) = cookies (rnfs s)"
  by (simp_all add: enter_stopped_def)

lemma control_wf_stopped: "control_wf a st p \<Longrightarrow> control_wf a STOPPED p"
  by (simp add: control_wf_def)

section \<open>Stopping and error recovery\<close>

text \<open>What reporting a stop and replacing the pipeline leave alone.\<close>
lemma emit_stopped_frame [simp]:
  "ctl (emit_stopped E s) = (ctl s)\<lparr>supposed_play_status := STOPPED\<rparr>"
  "pl (emit_stopped E s) = (pl s)\<lparr>stream_buffering_data := buffering_reset (stream_buffering_data (pl s))\<rparr>"
  "fd (emit_stopped E s) = fd s" "queue (fifo (emit_stopped E s)) = queue (fifo s)"
  "queue_wf ne n (fifo (emit_stopped E s)) = queue_wf ne n (fifo s)" "pr (emit_stopped E s) = pr s"
  "calls (rnfs (emit_stopped E s)) = calls (rnfs s)" "cookies (rnfs (emit_stopped E s)) = cookies (rnfs s)"
  by (auto simp: emit_stopped_def dest!: dropped_eq split: prod.splits)

lemma stopped_error_frame:
  "emit_stopped_with_error E r it s = Some s' \<Longrightarrow>
     ctl s' = (ctl s)\<lparr>supposed_play_status := STOPPED\<rparr> \<and>
     pl s' = (pl s)\<lparr>stream_buffering_data := buffering_reset (stream_buffering_data (pl s))\<rparr> \<and>
     fd s' = fd s \<and> pr s' = pr s \<and> queue (fifo s') = queue (fifo s) \<and>
     (\<forall>ne n. queue_wf ne n (fifo s') = queue_wf ne n (fifo s)) \<and>
     calls (rnfs s') = calls (rnfs s) \<and> cookies (rnfs s') = cookies (rnfs s)"
  by (auto simp: emit_stopped_with_error_def bind_eq_Some_conv dest!: dropped_eq
      split: prod.splits option.splits)

lemma disconnect_frame [simp]:
  "ctl (disconnect_playbin_signals E s) = ctl s" "fd (disconnect_playbin_signals E s) = fd s"
  "pr (disconnect_playbin_signals E s) = pr s" "fifo (disconnect_playbin_signals E s) = fifo s"
  "pipeline (pl (disconnect_playbin_signals E s)) = pipeline (pl s)"
  "current_stream (pl (disconnect_playbin_signals E s)) = current_stream (pl s)"
  "next_stream_request (pl (disconnect_playbin_signals E s)) = next_stream_request (pl s)"
  "calls (rnfs (disconnect_playbin_signals E s)) = calls (rnfs s)"
  "cookies (rnfs (disconnect_playbin_signals E s)) = cookies (rnfs s)"
  by (simp_all add: disconnect_playbin_signals_def split: option.splits)

lemma teardown_frame [simp]:
  "ctl (teardown_playbin E s) = ctl s" "fd (teardown_playbin E s) = fd s" "pr (teardown_playbin E s) = pr s"
  "fifo (teardown_playbin E s) = fifo s" "pipeline (pl (teardown_playbin E s)) = None"
  "current_stream (pl (teardown_playbin E s)) = current_stream (pl s)"
  "next_stream_request (pl (teardown_playbin E s)) = next_stream_request (pl s)"
  "signal_handler_ids (pl (teardown_playbin E s)) = signal_handler_ids (pl s)"
  "calls (rnfs (teardown_playbin E s)) = calls (rnfs s)"
  "cookies (rnfs (teardown_playbin E s)) = cookies (rnfs s)"
  by (simp_all add: teardown_playbin_def split: option.splits)

lemma disconnected:
  "pipeline_wf (pipeline (pl s)) (signal_handler_ids (pl s)) \<Longrightarrow>
     signal_handler_ids (pl (disconnect_playbin_signals E s)) = []"
  by (simp add: disconnect_playbin_signals_def pipeline_wf_def split: option.splits)

lemma create_playbin_defined:
  "signal_handler_ids (pl s) = [] \<Longrightarrow> \<exists>ok s'. create_playbin E s = Some (ok, s')"
  by (auto simp: create_playbin_def Let_def split: prod.splits option.splits)

lemma create_playbin_frame:
  "create_playbin E s = Some (ok, s') \<Longrightarrow>
     ctl s' = ctl s \<and> fd s' = fd s \<and> pr s' = pr s \<and> fifo s' = fifo s \<and> trace s' = trace s \<and>
     current_stream (pl s') = current_stream (pl s) \<and>
     next_stream_request (pl s') = next_stream_request (pl s) \<and>
     calls (rnfs s') = calls (rnfs s) \<and> cookies (rnfs s') = cookies (rnfs s) \<and>
     (ok \<longleftrightarrow> pipeline (pl s') \<noteq> None) \<and>
     (signal_handler_ids (pl s) = [] \<longrightarrow> pipeline_wf (pipeline (pl s')) (signal_handler_ids (pl s')))"
  by (auto simp: create_playbin_def Let_def pipeline_wf_def split: prod.splits option.splits if_splits)

lemma rebuild_frame:
  assumes "rebuild_playbin E s = Some (ok, s')"
  shows "ctl s' = ctl s \<and> fd s' = fd s \<and> pr s' = pr s \<and> fifo s' = fifo s \<and>
     current_stream (pl s') = current_stream (pl s) \<and>
     next_stream_request (pl s') = next_stream_request (pl s) \<and>
     calls (rnfs s') = calls (rnfs s) \<and> cookies (rnfs s') = cookies (rnfs s) \<and>
     (ok \<longleftrightarrow> pipeline (pl s') \<noteq> None) \<and>
     (pipeline_wf (pipeline (pl s)) (signal_handler_ids (pl s)) \<longrightarrow>
        pipeline_wf (pipeline (pl s')) (signal_handler_ids (pl s')))"
  using create_playbin_frame [OF assms [unfolded rebuild_playbin_def]] disconnected [of "throttle_threads s" E]
  by simp

lemma rebuild_defined:
  "pipeline_wf (pipeline (pl s)) (signal_handler_ids (pl s)) \<Longrightarrow>
     \<exists>ok s'. rebuild_playbin E s = Some (ok, s')"
  unfolding rebuild_playbin_def
  by (rule create_playbin_defined) (simp add: disconnected)

lemma recovery_frame:
  "do_error_recovery E r s = Some s' \<Longrightarrow>
     supposed_play_status (ctl s') = STOPPED \<and> current_stream (pl s') = None \<and>
     next_stream_request (pl s') = NOT_REQUESTED \<and> \<not> is_failing (fd s') \<and>
     details (fd s') = failure_details_init \<and> queue (fifo s') = queue (fifo s)"
  by (auto simp: do_error_recovery_def do_stop_pipeline_and_recover_from_error_def bind_eq_Some_conv
      failure_fail_def failure_reset_def failure_details_reset_def failure_details_init_def
      dest!: rebuild_frame stopped_error_frame)

lemma core_recovery: "do_error_recovery E r s = Some s' \<Longrightarrow> streamer_core ne s \<longrightarrow> streamer_core ne s'"
  by (auto simp: do_error_recovery_def do_stop_pipeline_and_recover_from_error_def bind_eq_Some_conv
      failure_fail_def failure_reset_def control_wf_stopped dest!: rebuild_frame stopped_error_frame)

lemma core_recover_now_or_later:
  "recover_from_error_now_or_later E d s = Some s' \<Longrightarrow> streamer_core ne s \<longrightarrow> streamer_core ne s'"
  by (auto simp: recover_from_error_now_or_later_def dest!: core_recovery [of _ _ _ _ ne] split: if_splits)

lemma core_workarounds:
  "rebuild_playbin_for_workarounds E s = Some s' \<Longrightarrow> streamer_core ne s \<longrightarrow> streamer_core ne s'"
  by (auto simp: rebuild_playbin_for_workarounds_def bind_eq_Some_conv failure_reset_def dest!: rebuild_frame)

section \<open>The next item\<close>

lemma core_pop_current: "pop_current s = (b, s') \<Longrightarrow> streamer_core ne s \<longrightarrow> streamer_core ne s'"
  using pop_item_wf [of ne "length (calls (rnfs s))" "fifo s"]
  by (auto simp: pop_current_def pop_eq split: if_splits)

lemma core_put_current:
  "streamer_core ne s \<Longrightarrow> item_wf ne (length (calls (rnfs s))) it \<Longrightarrow> current_stream (pl s) = Some it0 \<Longrightarrow>
     item_id it = item_id it0 \<Longrightarrow> streamer_core ne (put_item CurrentItem it s)"
  by (simp add: put_item_def)

lemma core_fail_current: "fail_current E d s = Some s' \<Longrightarrow> streamer_core ne s \<longrightarrow> streamer_core ne s'"
  by (auto simp: fail_current_def Let_def put_item_def item_wf_fail item_fail_id
      dest!: core_recover_now_or_later [of _ _ _ _ ne] split: option.splits prod.splits if_splits)

lemma core_pop_drop: "streamer_core ne s \<Longrightarrow> streamer_core ne (s\<lparr>fifo := snd (pop_drop (fifo s))\<rparr>)"
  using queue_wf_pop_drop [of ne "length (calls (rnfs s))" "fifo s"] by (auto simp: pop_drop_eq)

lemma core_pop: "streamer_core ne s \<Longrightarrow> streamer_core ne (snd (pop_current s))"
  using core_pop_current [of s "fst (pop_current s)" "snd (pop_current s)" ne] by auto

lemma pick_next_item_defined:
  "pick_next_item s = (Some ref, b) \<Longrightarrow>
     (\<exists>it. get_item ref s = Some it) \<and> (if b then ref = FifoHead else ref = CurrentItem)"
  by (auto simp: pick_next_item_def Let_def split: option.splits item_state.splits if_splits)

lemma try_take_next_cases:
  assumes "try_take_next E expected s = Some (nxt, repl, jq, s')"
  obtains (unexpected) "nxt = None" "s' = s" "\<not> expected"
    | (failed) r d s1 where "nxt = None" "s1 = snd (pop_current s) \<or> s1 = s\<lparr>fifo := snd (pop_drop (fifo s))\<rparr>"
        "fail_current E d s1 = Some s'"
    | (recovered) r where "nxt = None" "do_error_recovery E r s = Some s'"
    | (current) it where "nxt = Some CurrentItem" "\<not> repl" "s' = s" "pick_next_item s = (Some CurrentItem, False)"
        "current_stream (pl s) = Some it" "\<not> item_empty it"
    | (popped) it where "nxt = Some CurrentItem" "repl" "s' = snd (pop_current s)" "pick_next_item s = (Some FifoHead, True)"
        "peek (fifo s) = Some it" "\<not> item_empty it"
proof (cases "pick_next_item s")
  case (Pair ref b)
  show ?thesis
  proof (cases ref)
    case None
    then show ?thesis
      using assms Pair that
      by (auto simp: try_take_next_def Let_def bind_eq_Some_conv split: if_splits)
  next
    case (Some r)
    then obtain it where it: "get_item r s = Some it" "if b then r = FifoHead else r = CurrentItem"
      using pick_next_item_defined Pair by blast
    show ?thesis
    proof (cases "item_empty it")
      case True
      then show ?thesis
        using assms Pair Some it that
        by (auto simp: try_take_next_def Let_def bind_eq_Some_conv split: if_splits)
    next
      case False
      then show ?thesis
        using assms Pair Some it that
        by (auto simp: try_take_next_def Let_def bind_eq_Some_conv split: if_splits)
    qed
  qed
qed

lemma core_try_take_next:
  "try_take_next E expected s = Some (nxt, repl, jq, s') \<Longrightarrow> streamer_core ne s \<longrightarrow> streamer_core ne s'"
proof (erule try_take_next_cases)
  fix r d s1
  assume "s1 = snd (pop_current s) \<or> s1 = s\<lparr>fifo := snd (pop_drop (fifo s))\<rparr>" "fail_current E d s1 = Some s'"
  then show "streamer_core ne s \<longrightarrow> streamer_core ne s'"
    using core_pop [of s ne] core_pop_drop [of s ne] core_fail_current [of E d s1 s' ne] by blast
next
  fix r
  assume "do_error_recovery E r s = Some s'"
  then show "streamer_core ne s \<longrightarrow> streamer_core ne s'"
    by (rule core_recovery)
next
  assume "s' = snd (pop_current s)"
  then show "streamer_core ne s \<longrightarrow> streamer_core ne s'"
    using core_pop [of s ne] by blast
qed auto

lemma taken_item:
  assumes "try_take_next E expected s = Some (Some ref, repl, jq, s')"
  shows "ref = CurrentItem \<and> (\<exists>it. current_stream (pl s') = Some it \<and> \<not> item_empty it)"
  using assms
proof (cases rule: try_take_next_cases)
  case (popped it)
  then show ?thesis by (auto simp: pop_current_def pop_eq peek_eq split: if_splits)
qed auto

section \<open>Resolving\<close>

lemma get_item_rnfs [simp]: "get_item ref (s\<lparr>rnfs := r\<rparr>) = get_item ref s"
  by (cases ref) simp_all

lemma core_get_item:
  "get_item ref s = Some it \<Longrightarrow> streamer_core ne s \<longrightarrow>
     item_wf ne (length (calls (rnfs s))) it \<and>
     (ref = FifoHead \<longrightarrow> item_state it \<in> {IN_QUEUE, ABOUT_TO_ACTIVATE})"
  using queue_wf_head [of ne "length (calls (rnfs s))" "fifo s" it] by (cases ref) auto

lemma core_put_item:
  "streamer_core ne s \<Longrightarrow> get_item ref s = Some it0 \<Longrightarrow> item_id it = item_id it0 \<Longrightarrow>
     item_wf ne (length (calls (rnfs s))) it \<Longrightarrow>
     (ref = FifoHead \<longrightarrow> item_state it \<in> {IN_QUEUE, ABOUT_TO_ACTIVATE}) \<Longrightarrow>
     streamer_core ne (put_item ref it s)"
  by (cases ref) (auto simp: put_item_def ids_update_head intro!: queue_wf_update_head)

lemma put_item_frame [simp]:
  "ctl (put_item ref it s) = ctl s" "fd (put_item ref it s) = fd s" "pr (put_item ref it s) = pr s"
  "rnfs (put_item ref it s) = rnfs s" "trace (put_item ref it s) = trace s" "world (put_item ref it s) = world s"
  "pipeline (pl (put_item ref it s)) = pipeline (pl s)"
  "signal_handler_ids (pl (put_item ref it s)) = signal_handler_ids (pl s)"
  "next_stream_request (pl (put_item ref it s)) = next_stream_request (pl s)"
  "stream_buffering_data (pl (put_item ref it s)) = stream_buffering_data (pl s)"
  by (cases ref; simp add: put_item_def world_def)+

text \<open>An underrun changes the buffering data, the threads and the world only.\<close>
lemma underrun_frame:
  assumes "handle_buffer_underrun E s = Some s'"
  shows "ctl s' = ctl s \<and> fd s' = fd s \<and> pr s' = pr s \<and> fifo s' = fifo s \<and>
    pipeline (pl s') = pipeline (pl s) \<and> signal_handler_ids (pl s') = signal_handler_ids (pl s) \<and>
    current_stream (pl s') = current_stream (pl s) \<and> next_stream_request (pl s') = next_stream_request (pl s) \<and>
    calls (rnfs s') = calls (rnfs s) \<and> cookies (rnfs s') = cookies (rnfs s)"
proof (cases "is_buffering (stream_buffering_data (pl s))")
  case True
  then show ?thesis using assms by (simp add: handle_buffer_underrun_def)
next
  case False
  then obtain p where p: "pipeline (pl s) = Some p"
    using assms by (auto simp: handle_buffer_underrun_def bind_eq_Some_conv)
  obtain r cur pend where "gst_element_get_state E p (world s) = (r, cur, pend)"
    by (metis prod_cases3)
  then show ?thesis
    using assms False p
    by (cases "gst_target_state E p (world s)") (auto simp: handle_buffer_underrun_def Let_def)
qed

lemma core_underrun: "handle_buffer_underrun E s = Some s' \<Longrightarrow> streamer_core ne s \<longrightarrow> streamer_core ne s'"
  by (simp add: underrun_frame)

lemma core_encourage: "do_encourage_buffering E s = Some s' \<Longrightarrow> streamer_core ne s \<longrightarrow> streamer_core ne s'"
  by (auto simp: do_encourage_buffering_def bind_eq_Some_conv dest!: core_underrun [of _ _ _ ne] split: if_splits)

lemma core_start_resolved:
  "start_resolved E st s = Some (b, s') \<Longrightarrow> streamer_core ne s \<longrightarrow> streamer_core ne s'"
  by (auto simp: start_resolved_def bind_eq_Some_conv dest!: core_encourage [of _ _ _ ne] stream_state_frame
      split: if_splits prod.splits)

lemma start_required_state:
  "is_pipeline_start_required it = (b, it') \<Longrightarrow> item_state it' = item_state it \<and> item_id it' = item_id it"
  by (auto simp: is_pipeline_start_required_def)

lemma core_on_link_resolved:
  assumes "on_link_resolved E changed stream st prefetching s = Some (b, s')"
  shows "streamer_core ne s \<longrightarrow> streamer_core ne s'"
proof
  assume ok: "streamer_core ne s"
  show "streamer_core ne s'"
  proof (cases changed)
    case True
    then show ?thesis using assms ok by (simp add: on_link_resolved_def)
  next
    case False
    then obtain it uri where it: "get_item stream s = Some it" "get_url_for_playing it = Some uri"
      using assms by (auto simp: on_link_resolved_def bind_eq_Some_conv)
    note wf = core_get_item [OF it(1), of ne, rule_format, OF ok]
    define s2 where "s2 = (set_pipeline_uri E uri s)\<lparr>pl := (pl s)\<lparr>next_stream_request := NOT_REQUESTED\<rparr>\<rparr>"
    have s2: "streamer_core ne s2" "calls (rnfs s2) = calls (rnfs s)"
      using ok by (simp_all add: s2_def)
    obtain required it1 where req: "is_pipeline_start_required it = (required, it1)"
      by force
    have "get_item stream s2 = Some it"
      using it(1) by (cases stream) (simp_all add: s2_def)
    then have s3: "streamer_core ne (put_item stream it1 s2)"
      using core_put_item [OF s2(1), of stream it it1] wf s2(2) item_wf_start_required [OF req]
        start_required_state [OF req] by simp
    show ?thesis
      using assms False it req s2(1) s3 ok core_start_resolved [of E _ _ b s' ne]
      by (auto simp: on_link_resolved_def Let_def s2_def [symmetric] split: if_splits
          dest!: core_start_resolved [of _ _ _ _ _ ne])
  qed
qed

lemma core_get_resolver:
  assumes "streamer_core ne s" "get_item ref s = Some it" "resolver it = Some i"
  shows "i < length (calls (rnfs s))"
  using core_get_item [OF assms(2), of ne] assms(1,3) by (auto simp: item_wf_def)

lemma core_rnfs:
  assumes "streamer_core ne s" "rnf_world_ok r" "length (calls (rnfs s)) \<le> length (calls r)"
  shows "streamer_core ne (s\<lparr>rnfs := r\<rparr>)"
  using assms
  by (auto simp: calls_wf_world intro: queue_wf_mono item_wf_mono option.pred_mono_strong)

lemma core_calls: "streamer_core ne s \<Longrightarrow> rnf_world_ok (rnfs s)"
  by (simp add: calls_wf_world)

text \<open>Aborting a resolver that may be active.\<close>
lemma abort_old_ok:
  assumes ok: "streamer_core ne s" and it: "get_item ref s = Some it"
  shows "\<exists>r. (case resolver it of None \<Rightarrow> Some (rnfs s)
      | Some old \<Rightarrow> map_option snd (call_abort_request E old (rnfs s))) = Some r \<and>
      rnf_world_ok r \<and> length (calls r) = length (calls (rnfs s))"
proof (cases "resolver it")
  case None
  then show ?thesis using core_calls [OF ok] by simp
next
  case (Some old)
  then show ?thesis
    using call_abort_request_ok [OF core_calls [OF ok] core_get_resolver [OF ok it Some], of E] by force
qed

lemma resolver_begin_ok:
  assumes ok: "streamer_core ne s" and it: "get_item ref s = Some it" "get_url_for_reporting it = Some url"
  shows "\<exists>i n s'. resolver_begin E ref ctx s = Some (i, n, s') \<and> streamer_core ne s' \<and>
    i < length (calls (rnfs s')) \<and> ctl s' = ctl s \<and> fd s' = fd s \<and> pr s' = pr s \<and> trace s' = trace s \<and>
    pipeline (pl s') = pipeline (pl s) \<and> get_item ref s' = Some (it\<lparr>resolver := Some i\<rparr>)"
proof -
  obtain r0 where r0: "(case resolver it of None \<Rightarrow> Some (rnfs s)
      | Some old \<Rightarrow> map_option snd (call_abort_request E old (rnfs s))) = Some r0"
      "rnf_world_ok r0" "length (calls r0) = length (calls (rnfs s))"
    using abort_old_ok [OF ok it(1)] by blast
  define i where "i = length (calls r0)"
  define r1 where "r1 = r0\<lparr>calls := calls r0 @ [new_call E url ctx]\<rparr>"
  define s1 where "s1 = put_item ref (it\<lparr>resolver := Some i\<rparr>) (s\<lparr>rnfs := r1\<rparr>)"
  have r1: "rnf_world_ok r1" "length (calls r1) = Suc i" "cstate (rnf (calls r1 ! i)) = INITIALIZED"
    using rnf_world_ok_new [OF r0(2)] by (simp_all add: r1_def i_def new_call_def call_init_def)
  have i: "i < length (calls r1)" by (simp add: r1)
  have base: "streamer_core ne (s\<lparr>rnfs := r1\<rparr>)"
    by (rule core_rnfs [OF ok r1(1)]) (simp add: r1 i_def r0(3))
  have "item_wf ne (length (calls (rnfs (s\<lparr>rnfs := r1\<rparr>)))) (it\<lparr>resolver := Some i\<rparr>)"
    using core_get_item [OF it(1), of ne] ok r1(2) r0(3)
    by (auto simp: i_def intro!: item_wf_resolver intro: item_wf_mono)
  then have s1: "streamer_core ne s1"
    unfolding s1_def using core_get_item [OF it(1), of ne] ok it(1) by (intro core_put_item [OF base, of ref it]) simp_all
  have rs1: "rnfs s1 = r1" by (simp add: s1_def)
  have get1: "get_item ref s1 = Some (it\<lparr>resolver := Some i\<rparr>)"
    using it(1) by (cases ref) (auto simp: s1_def put_item_def peek_eq update_head_eq split: if_splits)
  obtain act r2 where r2: "cookie_request E i r1 = Some (act, r2)" "rnf_world_ok r2"
      "length (calls r2) = length (calls r1)"
    using cookie_request_ok [OF r1(1) i r1(3)] by blast
  have unf: "resolver_begin E ref ctx s = (case act of
        FastPath \<Rightarrow> do { (st, r3) \<leftarrow> fetch_and_notify E i r2; Some (i, st, s1\<lparr>rnfs := r3\<rparr>) }
      | _ \<Rightarrow> Some (i, None, s1\<lparr>rnfs := r2\<rparr>))"
    using it r0(1) r2(1)
    by (cases act) (simp_all add: resolver_begin_def Let_def s1_def r1_def i_def)
  have frame: "ctl s1 = ctl s \<and> fd s1 = fd s \<and> pr s1 = pr s \<and> trace s1 = trace s \<and> pipeline (pl s1) = pipeline (pl s)"
    by (simp add: s1_def)
  have get: "get_item ref (s1\<lparr>rnfs := r\<rparr>) = Some (it\<lparr>resolver := Some i\<rparr>)" for r
    using get1 by (cases ref) simp_all
  show ?thesis
  proof (cases "act = FastPath")
    case True
    obtain st r3 where r3: "fetch_and_notify E i r2 = Some (st, r3)" "rnf_world_ok r3"
        "length (calls r3) = length (calls r2)"
      using fetch_and_notify_ok [OF r2(2), of i E] i r2(3) by auto
    have "streamer_core ne (s1\<lparr>rnfs := r3\<rparr>)"
      by (rule core_rnfs [OF s1 r3(2)]) (simp add: rs1 r2(3) r3(3))
    then show ?thesis using unf True r3 r2(3) i frame get [of r3] by simp
  next
    case False
    have "streamer_core ne (s1\<lparr>rnfs := r2\<rparr>)"
      by (rule core_rnfs [OF s1 r2(2)]) (simp add: rs1 r2(3))
    then show ?thesis using unf False r2(3) i frame get [of r2] by (cases act) simp_all
  qed
qed

lemma get_put [simp]: "get_item ref s = Some it \<Longrightarrow> get_item ref (put_item ref it1 s) = Some it1"
  by (cases ref) (auto simp: put_item_def peek_eq update_head_eq split: if_splits)

lemma get_put_other: "get_item ref s = Some it \<Longrightarrow> ref' \<noteq> ref \<Longrightarrow> get_item ref' (put_item ref it1 s) = get_item ref' s"
  by (cases ref; cases ref') (auto simp: put_item_def)

lemma resolver_rank_alt:
  "resolver_rank s = (case get_item CurrentItem s of None \<Rightarrow> 0 | Some it \<Rightarrow> urls_left it)
     + (case get_item FifoHead s of None \<Rightarrow> 0 | Some it \<Rightarrow> urls_left it)"
  by (simp add: resolver_rank_def)

lemma resolver_rank_rnfs [simp]: "resolver_rank (s\<lparr>rnfs := r\<rparr>) = resolver_rank s"
  by (simp add: resolver_rank_def)

lemma resolver_rank_put:
  "get_item ref s = Some it \<Longrightarrow> resolver_rank (put_item ref it1 s) + urls_left it = resolver_rank s + urls_left it1"
  using get_put_other [of ref s it CurrentItem it1] get_put_other [of ref s it FifoHead it1] get_put [of ref s it it1]
  by (cases ref) (simp_all add: resolver_rank_alt del: get_put)

text \<open>What the resolver's end does to the state: the call may have given away its result, and the
  item forgets its resolver.\<close>
lemma finish_resolver_frame:
  assumes "finish_resolver E i st ref s = Some (res, s')"
  shows "\<exists>it it1 r. get_item ref s = Some it \<and> s' = put_item ref it1 (s\<lparr>rnfs := r\<rparr>) \<and>
    item_ok it1 = item_ok it \<and> resolver it1 = None \<and> item_state it1 = item_state it \<and>
    item_empty it1 = item_empty it \<and> item_id it1 = item_id it \<and> urls_left it1 = urls_left it \<and>
    (rnf_world_ok (rnfs s) \<longrightarrow> rnf_world_ok r) \<and> length (calls r) = length (calls (rnfs s)) \<and>
    (res = HAVE_MORE_URLS \<longrightarrow> (\<exists>now. resolver_finish_state now URL_BROKEN it = Some (res, it1)))"
proof -
  obtain it where it: "get_item ref s = Some it"
    using assms by (auto simp: finish_resolver_def Let_def bind_eq_Some_conv)
  have broken: "\<exists>it1. s' = put_item ref it1 s1 \<and> resolver_finish_state (timebase_now E (world s)) URL_BROKEN it = Some (res, it1)"
    if "do { (res, it1) \<leftarrow> resolver_finish_state (timebase_now E (world s)) URL_BROKEN it;
             Some (res, put_item ref it1 s1) } = Some (res, s')" for s1
    using that by (auto simp: bind_eq_Some_conv)
  have same: "s = s\<lparr>rnfs := rnfs s\<rparr>" by simp
  show ?thesis
  proof (cases "st = RESULT_FETCHED")
    case False
    then have "\<exists>it1. s' = put_item ref it1 s \<and> resolver_finish_state (timebase_now E (world s)) URL_BROKEN it = Some (res, it1)"
      using assms it by (intro broken) (cases st; simp add: finish_resolver_def Let_def)
    then show ?thesis
      using finish_state_frame it same by metis
  next
    case True
    obtain c where c: "get_call i (rnfs s) = Some c"
      using assms it True by (auto simp: finish_resolver_def Let_def bind_eq_Some_conv)
    obtain result c1 where g: "get_result_unlocked (rnf c) = Some (result, c1)"
      using assms it True c by (auto simp: finish_resolver_def Let_def bind_eq_Some_conv)
    define r where "r = update_rnf i (\<lambda>_. c1) (rnfs s)"
    have r: "rnf_world_ok (rnfs s) \<longrightarrow> rnf_world_ok r" "length (calls r) = length (calls (rnfs s))"
      using c g postD [OF call_ok_get_result g] by (auto simp: r_def rnf_world_ok_set rnf_world_ok_nth)
    show ?thesis
    proof (cases result)
      case (Inl e)
      have "\<exists>it1. s' = put_item ref it1 (s\<lparr>rnfs := r\<rparr>) \<and> resolver_finish_state (timebase_now E (world s)) URL_BROKEN it = Some (res, it1)"
        using assms it True c g Inl
        by (intro broken) (cases e; simp add: finish_resolver_def Let_def r_def)
      then show ?thesis
        using finish_state_frame it r by metis
    next
      case (Inr v)
      then obtain it1 where f: "resolver_finish_uri (timebase_now E (world s)) (rr_url v) (rr_expected_valid v) it = Some (res, it1)"
          "s' = put_item ref it1 (s\<lparr>rnfs := r\<rparr>)"
        using assms it True c g by (auto simp: finish_resolver_def Let_def bind_eq_Some_conv r_def)
      then have "res = HAVE_MORE_URLS \<longrightarrow> (\<exists>now. resolver_finish_state now URL_BROKEN it = Some (res, it1))"
        by (auto simp: resolver_finish_uri_def bind_eq_Some_conv split: if_splits)
      then show ?thesis
        using finish_uri_frame [OF f(1)] it r f(2) by blast
    qed
  qed
qed

lemma core_finish_resolver:
  assumes "finish_resolver E i st ref s = Some (res, s')" and ok: "streamer_core ne s"
  shows "streamer_core ne s'"
proof -
  obtain it it1 r where f: "get_item ref s = Some it" "s' = put_item ref it1 (s\<lparr>rnfs := r\<rparr>)"
      "item_ok it1 = item_ok it" "resolver it1 = None" "item_state it1 = item_state it"
      "item_empty it1 = item_empty it" "rnf_world_ok (rnfs s) \<longrightarrow> rnf_world_ok r"
      "length (calls r) = length (calls (rnfs s))" "item_id it1 = item_id it"
    using finish_resolver_frame [OF assms(1)] by blast
  have base: "streamer_core ne (s\<lparr>rnfs := r\<rparr>)"
    using core_rnfs [OF ok, of r] core_calls [OF ok] f by simp
  show ?thesis
    unfolding f(2)
    by (rule core_put_item [OF base, of ref it]) (use core_get_item [OF f(1), of ne] ok f in \<open>auto simp: item_wf_def\<close>)
qed

text \<open>After a failed attempt the next URL is a different one.\<close>
lemma select_after_finish:
  assumes "resolver_finish_state now URL_BROKEN it = Some (res, it1)" "select_next_url now' it1 = Some (True, it2)"
  shows "urls_left it2 < urls_left it"
proof -
  obtain u where u: "get_selected (item_urls it) = Some u"
    using assms(1) by (auto simp: resolver_finish_state_def bind_eq_Some_conv)
  have urls: "item_urls it1 = update_selected (\<lambda>_. set_resolved_uri [] 0 now u) (item_urls it)"
    using assms(1) u by (auto simp: resolver_finish_state_def Let_def)
  have u1: "get_selected (item_urls it1) = Some (set_resolved_uri [] 0 now u)"
    using u by (simp add: urls get_selected_update)
  have "clear_expired_uri now' (set_resolved_uri [] 0 now u) = (False, set_resolved_uri [] 0 now u)"
    by (auto simp: clear_expired_uri_def set_resolved_uri_def)
  then show ?thesis
    using assms(2) u1
    by (auto simp: select_next_url_def select_next_index_def urls_left_def urls split: if_splits)
qed

text \<open>The item that is found exists; a further attempt is made on it with fewer URLs left.\<close>
lemma find_resolved_item_Some:
  "find_resolved_item sid s = Some ref \<Longrightarrow> \<exists>it. get_item ref s = Some it \<and> item_id it = sid"
  by (auto simp: find_resolved_item_def Let_def split: option.splits if_splits)

lemma notify_resolved_cases:
  assumes "notify_resolved E i st s = Some (again, s')"
  obtains (nothing) "again = None" "s' = s"
    | (finished) ref s1 where "again = None" "finish_resolver E i st ref s = Some (RESOLVER_FAILED, s1)" "s' = s1"
    | (resolved) ref s1 b next_state prefetching where "again = None"
        "finish_resolver E i st ref s = Some (RESOLVED, s1)"
        "on_link_resolved E False ref next_state prefetching s1 = Some (b, s')"
    | (more) ref s1 it it1 where "again = Some ref"
        "finish_resolver E i st ref s = Some (HAVE_MORE_URLS, s1)" "get_item ref s1 = Some it"
        "select_next_url (timebase_now E (world s1)) it = Some (True, it1)" "s' = put_item ref it1 s1"
    | (no_more) ref s1 it it1 where "again = None"
        "finish_resolver E i st ref s = Some (HAVE_MORE_URLS, s1)" "get_item ref s1 = Some it"
        "select_next_url (timebase_now E (world s1)) it = Some (False, it1)" "s' = put_item ref it1 s1"
  using assms
  by (auto simp: notify_resolved_def Let_def bind_eq_Some_conv split: if_splits option.splits
      resolver_result.splits) (metis resolver_result.exhaust)

lemma core_put_selected:
  assumes ok: "streamer_core ne s" and it: "get_item ref s = Some it" "select_next_url now it = Some (b, it1)"
  shows "streamer_core ne (put_item ref it1 s)"
proof -
  note wf = core_get_item [OF it(1), of ne, rule_format, OF ok]
  then have "item_ok it" by (simp add: item_wf_def)
  then show ?thesis
    by (intro core_put_item [OF ok it(1)])
      (use wf item_wf_select [OF it(2)] select_next_url_frame [OF it(2)] in auto)
qed

lemma core_notify:
  assumes "notify_resolved E i st s = Some (again, s')" and ok: "streamer_core ne s"
  shows "streamer_core ne s'"
  using assms(1)
proof (cases rule: notify_resolved_cases)
  case nothing
  then show ?thesis using ok by simp
next
  case (finished ref s1)
  then show ?thesis using core_finish_resolver [OF finished(2) ok] by simp
next
  case (resolved ref s1 b next_state prefetching)
  then show ?thesis
    using core_on_link_resolved [OF resolved(3), of ne] core_finish_resolver [OF resolved(2) ok] by blast
next
  case (more ref s1 it it1)
  show ?thesis
    unfolding more(5) by (rule core_put_selected [OF core_finish_resolver [OF more(2) ok] more(3,4)])
next
  case (no_more ref s1 it it1)
  show ?thesis
    unfolding no_more(5)
    by (rule core_put_selected [OF core_finish_resolver [OF no_more(2) ok] no_more(3,4)])
qed

lemma notify_rank:
  assumes "notify_resolved E i st s = Some (Some ref, s')"
  shows "resolver_rank s' < resolver_rank s"
  using assms
proof (cases rule: notify_resolved_cases)
  case (more ref' s1 it it1)
  obtain it0 it1' r now where f: "get_item ref' s = Some it0" "s1 = put_item ref' it1' (s\<lparr>rnfs := r\<rparr>)"
      "resolver_finish_state now URL_BROKEN it0 = Some (HAVE_MORE_URLS, it1')"
    using finish_resolver_frame [OF more(2)] by auto
  have "it = it1'"
    using more(3) f by simp
  then have "urls_left it1 < urls_left it0"
    using select_after_finish [OF f(3)] more by (auto split: if_splits)
  moreover have "resolver_rank s1 + urls_left it0 = resolver_rank s + urls_left it1'"
    using resolver_rank_put [of ref' "s\<lparr>rnfs := r\<rparr>" it0 it1'] f by simp
  moreover have "resolver_rank s' + urls_left it1' = resolver_rank s1 + urls_left it1"
    using resolver_rank_put [OF more(3), of it1] more(5) \<open>it = it1'\<close> by simp
  ultimately show ?thesis by linarith
qed auto

lemma resolver_begin_rank:
  "resolver_begin E ref ctx s = Some (i, n, s') \<Longrightarrow> resolver_rank s' = resolver_rank s"
proof -
  assume a: "resolver_begin E ref ctx s = Some (i, n, s')"
  then obtain it where it: "get_item ref s = Some it"
    by (auto simp: resolver_begin_def bind_eq_Some_conv)
  have "\<exists>r r'. s' = (put_item ref (it\<lparr>resolver := Some i\<rparr>) (s\<lparr>rnfs := r\<rparr>))\<lparr>rnfs := r'\<rparr>"
    using a it
    by (auto simp: resolver_begin_def Let_def bind_eq_Some_conv split: request_action.splits)
      (blast | metis request_action.exhaust)+
  then show ?thesis
    using resolver_rank_put [of ref "s\<lparr>rnfs := r\<rparr>" it "it\<lparr>resolver := Some i\<rparr>" for r] it
    by (auto simp: urls_left_def)
qed

text \<open>More fuel than the rank makes no difference.\<close>
lemma resolve_fuel:
  "resolver_rank s < n \<Longrightarrow> resolver_rank s < m \<Longrightarrow>
     resolve_selected_url n E changed ref st prefetching s = resolve_selected_url m E changed ref st prefetching s"
proof (induction n arbitrary: m s changed ref)
  case 0
  then show ?case by simp
next
  case (Suc n)
  then obtain m' where m: "m = Suc m'" by (cases m) auto
  have "resolve_selected_url n E False ref' st prefetching s2 = resolve_selected_url m' E False ref' st prefetching s2"
    if "resolver_begin E ref ctx s = Some (i, no, s1)" "notify_resolved E i cst s1 = Some (Some ref', s2)"
    for ctx i no s1 cst ref' s2
    using Suc.prems m resolver_begin_rank [OF that(1)] notify_rank [OF that(2)] by (intro Suc.IH) auto
  then show ?case
    unfolding m
    by (auto intro!: Option.bind_cong split: option.splits url_state.splits prod.splits)
qed

lemma core_resolver_begin:
  assumes "resolver_begin E ref ctx s = Some (i, n, s')" and ok: "streamer_core ne s"
  shows "streamer_core ne s'"
proof -
  obtain it url where "get_item ref s = Some it" "get_url_for_reporting it = Some url"
    using assms(1) by (auto simp: resolver_begin_def bind_eq_Some_conv)
  then show ?thesis
    using resolver_begin_ok [OF ok, of ref it url E ctx] assms(1) by auto
qed

text \<open>What \<open>resolve_selected_url_or_play_uri()\<close> does, one level of the recursion at a time.\<close>
lemma resolve_cases:
  assumes "resolve_selected_url (Suc n) E changed ref st prefetching s = Some (b, s')"
  obtains (nothing) "s' = s"
    | (play) "on_link_resolved E changed ref st prefetching s = Some (b, s')"
    | (pending) i ctx where "resolver_begin E ref ctx s = Some (i, None, s')"
    | (answered) i ctx cst s1 where "resolver_begin E ref ctx s = Some (i, Some cst, s1)"
        "notify_resolved E i cst s1 = Some (None, s')"
    | (again) i ctx cst s1 ref' s2 b' where "resolver_begin E ref ctx s = Some (i, Some cst, s1)"
        "notify_resolved E i cst s1 = Some (Some ref', s2)"
        "resolve_selected_url n E False ref' st prefetching s2 = Some (b', s')"
proof -
  obtain it us where "get_item ref s = Some it" "get_selected_url_state it = Some us"
    using assms by (auto simp: bind_eq_Some_conv)
  note st = this
  show ?thesis
  proof (cases "us = KNOWN_AIRABLE_LINK")
    case True
    define ctx where "ctx = \<lparr>rctx_stream_id = item_id it, rctx_next_state = st, rctx_prefetching = prefetching\<rparr>"
    obtain i no s1 where b: "resolver_begin E ref ctx s = Some (i, no, s1)"
      using assms st True by (auto simp: bind_eq_Some_conv ctx_def)
    show ?thesis
    proof (cases no)
      case None
      then show ?thesis using assms st True b that(3) by (auto simp: bind_eq_Some_conv ctx_def)
    next
      case (Some cst)
      obtain more s2 where n: "notify_resolved E i cst s1 = Some (more, s2)"
        using assms st True b Some by (auto simp: bind_eq_Some_conv ctx_def)
      show ?thesis
        using assms st True b Some n that(4,5)
        by (cases more) (auto simp: bind_eq_Some_conv ctx_def)
    qed
  next
    case False
    then show ?thesis
      using assms st that(1,2) by (cases us) (auto simp: bind_eq_Some_conv)
  qed
qed

lemma core_resolve_fuel:
  "resolve_selected_url n E changed ref st prefetching s = Some (b, s') \<Longrightarrow> streamer_core ne s
     \<Longrightarrow> streamer_core ne s'"
proof (induction n arbitrary: changed ref s b)
  case 0
  then show ?case by simp
next
  case (Suc n)
  note ok = Suc.prems(2)
  from Suc.prems(1) show ?case
  proof (cases rule: resolve_cases)
    case nothing
    then show ?thesis using ok by simp
  next
    case play
    then show ?thesis using core_on_link_resolved [OF play, of ne] ok by blast
  next
    case (pending i ctx)
    then show ?thesis by (rule core_resolver_begin [OF _ ok])
  next
    case (answered i ctx cst s1)
    then show ?thesis by (intro core_notify [OF answered(2)] core_resolver_begin [OF answered(1) ok])
  next
    case (again i ctx cst s1 ref' s2 b')
    show ?thesis
      by (rule Suc.IH [OF again(3)])
        (intro core_notify [OF again(2)] core_resolver_begin [OF again(1) ok])
  qed
qed

lemma core_resolve:
  "resolve_selected_url_or_play_uri E changed ref st prefetching s = Some (b, s') \<Longrightarrow>
     streamer_core ne s \<longrightarrow> streamer_core ne s'"
  unfolding resolve_selected_url_or_play_uri_def by (intro impI) (rule core_resolve_fuel)

lemma core_context_notify:
  "context_notify E i st s = Some s' \<Longrightarrow> streamer_core ne s \<longrightarrow> streamer_core ne s'"
proof
  assume a: "context_notify E i st s = Some s'" and ok: "streamer_core ne s"
  obtain again s1 where n: "notify_resolved E i st s = Some (again, s1)"
    using a by (auto simp: context_notify_def bind_eq_Some_conv)
  have s1: "streamer_core ne s1" by (rule core_notify [OF n ok])
  show "streamer_core ne s'"
  proof (cases again)
    case None
    then show ?thesis using a n s1 by (simp add: context_notify_def)
  next
    case (Some ref)
    then obtain st' b pre where "resolve_selected_url_or_play_uri E False ref st' pre s1 = Some (b, s')"
      using a n by (auto simp: context_notify_def bind_eq_Some_conv)
    then show ?thesis using core_resolve s1 by blast
  qed
qed

section \<open>Playing the next item\<close>

lemma core_update_state:
  assumes ok: "streamer_core ne s" and st: "ref = CurrentItem \<or> st = ABOUT_TO_ACTIVATE"
  shows "streamer_core ne (update_item ref (set_item_state st) s)"
  using ok st queue_wf_head [of ne "length (calls (rnfs s))" "fifo s"]
  by (cases ref) (auto simp: ids_update_head intro!: queue_wf_update_head)

lemma core_play_next:
  assumes "play_next_stream E changed replaced nxt st skipping prefetching s = Some (b, s')"
    and "replaced \<noteq> Some FifoHead"
  shows "streamer_core ne s \<longrightarrow> streamer_core ne s'"
proof
  assume ok: "streamer_core ne s"
  obtain it where it: "get_item nxt s = Some it" "\<not> changed"
    using assms(1) by (auto simp: play_next_stream_def bind_eq_Some_conv split: if_splits)
  define s1 where "s1 = update_item nxt (set_item_state ABOUT_TO_ACTIVATE) s"
  have s1: "streamer_core ne s1"
    unfolding s1_def by (rule core_update_state [OF ok]) simp
  have s2: "streamer_core ne (update_item CurrentItem (set_item_state st') s1)" for st'
    by (rule core_update_state [OF s1]) simp
  show "streamer_core ne s'"
  proof (cases "item_state it")
    case IN_QUEUE
    then show ?thesis
      using assms it s1 s2
      by (cases replaced; cases "the replaced")
        (auto simp: play_next_stream_def Let_def s1_def [symmetric] simp del: update_item.simps
          dest!: core_resolve [of _ _ _ _ _ _ _ _ ne])
  qed (use assms(1) it ok in \<open>auto simp: play_next_stream_def split: if_splits\<close>)
qed

lemma core_queue_unlocked:
  assumes "queue_stream_from_url_fifo_unlocked E changed s = Some s'"
  shows "streamer_core ne s \<longrightarrow> streamer_core ne s'"
proof -
  obtain nxt b where p: "pick_next_item s = (nxt, b)" by force
  show ?thesis
  proof (cases nxt)
    case None
    then show ?thesis
      using assms p core_update_state [of s ne CurrentItem ABOUT_TO_PHASE_OUT]
      by (auto simp: queue_stream_from_url_fifo_unlocked_def simp del: update_item.simps split: if_splits)
  next
    case (Some ref)
    then show ?thesis
      using assms p
      by (auto simp: queue_stream_from_url_fifo_unlocked_def
          dest!: core_play_next [of _ _ _ _ _ _ _ _ _ _ ne] split: if_splits)
  qed
qed

lemma core_try_play_next:
  "try_play_next_stream E changed st s = Some s' \<Longrightarrow> streamer_core ne s \<longrightarrow> streamer_core ne s'"
proof -
  assume a: "try_play_next_stream E changed st s = Some s'"
  then obtain nxt c j s1 where t: "try_take_next E True s = Some (nxt, c, j, s1)"
    by (auto simp: try_play_next_stream_def bind_eq_Some_conv)
  have "streamer_core ne s1 \<longrightarrow> streamer_core ne s'"
  proof (cases nxt)
    case None
    then show ?thesis using a t by (simp add: try_play_next_stream_def)
  next
    case (Some ref)
    show ?thesis
    proof (cases "c \<or> j")
      case True
      then obtain b where "play_next_stream E changed None ref st False False s1 = Some (b, s')"
        using a t Some by (auto simp: try_play_next_stream_def)
      then show ?thesis by (rule core_play_next) simp
    next
      case False
      then show ?thesis using a t Some by (simp add: try_play_next_stream_def)
    qed
  qed
  then show ?thesis using core_try_take_next [OF t, of ne] by blast
qed

end
