(* ===== verification/Streamer_Steps.thy ===== *)
theory Streamer_Steps
  imports Streamer_Invariant
begin

text \<open>
  The invariant is kept by every callback and every function of the public interface, and so it
  holds in every state the streamer can reach: the step relation \<open>streamer_step\<close> has a step for
  every entry point, with any arguments, and steps for what happens outside of the streamer.
\<close>

section \<open>Callbacks\<close>

lemma core_queue_stream:
  "queue_stream_from_url_fifo E elem s = Some s' \<Longrightarrow> streamer_core ne s \<longrightarrow> streamer_core ne s'"
  by (auto simp: queue_stream_from_url_fifo_def dest!: core_queue_unlocked [of _ _ _ _ ne] split: if_splits)

lemma when_ready_state:
  "pipeline_start_required_when_ready it = Some (b, it') \<Longrightarrow>
     item_state it' = item_state it \<and> item_id it' = item_id it"
  by (auto simp: pipeline_start_required_when_ready_def Let_def bind_eq_Some_conv)

lemma core_eos_queue:
  assumes "end_of_stream_queue E s = Some (b, s')"
  shows "streamer_core ne s \<longrightarrow> streamer_core ne s'"
proof
  assume ok: "streamer_core ne s"
  show "streamer_core ne s'"
  proof (cases "peek (fifo s)")
    case None
    then show ?thesis using assms ok by (auto simp: end_of_stream_queue_def control_wf_stopped)
  next
    case (Some it)
    obtain req it1 where w: "pipeline_start_required_when_ready it = Some (req, it1)"
      using assms Some by (auto simp: end_of_stream_queue_def bind_eq_Some_conv)
    have "streamer_core ne (put_item FifoHead it1 s)"
      using core_get_item [of FifoHead s it ne] Some ok item_wf_when_ready [OF w] when_ready_state [OF w]
      by (intro core_put_item [OF ok, of FifoHead it]) auto
    then show ?thesis
      using assms Some w
      by (cases req) (auto simp: end_of_stream_queue_def Let_def control_wf_stopped)
  qed
qed

lemma core_eos: "handle_end_of_stream E src s = Some s' \<Longrightarrow> streamer_core ne s \<longrightarrow> streamer_core ne s'"
proof
  assume a: "handle_end_of_stream E src s = Some s'" and ok: "streamer_core ne s"
  show "streamer_core ne s'"
  proof (cases "pipeline_is_current src s")
    case False
    then show ?thesis using a ok by (simp add: handle_end_of_stream_def)
  next
    case True
    then obtain b s1 where e: "end_of_stream_queue E (snd (set_stream_state E GST_STATE_READY s)) = Some (b, s1)"
      using a by (auto simp: handle_end_of_stream_def bind_eq_Some_conv)
    have "streamer_core ne s1"
      using core_eos_queue [OF e, of ne] ok by simp
    then show ?thesis
      using a True e by (cases b) (auto simp: handle_end_of_stream_def Let_def)
  qed
qed

lemma core_emit_tags: "emit_tags_unlocked E s = Some s' \<Longrightarrow> streamer_core ne s \<longrightarrow> streamer_core ne s'"
  by (clarsimp simp: emit_tags_unlocked_def Let_def bind_eq_Some_conv) (auto split: if_splits prod.splits)

lemma core_timed_emit_tags: "timed_emit_tags E s = Some s' \<Longrightarrow> streamer_core ne s \<longrightarrow> streamer_core ne s'"
  by (auto simp: timed_emit_tags_def Let_def dest!: core_emit_tags [of _ _ _ ne] split: if_splits prod.splits)

lemma core_tag: "handle_tag E tags s = Some s' \<Longrightarrow> streamer_core ne s \<longrightarrow> streamer_core ne s'"
  by (auto simp: handle_tag_def Let_def put_item_def dest!: core_emit_tags [of _ _ _ ne]
      split: if_splits prod.splits option.splits)

lemma core_now_playing: "emit_now_playing E s = Some s' \<Longrightarrow> streamer_core ne s \<longrightarrow> streamer_core ne s'"
  by (auto simp: emit_now_playing_def Let_def bind_eq_Some_conv dest!: dropped_eq
      split: prod.splits option.splits)

section \<open>Errors\<close>

lemma core_retry:
  assumes "try_refresh_uri_or_resolve_alternative_uri E changed prefetching s = Some (b, s')"
  shows "streamer_core ne s \<longrightarrow> streamer_core ne s'"
proof
  assume ok: "streamer_core ne s"
  show "streamer_core ne s'"
  proof (cases "current_stream (pl s) = None \<or> changed")
    case True
    then show ?thesis
      using assms ok by (auto simp: try_refresh_uri_or_resolve_alternative_uri_def split: option.splits)
  next
    case False
    then obtain it where it: "current_stream (pl s) = Some it" "\<not> changed" by auto
    obtain more it1 where sel: "select_next_url (timebase_now E (world s)) it = Some (more, it1)"
      using assms it by (auto simp: try_refresh_uri_or_resolve_alternative_uri_def bind_eq_Some_conv)
    define s1 where "s1 = put_item CurrentItem it1 s"
    have s1: "streamer_core ne s1"
      unfolding s1_def using core_put_selected [OF ok _ sel, of CurrentItem] it by simp
    show ?thesis
    proof (cases more)
      case False
      then show ?thesis
        using assms it sel s1
        by (simp add: try_refresh_uri_or_resolve_alternative_uri_def s1_def [symmetric])
    next
      case True
      then obtain r s2 where r: "rebuild_playbin E s1 = Some (r, s2)"
        using assms it sel
        by (auto simp: try_refresh_uri_or_resolve_alternative_uri_def bind_eq_Some_conv s1_def)
      have s2: "streamer_core ne s2" using rebuild_frame [OF r] s1 by simp
      have s3: "streamer_core ne (update_item CurrentItem (set_item_state ABOUT_TO_ACTIVATE) s2)"
        by (rule core_update_state [OF s2]) simp
      have mult: "0 < pos \<Longrightarrow> pos < INT64_MAX div GST_SECOND \<Longrightarrow> 0 < pos * GST_SECOND \<and> pos * GST_SECOND \<le> INT64_MAX" for pos
        by (simp add: GST_SECOND_def INT64_MAX_def)
      define s5 where "s5 = (let s3 = update_item CurrentItem (set_item_state ABOUT_TO_ACTIVATE) s2;
              s4 = s3\<lparr>pl := (pl s3)\<lparr>current_stream_protected_once := True\<rparr>\<rparr>;
              pos = position_s (current_time (pr s4))
          in if 0 < pos \<and> pos < INT64_MAX div GST_SECOND
             then s4\<lparr>ctl := (ctl s4)\<lparr>initial_seek_position_ns := Some (pos * GST_SECOND)\<rparr>\<rparr> else s4)"
      have s5: "streamer_core ne s5"
        using s3 mult by (simp add: s5_def Let_def control_wf_def)
      obtain b' st where "resolve_selected_url_or_play_uri E changed CurrentItem st prefetching s5 = Some (b', s')"
        using assms it sel True r
        by (auto simp: try_refresh_uri_or_resolve_alternative_uri_def Let_def s1_def [symmetric] s5_def)
      then show ?thesis
        using core_resolve s5 by blast
    qed
  qed
qed

lemma core_error_reason:
  "error_reason_and_item error which s = Some (r, failed, s') \<Longrightarrow> streamer_core ne s \<longrightarrow> streamer_core ne s'"
  using queue_wf_pop [of ne "length (calls (rnfs s))" "fifo s"]
  by (cases "pop (fifo s)"; cases which) (auto simp: queue_popped error_reason_and_item_def Let_def bind_eq_Some_conv)

lemma core_fail_gapless:
  assumes "fail_gapless_next E r failed s = Some s'"
  shows "streamer_core ne s \<longrightarrow> streamer_core ne s'"
proof
  assume ok: "streamer_core ne s"
  define s1 where "s1 = (case current_stream (pl s) of
      None \<Rightarrow> s | Some it \<Rightarrow> s\<lparr>fifo := mark_as_dropped (item_id it) (fifo s)\<rparr>)"
  have s1: "streamer_core ne s1"
    using ok by (cases "current_stream (pl s)") (auto simp: s1_def)
  note body = assms [unfolded fail_gapless_next_def Let_def, folded s1_def]
  obtain it where it: "failed = Some it"
    using body by (cases failed) auto
  obtain first it1 where f: "item_fail it = (first, it1)"
    by force
  show "streamer_core ne s'"
  proof (cases first)
    case False
    then show ?thesis using body it f s1 by simp
  next
    case True
    then obtain s3 where s3: "emit_stopped_with_error E r (Some it1)
        (invalidate_previous_time (snd (set_stream_state E GST_STATE_NULL s1))) = Some s3"
      using body it f by (auto simp: bind_eq_Some_conv)
    then have "streamer_core ne s3"
      using stopped_error_frame [OF s3] s1 by (auto intro: control_wf_stopped)
    then show ?thesis
      using body it f True s3 by (auto simp: failure_reset_def)
  qed
qed

lemma core_error: "handle_error_message E src error s = Some s' \<Longrightarrow> streamer_core ne s \<longrightarrow> streamer_core ne s'"
proof
  assume a: "handle_error_message E src error s = Some s'" and ok: "streamer_core ne s"
  define s0 where "s0 = s\<lparr>ctl := (ctl s)\<lparr>initial_seek_position_ns := None\<rparr>\<rparr>"
  define uri where "uri = (case pipeline (pl s0) of None \<Rightarrow> None | Some p \<Rightarrow> gst_get_current_uri E p (world s0))"
  let ?g = "\<lambda>which. which = FAILED_GAPLESS_NEXT \<or> which = FAILED_GAPLESS_NEXT_WITH_PREFAIL_REASON"
  have s0: "streamer_core ne s0"
    using ok by (simp add: s0_def control_wf_def)
  note body = a [unfolded handle_error_message_def Let_def, folded s0_def, folded uri_def]
  show "streamer_core ne s'"
  proof (cases "pipeline_is_current src s")
    case False
    then show ?thesis using body ok by simp
  next
    case True
    then obtain which where w: "determine_failed_stream uri s0 = Some which"
      using body by (auto simp: bind_eq_Some_conv)
    show ?thesis
    proof (cases "which = FAILED_ALREADY_GONE \<or> which = FAILED_UNKNOWN")
      case True
      then show ?thesis using body w s0 \<open>pipeline_is_current src s\<close> by auto
    next
      case False
      obtain r failed s1 where e: "error_reason_and_item error which s0 = Some (r, failed, s1)"
        using body w \<open>pipeline_is_current src s\<close> False by (auto simp: bind_eq_Some_conv)
      have s1: "streamer_core ne s1"
        using core_error_reason [OF e, of ne] s0 by blast
      obtain retried s2 where t: "(if worth_a_retry r
            then try_refresh_uri_or_resolve_alternative_uri E False (?g which) s1 else Some (False, s1)) = Some (retried, s2)"
        using body w e \<open>pipeline_is_current src s\<close> False by (auto simp: bind_eq_Some_conv)
      have s2: "streamer_core ne s2"
        using t s1 core_retry [of E False "?g which" s1 retried s2 ne] by (auto split: if_splits)
      have "s' = s2 \<or> fail_gapless_next E r failed s2 = Some s' \<or>
          fail_current E (failure_details_of_reason r) s2 = Some s'"
        using body w e t \<open>pipeline_is_current src s\<close> False
        by (auto simp: bind_eq_Some_conv split: if_splits)
      then show ?thesis
        using s2 core_fail_gapless [of E r failed s2 s' ne]
          core_fail_current [of E "failure_details_of_reason r" s2 s' ne] by blast
    qed
  qed
qed

section \<open>Progress and state changes\<close>

lemma progress_frame:
  assumes "report_progress_unlocked E s = Some (b, s')"
  shows "ctl s' = ctl s \<and> fd s' = fd s \<and> fifo s' = fifo s \<and> pl s' = pl s \<and> rnfs s' = rnfs s"
proof (cases "current_stream (pl s) = None \<or> is_buffering (stream_buffering_data (pl s))")
  case True
  then show ?thesis using assms by (auto simp: report_progress_unlocked_def split: option.splits)
next
  case False
  then obtain it p where "current_stream (pl s) = Some it" "pipeline (pl s) = Some p"
    using assms by (auto simp: report_progress_unlocked_def bind_eq_Some_conv split: option.splits)
  then show ?thesis
    using assms False
    by (auto simp: report_progress_unlocked_def Let_def emit_def invalidate_current_time_def split: if_splits)
qed

lemma core_progress:
  "report_progress_unlocked E s = Some (b, s') \<Longrightarrow> streamer_core ne s \<longrightarrow> streamer_core ne s'"
  by (simp add: progress_frame)

lemma core_activate_stream: "activate_stream phase s = (r, s') \<Longrightarrow> streamer_core ne s \<longrightarrow> streamer_core ne s'"
  by (auto simp: activate_stream_def split: option.splits item_state.splits if_splits)

lemma core_try_leave:
  assumes "try_leave_buffering_state E s = Some s'"
  shows "streamer_core ne s \<longrightarrow> streamer_core ne s'"
proof
  assume ok: "streamer_core ne s"
  obtain r d where l: "try_leave_buffering (stream_buffering_data (pl s)) = (r, d)" by force
  define s1 where "s1 = set_buffering d s"
  have s1: "streamer_core ne s1" using ok by (simp add: s1_def)
  note body = assms [unfolded try_leave_buffering_state_def Let_def l prod.case, folded s1_def]
  show "streamer_core ne s'"
  proof (cases "r = BUFFER_FILLED")
    case False
    then show ?thesis using body s1 by (cases r) auto
  next
    case True
    then obtain it where it: "current_stream (pl s1) = Some it"
      using body by (auto simp: bind_eq_Some_conv)
    define s2 where "s2 = (if enable_realtime_processing it then boost_threads s1 else s1)"
    have s2: "streamer_core ne s2" using s1 by (simp add: s2_def)
    show ?thesis
      using body True it s2
      by (cases "supposed_play_status (ctl s2)")
        (auto simp: s2_def [symmetric] dest!: progress_frame split: if_splits)
  qed
qed

lemma core_emit_pause:
  "emit_pause_state_if_not_buffering b s = Some s' \<Longrightarrow> streamer_core ne s \<longrightarrow> streamer_core ne s'"
  by (auto simp: emit_pause_state_if_not_buffering_def bind_eq_Some_conv split: if_splits)

lemma core_activate_and_emit:
  assumes "activate_stream_and_emit_pause_state b s = Some s'"
  shows "streamer_core ne s \<longrightarrow> streamer_core ne s'"
proof -
  obtain r s1 where a: "activate_stream 0 s = (r, s1)" by force
  show ?thesis
    using assms a core_activate_stream [OF a, of ne] core_emit_pause [of b s1 s' ne]
    by (cases r) (auto simp: activate_stream_and_emit_pause_state_def)
qed

lemma core_block_video:
  assumes "block_video E st s = Some s'"
  shows "streamer_core ne s \<longrightarrow> streamer_core ne s'"
proof (cases "st \<in> {GST_STATE_PAUSED, GST_STATE_PLAYING, GST_STATE_READY} \<and> current_stream (pl s) \<noteq> None")
  case True
  then obtain it where it: "current_stream (pl s) = Some it" by auto
  then obtain first it1 where f: "prefail WRONG_TYPE it = Some (first, it1)"
    using assms True by (auto simp: block_video_def bind_eq_Some_conv split: if_splits)
  define s1 where "s1 = put_item CurrentItem it1 s"
  have s1: "streamer_core ne s \<longrightarrow> streamer_core ne s1"
    using core_put_current [of s ne it1 it] it item_wf_prefail [OF f, of ne "length (calls (rnfs s))"] prefail_id [OF f]
    by (simp add: s1_def)
  have "s' = s1 \<or> (\<exists>w. s' = set_world w s1)"
    using assms True it f
    by (auto simp: block_video_def Let_def s1_def [symmetric] split: if_splits option.splits)
  then show ?thesis
    using s1 by (elim disjE exE) (simp, simp)
next
  case False
  then show ?thesis using assms by (auto simp: block_video_def split: if_splits)
qed

lemma core_enter_state:
  assumes "enter_pipeline_state E oldstate st pend tgt s = Some s'"
  shows "streamer_core ne s \<longrightarrow> streamer_core ne s'"
proof
  assume ok: "streamer_core ne s"
  let ?s1 = "s\<lparr>pl := (pl s)\<lparr>stream_has_just_started := True\<rparr>\<rparr>"
  obtain b d where e: "entered_pause (stream_buffering_data (pl ?s1)) = (b, d)" by force
  have s1: "streamer_core ne (set_buffering d ?s1)" for d
    using ok by simp
  show "streamer_core ne s'"
    using assms ok s1 e core_try_leave [of E "set_buffering d ?s1" s' ne]
    by (auto simp: enter_pipeline_state_def Let_def split: if_splits)
qed

lemma core_previous_stopped:
  assumes "previous_stream_stopped E s = Some s'"
  shows "streamer_core ne s \<longrightarrow> streamer_core ne s'"
proof
  assume ok: "streamer_core ne s"
  define leave where "leave = (\<lambda>s2. Some
      (let s3 = (if current_stream_protected_once (pl s2)
                 then s2\<lparr>pl := (pl s2)\<lparr>current_stream_protected_once := False\<rparr>\<rparr>
                 else case pop_current s2 of (popped, s2') \<Rightarrow>
                        if popped then s2' else s2'\<lparr>pl := (pl s2')\<lparr>current_stream := None\<rparr>\<rparr>)
       in s3\<lparr>pl := (pl s3)\<lparr>stream_has_just_started := False\<rparr>\<rparr>) :: 'a streamer option)"
  have leave: "streamer_core ne s'" if l: "leave s2 = Some s'" and s2: "streamer_core ne s2" for s2
  proof -
    obtain popped s3 where p: "pop_current s2 = (popped, s3)" by force
    then show ?thesis
      using core_pop_current [OF p, of ne] s2 l p
      by (auto simp: leave_def Let_def split: if_splits)
  qed
  have s1: "streamer_core ne (wipe_out_uri E s)" "streamer_core ne (emit_stopped E (wipe_out_uri E s))"
    using ok by (auto intro: control_wf_stopped)
  note body = assms [unfolded previous_stream_stopped_def, folded leave_def]
  have "s' = wipe_out_uri E s \<or> leave (wipe_out_uri E s) = Some s' \<or> leave (emit_stopped E (wipe_out_uri E s)) = Some s'"
    using body
    by (auto simp: Let_def bind_eq_Some_conv split: option.splits url_state.splits)
      (metis url_state.exhaust)
  then show "streamer_core ne s'"
    using leave s1 by blast
qed

lemma core_paused:
  assumes "pipeline_paused E s = Some s'"
  shows "streamer_core ne s \<longrightarrow> streamer_core ne s'"
proof
  assume ok: "streamer_core ne s"
  obtain s1 where a: "activate_stream_and_emit_pause_state True s = Some s1"
    using assms by (auto simp: pipeline_paused_def bind_eq_Some_conv)
  have s1: "streamer_core ne s1"
    using core_activate_and_emit [OF a, of ne] ok by blast
  obtain b d where e: "entered_pause (stream_buffering_data (pl s1)) = (b, d)" by force
  obtain s2 where s2: "(if b then try_leave_buffering_state E (set_buffering d s1) else Some (set_buffering d s1)) = Some s2"
    using assms a e by (auto simp: pipeline_paused_def bind_eq_Some_conv)
  have "streamer_core ne (set_buffering d s1)" using s1 by simp
  then have "streamer_core ne s2"
    using s2 core_try_leave [of E "set_buffering d s1" s2 ne] by (auto split: if_splits)
  then show "streamer_core ne s'"
    using assms a e s2 by (auto simp: pipeline_paused_def dest!: progress_frame split: if_splits)
qed

lemma core_playing:
  assumes "pipeline_playing E s = Some s'"
  shows "streamer_core ne s \<longrightarrow> streamer_core ne s'"
proof
  assume ok: "streamer_core ne s"
  obtain s1 where a: "(if \<not> stream_has_just_started (pl s) then activate_stream_and_emit_pause_state False s
      else emit_pause_state_if_not_buffering False s) = Some s1"
    using assms by (auto simp: pipeline_playing_def bind_eq_Some_conv split: if_splits)
  have "streamer_core ne s1"
    using a ok core_activate_and_emit [of False s s1 ne] core_emit_pause [of False s s1 ne]
    by (auto split: if_splits)
  then show "streamer_core ne s'"
    using assms a
    by (auto simp: pipeline_playing_def Let_def split: if_splits prod.splits)
qed

lemma core_state_change:
  assumes "handle_stream_state_change E verbose src oldstate st pend s = Some s'"
  shows "streamer_core ne s \<longrightarrow> streamer_core ne s'"
proof
  assume ok: "streamer_core ne s"
  define ours where "ours \<longleftrightarrow> (case src of SrcPipeline p \<Rightarrow> pipeline (pl s) = Some p | SrcElement _ \<Rightarrow> False)"
  define video where "video \<longleftrightarrow> (case src of SrcPipeline _ \<Rightarrow> False | SrcElement v \<Rightarrow> v)"
  note body = assms [unfolded handle_stream_state_change_def Let_def, folded ours_def video_def]
  show "streamer_core ne s'"
  proof (cases "\<not> pipeline_is_current src s \<or> (\<not> video \<and> \<not> ours \<and> \<not> verbose)")
    case True
    then show ?thesis using body ok by (auto split: if_splits)
  next
    case False
    then obtain tgt s1 where t: "pipeline_state (gst_target_state E) s = Some tgt"
        "(if video then block_video E st s else Some s) = Some s1"
      using body by (auto simp: bind_eq_Some_conv split: if_splits)
    have s1: "streamer_core ne s1"
      using t ok core_block_video [of E st s s1 ne] by (auto split: if_splits)
    show ?thesis
    proof (cases "\<not> ours \<or> st = oldstate \<and> (st = GST_STATE_READY \<or> st = GST_STATE_NULL)")
      case True
      then show ?thesis using body False t s1 by (auto split: if_splits)
    next
      case entered: False
      then obtain s2 where e: "enter_pipeline_state E oldstate st pend tgt s1 = Some s2"
        using body False t by (auto simp: bind_eq_Some_conv split: if_splits)
      have s2: "streamer_core ne s2"
        using core_enter_state [OF e, of ne] s1 by blast
      have "s' = s2 \<or> previous_stream_stopped E s2 = Some s' \<or> pipeline_paused E s2 = Some s' \<or>
          pipeline_playing E s2 = Some s'"
        using body False t entered e
        by (cases tgt) (auto simp: bind_eq_Some_conv split: if_splits)
      then show ?thesis
        using s2 core_previous_stopped core_paused core_playing by blast
    qed
  qed
qed

lemma core_announce:
  assumes "announce_stream E s = Some s'"
  shows "streamer_core ne s \<longrightarrow> streamer_core ne s'"
proof
  assume ok: "streamer_core ne s"
  obtain it where it: "current_stream (pl s) = Some it"
    using assms by (auto simp: announce_stream_def bind_eq_Some_conv)
  define sd where "sd = clear_meta_data (item_stream_data it)"
  define s1 where "s1 = put_item CurrentItem (it\<lparr>item_stream_data := sd\<rparr>) s"
  have s1: "streamer_core ne s1"
    unfolding s1_def using ok it by (intro core_put_current) auto
  show "streamer_core ne s'"
    using assms it s1
    by (auto simp: announce_stream_def Let_def sd_def [symmetric] s1_def [symmetric]
        dest!: core_now_playing [of _ _ _ ne] split: if_splits)
qed

lemma core_start_of_stream:
  assumes "handle_start_of_stream E src s = Some s'"
  shows "streamer_core ne s \<longrightarrow> streamer_core ne s'"
proof
  assume ok: "streamer_core ne s"
  obtain s1 where a1: "(if is_buffering (stream_buffering_data (pl s)) then Some s
      else do { it \<leftarrow> current_stream (pl s); Some (if enable_realtime_processing it then boost_threads s else s) }) = Some s1"
    using assms by (auto simp: handle_start_of_stream_def bind_eq_Some_conv)
  have s1: "streamer_core ne s1"
    using a1 ok by (auto simp: bind_eq_Some_conv split: if_splits)
  obtain picked inf where p: "pick_next_item s1 = (picked, inf)" by force
  define pit where "pit = (case picked of Some ref \<Rightarrow> get_item ref s1 | None \<Rightarrow> current_stream (pl s1))"
  obtain bug act need where d: "start_of_stream_decision pit s1 = (bug, act, need)"
    by (metis prod_cases3)
  obtain popped s3 where pop: "(if inf then pop_current s1 else (True, s1)) = (popped, s3)" by force
  have s3: "streamer_core ne s3"
    using pop s1 core_pop_current [of s1 popped s3 ne] by (auto split: if_splits)
  note body = assms [unfolded handle_start_of_stream_def a1, simplified,
      unfolded p prod.case Let_def, folded pit_def, unfolded d prod.case]
  have ex: "\<not> (bug \<and> q_empty (fifo s1))"
    using body by (auto split: if_splits)
  obtain s4 where a4: "(if act \<and> popped
      then do { _ \<leftarrow> current_stream (pl s3); Some (update_item CurrentItem (set_item_state ACTIVE_HALF_PLAYING) s3) }
      else Some s3) = Some s4"
    using body ex pop by (auto simp: bind_eq_Some_conv split: if_splits)
  have s4: "streamer_core ne s4"
    using a4 s3 core_update_state [of s3 ne CurrentItem ACTIVE_HALF_PLAYING]
    by (auto simp: bind_eq_Some_conv simp del: update_item.simps split: if_splits)
  obtain r s4' where act: "activate_stream 2 s4 = (r, s4')" by force
  have s4': "streamer_core ne s4'" using core_activate_stream [OF act, of ne] s4 by blast
  obtain s5 where a5: "(case r of
       INVALID_ITEM \<Rightarrow> do { _ \<leftarrow> current_stream (pl s4'); Some s4' }
     | INVALID_STATE \<Rightarrow> do { _ \<leftarrow> current_stream (pl s4'); Some s4' }
     | ALREADY_ACTIVE \<Rightarrow> Some s4'
     | ACTIVATED \<Rightarrow> announce_stream E s4') = Some s5"
    using body ex pop a4 act by (auto simp: bind_eq_Some_conv split: if_splits)
  have s5: "streamer_core ne s5"
    using a5 s4' core_announce [of E s4' s5 ne] by (cases r) (auto simp: bind_eq_Some_conv)
  show "streamer_core ne s'"
    using body ex pop a4 act a5 s5
      core_queue_unlocked [of E "\<not> pipeline_is_current src s5"
        "s5\<lparr>pl := (pl s5)\<lparr>next_stream_request := REQUESTED\<rparr>\<rparr>" s' ne]
    by (cases need) (auto split: if_splits)
qed

section \<open>The other messages\<close>

lemma core_buffering:
  assumes "handle_buffering E src percent s = Some s'"
  shows "streamer_core ne s \<longrightarrow> streamer_core ne s'"
proof (cases "\<not> pipeline_is_current src s \<or> supposed_play_status (ctl s) = STOPPED \<or> percent < 0 \<or> percent > 100")
  case True
  then have "s' = s" using assms by (auto simp: handle_buffering_def split: if_splits)
  then show ?thesis by simp
next
  case False
  obtain change d where b: "set_buffer_level (nat percent) (stream_buffering_data (pl s)) = (change, d)" by force
  obtain s1 where s1: "(case change of
       FULL_DETECTED \<Rightarrow> try_leave_buffering_state E (set_buffering d s)
     | UNDERRUN_DETECTED \<Rightarrow> handle_buffer_underrun E (set_buffering d s)
     | CHANGE_NONE \<Rightarrow> Some (set_buffering d s)) = Some s1"
    using assms False b by (auto simp: handle_buffering_def bind_eq_Some_conv)
  have s': "s' = emit (BufferLevel percent (is_buffering (stream_buffering_data (pl s1)))) s1"
    using assms False b s1 by (simp add: handle_buffering_def)
  have "streamer_core ne (set_buffering d s) \<longrightarrow> streamer_core ne s1"
    using s1
    by (cases change; simp only: level_change.case option.inject)
      (simp, erule core_try_leave, erule core_underrun)
  then show ?thesis unfolding s' by simp
qed

lemma core_duration_async:
  assumes "handle_stream_duration_async E src t s = Some s'"
  shows "streamer_core ne s \<longrightarrow> streamer_core ne s'"
proof (cases "pipeline_is_current src s")
  case False
  then show ?thesis using assms by (simp add: handle_stream_duration_async_def)
next
  case True
  define dur where "dur = (case t of
              Some t \<Rightarrow> int t div 1000000000
            | None \<Rightarrow> query_seconds (case pipeline (pl s) of
                        None \<Rightarrow> None | Some p \<Rightarrow> gst_query_duration E p (world s)))"
  define s1 where "s1 = s\<lparr>pr := (pr s)\<lparr>current_time := (current_time (pr s))\<lparr>duration_s := dur\<rparr>\<rparr>\<rparr>"
  note body = assms [unfolded handle_stream_duration_async_def Let_def, folded dur_def, folded s1_def]
  show ?thesis
  proof
    assume ok: "streamer_core ne s"
    have s1: "streamer_core ne s1" using ok by (simp add: s1_def)
    obtain s2 where s2: "(if dur < 0
                 then do { it \<leftarrow> current_stream (pl s1);
                           Some (throttle_threads (put_item CurrentItem (disable_realtime it) s1)) }
                 else Some s1) = Some s2"
      using body True by (auto simp: bind_eq_Some_conv split: if_splits)
    have "streamer_core ne s2"
      using s2 s1 core_put_current [of s1 ne "disable_realtime it" it for it]
      by (auto simp: bind_eq_Some_conv split: if_splits)
    then show "streamer_core ne s'"
      using body True s2
      by (auto simp: control_wf_def split: option.splits)
  qed
qed

lemma core_bus_message:
  "bus_message_handler E src msg s = Some s' \<Longrightarrow> streamer_core ne s \<longrightarrow> streamer_core ne s'"
proof (cases msg)
  case MsgClockLost
  assume "bus_message_handler E src msg s = Some s'"
  then show ?thesis
    using MsgClockLost by (auto simp: handle_clock_lost_message_def split: if_splits)
next
  case MsgLatency
  assume "bus_message_handler E src msg s = Some s'"
  then show ?thesis
    using MsgLatency by (auto simp: handle_latency_message_def split: if_splits option.splits)
next
  case (MsgRequestState st)
  assume "bus_message_handler E src msg s = Some s'"
  then show ?thesis
    using MsgRequestState by (auto simp: handle_request_state_message_def split: if_splits)
qed (simp_all only: bus_message_handler.simps option.inject,
    (erule core_eos core_tag core_state_change core_start_of_stream core_buffering
       core_duration_async core_error | simp)+)

lemma core_airable_signal:
  "airable_signal E errors s = Some s' \<Longrightarrow> streamer_core ne s \<Longrightarrow> streamer_core ne s'"
proof (induction errors arbitrary: s)
  case Nil
  then show ?case by simp
next
  case (Cons e errors)
  obtain ck err where e: "e = (ck, err)" by force
  obtain n r where c: "cookie_signal E ck err (rnfs s) = Some (n, r)" "rnf_world_ok r"
      "length (calls r) = length (calls (rnfs s))"
    using cookie_signal_ok [OF core_calls [OF Cons.prems(2)]] by blast
  have s1: "streamer_core ne (s\<lparr>rnfs := r\<rparr>)"
    by (rule core_rnfs [OF Cons.prems(2) c(2)]) (simp add: c(3))
  obtain s2 where s2: "(case n of None \<Rightarrow> Some (s\<lparr>rnfs := r\<rparr>)
        | Some (i, st) \<Rightarrow> context_notify E i st (s\<lparr>rnfs := r\<rparr>)) = Some s2"
      "airable_signal E errors s2 = Some s'"
    using Cons.prems(1) e c(1) by (auto simp: Let_def bind_eq_Some_conv)
  have "streamer_core ne s2"
  proof (cases n)
    case None
    then show ?thesis using s2(1) s1 by simp
  next
    case (Some p)
    then show ?thesis
      using s2(1) core_context_notify [of E "fst p" "snd p" "s\<lparr>rnfs := r\<rparr>" s2 ne] s1
      by (cases p) (simp only: option.case prod.case fst_conv snd_conv; blast)
  qed
  then show ?case by (rule Cons.IH [OF s2(2)])
qed

section \<open>The public interface\<close>

lemma core_setup:
  assumes "streamer_setup E ini bs bt dev s = Some (ok, s')" and "pipeline (pl s) = None"
  shows "streamer_core ne s \<longrightarrow> streamer_core ne s'"
  using assms
  by (auto simp: streamer_setup_def bind_eq_Some_conv pipeline_wf_def
      dest!: create_playbin_frame split: if_splits)

lemma core_shutdown: "streamer_core ne s \<Longrightarrow> streamer_core ne (streamer_shutdown E s)"
  using disconnected [of s E] by (simp add: streamer_shutdown_def Let_def pipeline_wf_def)

lemma core_clear: "streamer_core ne s \<Longrightarrow> streamer_core ne (s\<lparr>fifo := snd (clear k (fifo s))\<rparr>)"
  by (simp add: queue_wf_clear)

lemma core_do_stop:
  assumes "do_stop E pend s = Some (a, b, s')"
  shows "streamer_core ne s \<longrightarrow> streamer_core ne s'"
proof
  assume ok: "streamer_core ne s"
  define s1 where "s1 = s\<lparr>ctl := (ctl s)\<lparr>supposed_play_status := STOPPED\<rparr>\<rparr>"
  have s1: "streamer_core ne s1" using ok by (simp add: s1_def control_wf_def)
  obtain r s2 where st: "set_stream_state E GST_STATE_READY s1 = (r, s2)" by force
  have s2: "streamer_core ne s2" using stream_state_frame [OF st] s1 by auto
  note body = assms [unfolded do_stop_def Let_def, folded s1_def]
  have "s' = s2\<lparr>fifo := snd (clear 0 (fifo s2))\<rparr> \<or> s' = s1\<lparr>fifo := snd (clear 0 (fifo s1))\<rparr> \<or> s' = s1 \<or>
      s' = s2\<lparr>fd := (fd s2)\<lparr>details := (details (fd s2))\<lparr>clear_fifo_on_error := True\<rparr>\<rparr>\<rparr>"
    using body st by (auto simp: bind_eq_Some_conv split: if_splits)
  then show "streamer_core ne s'"
    using core_clear [OF s1, of 0] core_clear [OF s2, of 0] s1 s2 by (elim disjE; hypsubst) (assumption | simp)+
qed

lemma core_activate: "streamer_core ne s \<Longrightarrow> streamer_core ne (activate s)"
  by (simp add: activate_def control_wf_def)

lemma do_stop_stopped:
  "do_stop E pend s = Some (a, b, s') \<Longrightarrow> supposed_play_status (ctl s') = STOPPED \<and>
     is_player_activated (ctl s') = is_player_activated (ctl s) \<and>
     initial_seek_position_ns (ctl s') = initial_seek_position_ns (ctl s)"
proof -
  assume a: "do_stop E pend s = Some (a, b, s')"
  obtain ok s2 where st: "set_stream_state E GST_STATE_READY
      (s\<lparr>ctl := (ctl s)\<lparr>supposed_play_status := STOPPED\<rparr>\<rparr>) = (ok, s2)" by force
  show ?thesis
    using a st stream_state_frame [OF st]
    by (auto simp: do_stop_def Let_def bind_eq_Some_conv split: if_splits)
qed

lemma core_do_stop_inactive:
  assumes "do_stop E pend (s\<lparr>ctl := (ctl s)\<lparr>is_player_activated := False\<rparr>\<rparr>) = Some (a, b, s')"
  shows "streamer_core ne s \<longrightarrow> streamer_core ne s'"
proof
  assume ok: "streamer_core ne s"
  let ?s = "s\<lparr>ctl := (ctl s)\<lparr>is_player_activated := False, supposed_play_status := STOPPED\<rparr>\<rparr>"
  have "do_stop E pend ?s = Some (a, b, s')"
    using assms by (simp add: do_stop_def world_def)
  moreover have "streamer_core ne ?s"
    using ok by (simp add: control_wf_def)
  ultimately show "streamer_core ne s'"
    using core_do_stop [of E pend ?s a b s' ne] by blast
qed

lemma core_deactivate: "deactivate E s = Some s' \<Longrightarrow> streamer_core ne s \<longrightarrow> streamer_core ne s'"
proof (cases "is_player_activated (ctl s)")
  case True
  assume a: "deactivate E s = Some s'"
  obtain pend x y where "do_stop E pend (s\<lparr>ctl := (ctl s)\<lparr>is_player_activated := False\<rparr>\<rparr>) = Some (x, y, s')"
    using a True by (auto simp: deactivate_def Let_def bind_eq_Some_conv)
  then show ?thesis by (rule core_do_stop_inactive)
qed (simp add: deactivate_def)

lemma core_start: "start E s = Some (b, s') \<Longrightarrow> streamer_core ne s \<longrightarrow> streamer_core ne s'"
proof
  assume a: "start E s = Some (b, s')" and ok: "streamer_core ne s"
  define s1 where "s1 = s\<lparr>ctl := (ctl s)\<lparr>supposed_play_status := PLAYING\<rparr>\<rparr>"
  have s1: "is_player_activated (ctl s) \<Longrightarrow> streamer_core ne s1"
    using ok by (simp add: s1_def control_wf_def)
  note body = a [unfolded start_def Let_def, folded s1_def]
  have "s' = s \<or> is_player_activated (ctl s) \<and> (s' = s1 \<or> s' = snd (set_stream_state E GST_STATE_PLAYING s1) \<or>
      (\<exists>s2. rebuild_playbin_for_workarounds E s1 = Some s2 \<and> try_play_next_stream E False GST_STATE_PLAYING s2 = Some s'))"
    using body by (auto simp: bind_eq_Some_conv split: if_splits gst_state.splits)
  then show "streamer_core ne s'"
    using ok s1 core_workarounds core_try_play_next by (elim disjE conjE exE) (simp, simp, simp, blast)
qed

lemma core_stop: "stop E s = Some (b, s') \<Longrightarrow> streamer_core ne s \<longrightarrow> streamer_core ne s'"
proof
  assume a: "stop E s = Some (b, s')" and ok: "streamer_core ne s"
  have "s' = s \<or> (\<exists>pend x y s1. do_stop E pend s = Some (x, y, s1) \<and> (s' = s1 \<or>
      emit_stopped_with_error E ALREADY_STOPPED (current_stream (pl s1))
         (s1\<lparr>pl := (pl s1)\<lparr>current_stream := None\<rparr>\<rparr>) = Some s'))"
    using a by (auto simp: stop_def bind_eq_Some_conv split: if_splits)
  then show "streamer_core ne s'"
  proof (elim disjE exE conjE)
    fix pend x y s1
    assume d: "do_stop E pend s = Some (x, y, s1)"
    have s1: "streamer_core ne s1" using core_do_stop [OF d, of ne] ok by blast
    then show "streamer_core ne s'" if "s' = s1" using that by simp
    show "streamer_core ne s'" if "emit_stopped_with_error E ALREADY_STOPPED (current_stream (pl s1))
         (s1\<lparr>pl := (pl s1)\<lparr>current_stream := None\<rparr>\<rparr>) = Some s'"
      using stopped_error_frame [OF that] s1 by (auto intro: control_wf_stopped)
  qed (use ok in simp)
qed

lemma core_pause: "pause E s = Some (b, s') \<Longrightarrow> streamer_core ne s \<longrightarrow> streamer_core ne s'"
proof
  assume a: "pause E s = Some (b, s')" and ok: "streamer_core ne s"
  define s1 where "s1 = s\<lparr>ctl := (ctl s)\<lparr>supposed_play_status := PAUSED\<rparr>\<rparr>"
  have s1: "is_player_activated (ctl s) \<Longrightarrow> streamer_core ne s1"
    using ok by (simp add: s1_def control_wf_def)
  note body = a [unfolded pause_def Let_def, folded s1_def]
  have "s' = s \<or> is_player_activated (ctl s) \<and> (s' = s1 \<or> s' = snd (set_stream_state E GST_STATE_PAUSED s1) \<or>
      try_play_next_stream E False GST_STATE_PAUSED s1 = Some s')"
    using body by (auto simp: bind_eq_Some_conv split: if_splits gst_state.splits)
  then show "streamer_core ne s'"
    using ok s1 core_try_play_next by (elim disjE conjE) (simp, simp, simp, blast)
qed

lemma core_seek: "seek E pos units s = Some (b, s') \<Longrightarrow> streamer_core ne s \<longrightarrow> streamer_core ne s'"
proof
  assume a: "seek E pos units s = Some (b, s')" and ok: "streamer_core ne s"
  have "s' = s \<or> (\<exists>t. s' = snd (do_seek E t s) \<or> do_encourage_buffering E (snd (do_seek E t s)) = Some s')"
    using a by (auto simp: seek_def Let_def bind_eq_Some_conv split: if_splits prod.splits; metis snd_conv)
  then show "streamer_core ne s'"
  proof (elim disjE exE)
    fix t
    have s1: "streamer_core ne (snd (do_seek E t s))" using ok by simp
    then show "streamer_core ne s'" if "s' = snd (do_seek E t s)" using that by simp
    show "streamer_core ne s'" if "do_encourage_buffering E (snd (do_seek E t s)) = Some s'"
      using core_encourage [OF that, of ne] s1 by blast
  qed (use ok in simp)
qed

lemma core_skip_current: "streamer_core ne s \<Longrightarrow> streamer_core ne (skip_current s)"
  by (cases "current_stream (pl s)") (auto simp: skip_current_def)

lemma core_skip_taken:
  "skip_taken nxt c i s = (nxt', i', s') \<Longrightarrow>
     (streamer_core ne s \<longrightarrow> streamer_core ne s') \<and> nxt' \<in> {None, nxt} \<and>
     (current_stream (pl s') = None \<longleftrightarrow> current_stream (pl s) = None)"
  by (cases "current_stream (pl s)")
    (auto simp: skip_taken_def split: if_splits item_state.splits)

lemma core_play_taken:
  assumes "play_taken E nxt c s = Some (i, s')" and ok: "streamer_core ne s"
  shows "streamer_core ne s'"
proof (cases nxt)
  case None
  then show ?thesis using assms by (auto simp: play_taken_def intro: control_wf_stopped)
next
  case (Some ref)
  obtain b s1 where st: "set_stream_state E GST_STATE_READY s = (b, s1)" by force
  have s1: "streamer_core ne s1" using stream_state_frame [OF st] ok by auto
  show ?thesis
  proof (cases b)
    case False
    then show ?thesis using assms Some st s1 by (simp add: play_taken_def)
  next
    case True
    then obtain repl st' p where "play_next_stream E False repl ref st' True False s1 = Some (p, s')" "repl \<noteq> Some FifoHead"
      using assms Some st by (auto simp: play_taken_def Let_def bind_eq_Some_conv split: if_splits)
    then show ?thesis using core_play_next [of E False repl ref st' True False s1 p s' ne] s1 by blast
  qed
qed

lemma core_next: "next_stream E skip s = Some (r, ids, s') \<Longrightarrow> streamer_core ne s \<longrightarrow> streamer_core ne s'"
proof
  assume a: "next_stream E skip s = Some (r, ids, s')" and ok: "streamer_core ne s"
  show "streamer_core ne s'"
  proof (cases "is_player_activated (ctl s)")
    case False
    then show ?thesis using a ok by (simp add: next_stream_def)
  next
    case True
    define s1 where "s1 = (if skip then skip_current s else s)"
    have s1: "streamer_core ne s1" using ok core_skip_current [of s ne] by (simp add: s1_def)
    define permitted where "permitted \<longleftrightarrow> supposed_play_status (ctl s1) \<noteq> STOPPED \<or> \<not> skip"
    define sid where "sid = (case current_stream (pl s1) of Some it \<Rightarrow> ucast (item_id it) | None \<Rightarrow> UINT32_MAX)"
    note body = a [unfolded next_stream_def Let_def, folded s1_def, folded sid_def permitted_def]
    obtain nxt c s2 where t: "(if permitted then map_option (\<lambda>(n, c, _, s2). (n, c, s2)) (try_take_next E True s1)
           else Some (None, False, s1)) = Some (nxt, c, s2)"
      using body True by (auto simp: bind_eq_Some_conv)
    have s2: "streamer_core ne s2"
      using t s1 core_try_take_next [of E True s1 _ _ _ s2 ne] by (auto split: if_splits)
    obtain nxt' i' s3 where k: "skip_taken nxt c sid s2 = (nxt', i', s3)"
      by (metis prod_cases3)
    have s3: "streamer_core ne s3" using core_skip_taken [OF k, of ne] s2 by blast
    obtain j where p: "play_taken E nxt' c s3 = Some (j, s')"
      using body True t k by (auto simp: bind_eq_Some_conv)
    show ?thesis by (rule core_play_taken [OF p s3])
  qed
qed

lemma core_clear_queue:
  "clear_queue n s = (q, d, s') \<Longrightarrow> streamer_core ne s \<longrightarrow> streamer_core ne s'"
  by (auto simp: clear_queue_def Let_def queue_wf_clear dest!: dropped_eq split: if_splits prod.splits)

lemma core_push_item:
  assumes "push_item E sid key su md keep s = Some (b, d1, d2, s')"
    and su: "stream_urls_ok su" "needs_urls ne \<Longrightarrow> urls su \<noteq> []"
    and order: "follows (play_order ne) (playlist s @ [sid])"
      "follows (queue_order ne) (map item_id (queue (fifo s)) @ [sid])"
  shows "streamer_core ne s \<longrightarrow> streamer_core ne s'"
proof
  assume ok: "streamer_core ne s"
  show "streamer_core ne s'"
  proof (cases "is_player_activated (ctl s)")
    case False
    then show ?thesis using assms ok by (simp add: push_item_def)
  next
    case True
    obtain before s1 where b: "mk_id_array_from_dropped_items s = (before, s1)"
      by (cases "mk_id_array_from_dropped_items s")
    have s1: "streamer_core ne s1" using dropped_eq [OF b] ok by simp
    obtain l cover extra where g: "g_variant_to_tag_list (tags_env E) md = (l, cover, extra)"
      by (metis prod_cases3)
    define it where "it = new_item E sid key su True cover extra l time_point_min time_point_max"
    obtain n q where q: "push it keep (fifo s1) = (n, q)" by force
    have it: "item_wf ne (length (calls (rnfs s1))) it" "item_state it = IN_QUEUE" "item_id it = sid"
      unfolding it_def using item_wf_new [OF su] by (simp_all add: new_item_def)
    have s2: "streamer_core ne (s1\<lparr>fifo := q\<rparr>)"
      using queue_wf_push [of ne "length (calls (rnfs s1))" "fifo s1" it keep] it q s1 follows_push [of "play_order ne" s it "fifo s1" "current_stream (pl s1)" keep]
        follows_subseq [of "queue_order ne" "map item_id (queue (fifo s)) @ [sid]" "map item_id (queue q)"]
        subseq_push [of it keep "fifo s1"]
        order dropped_eq [OF b] by simp
    note body = assms(1) [unfolded push_item_def Let_def b g prod.case, folded it_def, unfolded q prod.case]
    show ?thesis
    proof (cases "n = 0")
      case True
      then show ?thesis using body s2 \<open>is_player_activated (ctl s)\<close> by simp
    next
      case False
      then obtain s3 where q3: "(if next_stream_request (pl s1) = REQUESTED \<and>
             (case current_stream (pl s1) of None \<Rightarrow> False | Some cur \<Rightarrow> item_state cur = ABOUT_TO_PHASE_OUT)
           then queue_stream_from_url_fifo_unlocked E False (s1\<lparr>fifo := q\<rparr>) else Some (s1\<lparr>fifo := q\<rparr>)) = Some s3"
        using body \<open>is_player_activated (ctl s)\<close> by (auto simp: bind_eq_Some_conv simp del: option.case_eq_if split: if_splits)
      obtain d s4 where d: "mk_id_array_from_dropped_items s3 = (d, s4)"
        by (cases "mk_id_array_from_dropped_items s3")
      have s3: "s3 = s1\<lparr>fifo := q\<rparr> \<or> queue_stream_from_url_fifo_unlocked E False (s1\<lparr>fifo := q\<rparr>) = Some s3"
          "s' = snd (mk_id_array_from_dropped_items s3)"
        using body \<open>is_player_activated (ctl s)\<close> False q3 d by (auto split: if_splits)
      have "streamer_core ne s3"
        using s3(1) s2 core_queue_unlocked [of E False "s1\<lparr>fifo := q\<rparr>" s3 ne] by blast
      then show ?thesis unfolding s3(2) by simp
    qed
  qed
qed

lemma remove_items_cases:
  assumes "remove_items_for_root_path E root s = Some (b, s')"
  shows "s' = s \<or> (\<exists>x. stop E s = Some (x, s'))"
proof (cases "current_stream (pl s)")
  case None
  then show ?thesis using assms by (simp add: remove_items_for_root_path_def)
next
  case (Some it)
  then obtain url where url: "get_url_for_playing it = Some url"
    using assms by (auto simp: remove_items_for_root_path_def bind_eq_Some_conv)
  show ?thesis
  proof (cases "\<not> starts_with url ''file://'' \<or> filename_from_uri E url \<in> {None, Some []}")
    case True
    then show ?thesis
      using assms Some url by (auto simp: remove_items_for_root_path_def split: if_splits)
  next
    case False
    then obtain c cs where "filename_from_uri E url = Some (c # cs)"
      by (metis insertCI list.exhaust option.exhaust)
    then show ?thesis
      using assms Some url False
      by (auto simp: remove_items_for_root_path_def bind_eq_Some_conv split: if_splits)
  qed
qed

lemma core_remove_items:
  "remove_items_for_root_path E root s = Some (b, s') \<Longrightarrow> streamer_core ne s \<longrightarrow> streamer_core ne s'"
  by (drule remove_items_cases) (elim disjE exE, simp, erule core_stop)

lemma core_fifo_push:
  assumes "fifo_push E SIZE_MAX sid variant key keep md s = Some (r, s')"
    and ne: "\<And>su w. needs_urls ne \<Longrightarrow> stream_urls_of_variant E variant (world s) = Some (su, w) \<Longrightarrow> urls su \<noteq> []"
    and order: "follows (play_order ne) (playlist s @ [sid])"
      "follows (queue_order ne) (map item_id (queue (fifo s)) @ [sid])"
  shows "streamer_core ne s \<longrightarrow> streamer_core ne s'"
proof
  assume ok: "streamer_core ne s"
  obtain su w1 where su: "stream_urls_of_variant E variant (world s) = Some (su, w1)"
    using assms(1) by (auto simp: fifo_push_def bind_eq_Some_conv)
  obtain b d1 d2 s1 where p: "push_item E sid key su md (keep_items SIZE_MAX keep) (set_world w1 s) = Some (b, d1, d2, s1)"
    using assms(1) su by (auto simp: fifo_push_def bind_eq_Some_conv)
  have "streamer_core ne (set_world w1 s)" 
      "follows (play_order ne) (playlist (set_world w1 s) @ [sid])"
      "follows (queue_order ne) (map item_id (queue (fifo (set_world w1 s))) @ [sid])"
    using ok order by (simp_all add: playlist_def)
  then have s1: "streamer_core ne s1"
    using core_push_item [OF p stream_urls_ok_of_variant [OF su] ne [OF _ su]] by blast
  have "s' = s1 \<or> (\<exists>st ids. next_stream E True s1 = Some (st, ids, s'))"
    using assms(1) su p by (auto simp: fifo_push_def bind_eq_Some_conv split: if_splits)
  then show "streamer_core ne s'"
    using s1 core_next [of E True s1 _ _ s' ne] by blast
qed

end
