(* ===== verification/Streamer_Machine.thy ===== *)
theory Streamer_Machine
  imports Streamer_Steps
begin

text \<open>
  The streamer as a whole: \<open>streamer_apply\<close> runs one entry point, \<open>streamer_step\<close> is the relation
  of all steps, of the streamer and of what is outside of it, and the reachable states are those
  of the running program.  The locale \<open>machine\<close> is interpreted on it.
\<close>

section \<open>All entry points\<close>

datatype 'w streamer_op =
    OpSetup nat bool string | OpShutdown | OpActivate | OpDeactivate | OpStart | OpStop | OpPause
  | OpSeek int string | OpFifoNext
  | OpFifoPush nat stream_id "(string \<times> bool) list" stream_key int string_pairs
  | OpFifoClear int | OpRemoveRoot string | OpInject string nat
  | OpBus message_source bus_message | OpAboutToFinish pipeline_id | OpTagTimer | OpProgressTimer
  | OpRestart | OpDataAvailable "cookie list" | OpDataError "(cookie \<times> list_error) list"
  | OpStreamStatus thread_id status_object stream_status_type "string option"
  | OpWorld 'w

fun streamer_apply ::
  "('w, 'z) streamer_env_scheme \<Rightarrow> 'w streamer_op \<Rightarrow> 'w streamer \<Rightarrow> 'w streamer option" where
  "streamer_apply E (OpSetup bs bt dev) s = map_option snd (streamer_setup E False bs bt dev s)"
| "streamer_apply E OpShutdown s = Some (streamer_shutdown E s)"
| "streamer_apply E OpActivate s = Some (audiopath_player_activate s)"
| "streamer_apply E OpDeactivate s = audiopath_player_deactivate E s"
| "streamer_apply E OpStart s = playback_start E s"
| "streamer_apply E OpStop s = playback_stop E s"
| "streamer_apply E OpPause s = playback_pause E s"
| "streamer_apply E (OpSeek pos units) s = map_option snd (playback_seek E pos units s)"
| "streamer_apply E OpFifoNext s = map_option snd (fifo_next E s)"
| "streamer_apply E (OpFifoPush smax sid variant key keep md) s =
     map_option snd (fifo_push E smax sid variant key keep md s)"
| "streamer_apply E (OpFifoClear n) s = Some (snd (fifo_clear n s))"
| "streamer_apply E (OpRemoveRoot root) s = mounta_device_will_be_removed E root s"
| "streamer_apply E (OpInject domain code) s = Some (playback_inject_failure domain code s)"
| "streamer_apply E (OpBus src msg) s = bus_message_handler E src msg s"
| "streamer_apply E (OpAboutToFinish elem) s = queue_stream_from_url_fifo E elem s"
| "streamer_apply E OpTagTimer s = timed_emit_tags E s"
| "streamer_apply E OpProgressTimer s = map_option snd (report_progress E s)"
| "streamer_apply E OpRestart s = do_restart_playing E s"
| "streamer_apply E (OpDataAvailable cks) s = airable_data_available E cks s"
| "streamer_apply E (OpDataError errors) s = airable_data_error E errors s"
| "streamer_apply E (OpStreamStatus self obj st name) s =
     map_option (\<lambda>(reqs, th). emit (Schedule reqs) (s\<lparr>threads := th\<rparr>))
       (bus_sync_message_handler self obj st name (threads s))"
| "streamer_apply E (OpWorld w) s = Some (set_world w s)"

text \<open>
  What the world keeps to: \<open>setup()\<close> is called while there is no pipeline; if \<open>ne\<close> is true, no
  stream is pushed of which no URL is left.
\<close>
fun op_allowed :: "('w, 'z) streamer_env_scheme \<Rightarrow> bool \<Rightarrow> 'w streamer_op \<Rightarrow> 'w streamer \<Rightarrow> bool" where
  "op_allowed E ne (OpSetup bs bt dev) s = (pipeline (pl s) = None)"
| "op_allowed E ne (OpFifoPush smax sid variant key keep md) s =
     (ne \<longrightarrow> (case stream_urls_of_variant E variant (world s) of
                None \<Rightarrow> True | Some (su, _) \<Rightarrow> urls su \<noteq> []))"
| "op_allowed E ne _ s = True"

inductive streamer_step ::
  "('w, 'z) streamer_env_scheme \<Rightarrow> bool \<Rightarrow> 'w streamer \<Rightarrow> 'w streamer_op \<Rightarrow> 'w streamer \<Rightarrow> bool"
  for E :: "('w, 'z) streamer_env_scheme" and ne :: bool where
  "op_allowed E ne l s \<Longrightarrow> streamer_apply E l s = Some s' \<Longrightarrow> streamer_step E ne s l s'"

inductive_simps streamer_step_iff: "streamer_step E ne s l s'"

text \<open>Runs that can be computed: \<open>None\<close> if one of the operations crashes or is not allowed.\<close>
fun streamer_run ::
  "('w, 'z) streamer_env_scheme \<Rightarrow> bool \<Rightarrow> 'w streamer_op list \<Rightarrow> 'w streamer \<Rightarrow> 'w streamer list option" where
  "streamer_run E ne [] s = Some []"
| "streamer_run E ne (l # ls) s =
     (if op_allowed E ne l s
      then do { s' \<leftarrow> streamer_apply E l s; ss \<leftarrow> streamer_run E ne ls s'; Some (s' # ss) }
      else None)"

lemma run_of_streamer_run: "streamer_run E ne ls s = Some ss \<Longrightarrow> run_of (streamer_step E ne) s ls ss"
  by (induction ls arbitrary: s ss)
    (auto simp: bind_eq_Some_conv intro!: run_of.intros streamer_step.intros split: if_splits)

definition streamer_initial :: "('w, 'z) streamer_env_scheme \<Rightarrow> 'w streamer \<Rightarrow> bool" where
  "streamer_initial E s \<longleftrightarrow> (\<exists>th w. s = streamer_init E th w)"

lemma streamer_init_core: "streamer_core ne (streamer_init E th w)"
  by (simp add: streamer_init_def control_init_def pipeline_data_init_def failure_init_def control_wf_def
      pipeline_wf_def calls_wf_def rnf_world_ok_def pending_cookies_init_def queue_wf_def queue_init_def fifo_ok_def)

text \<open>The identifier of the stream that an operation tries to append to the queue.\<close>
fun pushed :: "'w streamer_op \<Rightarrow> stream_id list" where
  "pushed (OpFifoPush smax sid variant key keep md) = [sid]"
| "pushed _ = []"

lemma core_apply:
  assumes "streamer_apply E l s = Some s'" "op_allowed E (needs_urls ne) l s"
    and order: "follows (play_order ne) (playlist s @ pushed l)"
      "follows (queue_order ne) (map item_id (queue (fifo s)) @ pushed l)"
  shows "streamer_core ne s \<longrightarrow> streamer_core ne s'"
proof (cases l)
  case (OpSetup bs bt dev)
  then show ?thesis using assms core_setup [of E False bs bt dev s _ s' ne] by auto
next
  case (OpFifoPush smax sid variant key keep md)
  obtain r where "fifo_push E smax sid variant key keep md s = Some (r, s')"
    using assms(1) OpFifoPush by auto
  then show ?thesis
    by (rule core_fifo_push) (use assms(2-4) OpFifoPush in auto)
next
  case (OpDataAvailable cks)
  then show ?thesis
    using assms(1) core_airable_signal [of E _ s s' ne] by (simp only: streamer_apply.simps airable_data_available_def) blast
next
  case (OpDataError errors)
  then show ?thesis
    using assms(1) core_airable_signal [of E _ s s' ne] by (simp only: streamer_apply.simps airable_data_error_def) blast
next
  case (OpBus src msg)
  then have "bus_message_handler E src msg s = Some s'" using assms(1) by simp
  then show ?thesis by (rule core_bus_message)
next
  case (OpFifoClear n)
  obtain q d s1 where "clear_queue n s = (q, d, s1)"
    by (metis prod_cases3)
  then show ?thesis
    using assms(1) OpFifoClear core_clear_queue [of n s q d s1 ne] by (auto simp: fifo_clear_def)
next
  case (OpInject domain code)
  then show ?thesis
    using assms(1) by (auto simp: playback_inject_failure_def inject_stream_failure_def split: option.splits if_splits)
qed (use assms(1) in
  \<open>simp_all only: streamer_apply.simps option.inject map_option_eq_Some audiopath_player_activate_def
     audiopath_player_deactivate_def playback_start_def playback_stop_def playback_pause_def playback_seek_def
     fifo_next_def mounta_device_will_be_removed_def report_progress_def do_restart_playing_def\<close>,
  (auto intro!: core_shutdown core_activate dest: core_deactivate core_start core_stop core_pause core_seek core_next
     core_remove_items core_queue_stream core_timed_emit_tags core_progress)+)

text \<open>The two uses: without an order, and with the order of the streams before the step.\<close>
lemma core_apply_any:
  "streamer_apply E l s = Some s' \<Longrightarrow> op_allowed E b l s \<Longrightarrow> streamer_core (any_order b) s \<Longrightarrow>
     streamer_core (any_order b) s'"
  using core_apply [of E l s s' "any_order b"] by (simp only: demands.simps follows_any, blast)

lemma playlist_step:
  assumes "streamer_apply E l s = Some s'" "streamer_core (any_order False) s" "op_allowed E False l s"
  shows "subseq (playlist s') (playlist s @ pushed l) \<and>
    subseq (map item_id (queue (fifo s'))) (map item_id (queue (fifo s)) @ pushed l)"
proof -
  let ?q = "map item_id (queue (fifo s)) @ pushed l"
  let ?d = "\<lparr>needs_urls = False, play_order = Some (playlist s @ pushed l), queue_order = Some ?q\<rparr>"
  have wf: "item_wf ?d = item_wf (any_order False)" by (simp add: item_wf_def fun_eq_iff)
  have q: "queue_wf ?d = queue_wf (any_order False)" by (simp add: queue_wf_def fun_eq_iff wf)
  have "follows (play_order ?d) (playlist s)" "follows (queue_order ?d) (map item_id (queue (fifo s)))"
    by (simp_all add: follows_def subseq_rev_drop_many)
  then have "streamer_core ?d s"
    using assms(2) wf q unfolding follows_playlist by simp
  then have "streamer_core ?d s'"
    using assms(3) core_apply [OF assms(1), of ?d] by (simp add: follows_def)
  then have "follows (play_order ?d) (playlist s')" "follows (queue_order ?d) (map item_id (queue (fifo s')))"
    unfolding follows_playlist by blast+
  then show ?thesis by (simp add: follows_def)
qed

interpretation streamer_machine: machine "streamer_initial E" "streamer_step E ne" "streamer_ok ne"
proof
  show "streamer_ok ne s" if "streamer_initial E s" for s :: "'a streamer"
    using that by (auto simp: streamer_initial_def streamer_ok_def streamer_init_core)
  show "streamer_ok ne s'" if "streamer_ok ne s" "streamer_step E ne s l s'" for s :: "'a streamer" and l s'
    using that core_apply_any unfolding streamer_step_iff streamer_ok_def by blast
qed

end
