(* ===== verification/Streamer_Safety.thy ===== *)
theory Streamer_Safety
  imports Streamer_Machine
begin

text \<open>
  What does not crash: under the invariant for non-empty items, every D-Bus method but seeking
  gives a result as long as there is a pipeline.  The lemmas named \<open>\<dots>_defined\<close> say when a
  function of the model is not \<open>None\<close>; on the way, the functions are shown to leave a current item
  and the pipeline where they are.
\<close>

lemma bind_defined: "\<exists>x. m = Some x \<Longrightarrow> (\<And>x. \<exists>y. f x = Some y) \<Longrightarrow> \<exists>y. (m \<bind> f) = Some y"
  by auto

section \<open>Reporting and error recovery\<close>

lemma item_wf_nonempty: "item_wf (any_order True) n it \<Longrightarrow> item_ok it \<and> \<not> item_empty it"
  by (simp add: item_wf_def)

lemma emit_stopped_with_error_defined:
  "pred_option (item_wf (any_order True) n) it \<Longrightarrow> \<exists>s'. emit_stopped_with_error E r it s = Some s'"
  using get_url_defined item_wf_nonempty
  by (cases it) (fastforce simp: emit_stopped_with_error_def split: prod.split)+

lemma recovery_defined:
  assumes "streamer_core (any_order True) s"
  shows "\<exists>s'. do_error_recovery E r s = Some s'"
proof -
  define s0 where "s0 = s\<lparr>pl := (pl s)\<lparr>next_stream_request := NOT_REQUESTED\<rparr>, fd := failure_fail r False (fd s)\<rparr>"
  obtain ok s1 where s1: "rebuild_playbin E s0 = Some (ok, s1)"
    using rebuild_defined [of s0 E] assms by (auto simp: s0_def)
  have cur: "current_stream (pl s1) = current_stream (pl s)"
    using rebuild_frame [OF s1] by (simp add: s0_def)
  have "\<exists>s'. emit_stopped_with_error E r' (current_stream (pl s1)) s2 = Some s'" for r' s2
    unfolding cur using assms
    by (intro emit_stopped_with_error_defined [where n = "length (calls (rnfs s))"]) simp
  then show ?thesis
    by (auto simp: do_error_recovery_def do_stop_pipeline_and_recover_from_error_def s0_def [symmetric] s1 Let_def
        intro!: bind_defined)
qed

lemma fail_current_defined:
  assumes "streamer_core (any_order True) s"
  shows "\<exists>s'. fail_current E d s = Some s'"
proof (cases "current_stream (pl s)")
  case None
  then show ?thesis by (simp add: fail_current_def)
next
  case (Some it)
  obtain first it1 where f: "item_fail it = (first, it1)" by force
  have "streamer_core (any_order True) (put_item CurrentItem it1 s)"
    using assms Some item_wf_fail [OF f] item_fail_id [OF f] by (intro core_put_current [of _ _ _ it]) auto
  then have "\<exists>s'. do_error_recovery E (fail_reason d) (put_item CurrentItem it1 s) = Some s'"
    by (rule recovery_defined)
  then show ?thesis
    using Some f by (auto simp: fail_current_def recover_from_error_now_or_later_def Let_def)
qed

lemma try_take_next_defined:
  assumes ok: "streamer_core (any_order True) s"
  shows "\<exists>nxt repl jq s'. try_take_next E expected s = Some (nxt, repl, jq, s')"
proof -
  obtain ref b where p: "pick_next_item s = (ref, b)" by force
  have f1: "\<exists>s2. fail_current E d (snd (pop_current s)) = Some s2" for d
    by (rule fail_current_defined [OF core_pop [OF ok]])
  have f2: "\<exists>s2. fail_current E d (s\<lparr>fifo := snd (pop_drop (fifo s))\<rparr>) = Some s2" for d
    by (rule fail_current_defined [OF core_pop_drop [OF ok]])
  have f3: "\<exists>s2. do_error_recovery E r s = Some s2" for r
    by (rule recovery_defined [OF ok])
  have failed: "\<exists>nxt repl jq s'. (let d = (failure_details_of_report (current_stream (pl s) \<noteq> None))\<lparr>fail_reason := r\<rparr>;
                replaced = (current_stream (pl s) \<noteq> None)
            in if replaced \<or> peek (fifo s) \<noteq> None
               then do { let s1 = (if replaced then snd (pop_current s)
                                   else s\<lparr>fifo := snd (pop_drop (fifo s))\<rparr>);
                         s2 \<leftarrow> fail_current E d s1;
                         Some (None, replaced, False, s2) }
               else do { s2 \<leftarrow> do_error_recovery E r s; Some (None, False, False, s2) })
         = Some (nxt :: item_ref option, repl, jq, s')" for r
    using f1 [of "(failure_details_of_report True)\<lparr>fail_reason := r\<rparr>"]
      f2 [of "(failure_details_of_report False)\<lparr>fail_reason := r\<rparr>"] f3 [of r]
    by (auto simp: Let_def)
  show ?thesis
  proof (cases ref)
    case None
    then show ?thesis using p failed [of QUEUE_EMPTY] by (auto simp: try_take_next_def Let_def)
  next
    case (Some r)
    then obtain it where "get_item r s = Some it" using pick_next_item_defined p by blast
    then show ?thesis using Some p failed [of URL_MISSING] by (auto simp: try_take_next_def Let_def)
  qed
qed

section \<open>Resolving\<close>

definition has_current :: "'w streamer \<Rightarrow> bool" where
  "has_current s \<longleftrightarrow> current_stream (pl s) \<noteq> None"

lemma has_current_frame [simp]:
  "has_current (set_world w s) = has_current s" "has_current (emit e s) = has_current s"
  "has_current (put_item ref it s) = has_current s" "has_current (s\<lparr>rnfs := r\<rparr>) = has_current s"
  "has_current (update_item ref f s) = has_current s" "has_current (set_buffering d s) = has_current s"
  "has_current (invalidate_previous_time s) = has_current s" "has_current (set_pipeline_uri E u s) = has_current s"
  "has_current (snd (set_stream_state E st s)) = has_current s"
  by (cases ref; simp add: has_current_def put_item_def)+

lemma underrun_defined: "pipeline (pl s) \<noteq> None \<Longrightarrow> \<exists>s'. handle_buffer_underrun E s = Some s'"
  by (cases "pipeline (pl s)") (auto simp: handle_buffer_underrun_def Let_def split: prod.split)

lemma encourage_defined:
  "has_current s \<Longrightarrow> pipeline (pl s) \<noteq> None \<Longrightarrow> \<exists>s'. do_encourage_buffering E s = Some s'"
  using underrun_defined [of "set_buffering (snd (set_buffer_level 0 (stream_buffering_data (pl s)))) s" E]
  by (auto simp: do_encourage_buffering_def has_current_def)

lemma encourage_frame:
  "do_encourage_buffering E s = Some s' \<Longrightarrow>
     pipeline (pl s') = pipeline (pl s) \<and> current_stream (pl s') = current_stream (pl s) \<and> fifo s' = fifo s \<and> ctl s' = ctl s"
  by (auto simp: do_encourage_buffering_def bind_eq_Some_conv dest!: underrun_frame split: if_splits)

lemma start_resolved_defined:
  assumes "has_current s"
  shows "\<exists>b s'. start_resolved E st s = Some (b, s') \<and> has_current s' \<and> pipeline (pl s') = pipeline (pl s)"
proof (cases "pipeline (pl s)")
  case None
  then show ?thesis using assms by (auto simp: start_resolved_def set_stream_state_def)
next
  case (Some p)
  obtain ok s1 where s1: "set_stream_state E st s = (ok, s1)" by force
  then have s1': "pipeline (pl s1) = Some p" "has_current s1"
    using stream_state_frame [OF s1] Some assms by auto
  obtain s2 where s2: "do_encourage_buffering E (invalidate_previous_time s1) = Some s2"
    using encourage_defined [of "invalidate_previous_time s1" E] s1' by auto
  then show ?thesis
    using s1 s1' Some encourage_frame [OF s2] by (auto simp: start_resolved_def has_current_def)
qed

lemma on_link_resolved_defined:
  assumes "get_item ref s = Some it" "item_ok it" "\<not> item_empty it" "has_current s"
  shows "\<exists>b s'. on_link_resolved E changed ref st prefetching s = Some (b, s') \<and> has_current s' \<and>
    pipeline (pl s') = pipeline (pl s)"
proof -
  obtain uri where uri: "get_url_for_playing it = Some uri"
    using get_url_defined [OF assms(2,3)] by blast
  obtain required it1 where req: "is_pipeline_start_required it = (required, it1)"
    by force
  define s2 where "s2 = (set_pipeline_uri E uri s)\<lparr>pl := (pl s)\<lparr>next_stream_request := NOT_REQUESTED\<rparr>\<rparr>"
  have s2: "has_current s2" "has_current (put_item ref it1 s2)" "pipeline (pl s2) = pipeline (pl s)"
    using assms(4) by (simp_all add: s2_def has_current_def [of "_\<lparr>pl := _\<rparr>"] has_current_def [of s])
  show ?thesis
    using assms(1,4) uri req s2(1) s2(3) start_resolved_defined [OF s2(1), of E] start_resolved_defined [OF s2(2), of E]
    by (cases changed; cases prefetching; cases required)
      (auto simp: on_link_resolved_def Let_def s2_def [symmetric] s2(2))
qed

lemma finish_state_defined:
  "item_ok it \<Longrightarrow> \<not> item_empty it \<Longrightarrow> \<exists>r it'. resolver_finish_state now st it = Some (r, it')"
  using selected_defined [of it] by (auto simp: resolver_finish_state_def Let_def)

lemma finish_uri_defined:
  "item_ok it \<Longrightarrow> \<not> item_empty it \<Longrightarrow> \<exists>r it'. resolver_finish_uri now uri v it = Some (r, it')"
  using selected_defined [of it] finish_state_defined [of it] by (auto simp: resolver_finish_uri_def)

lemma select_next_url_defined: "item_ok it \<Longrightarrow> \<not> item_empty it \<Longrightarrow> \<exists>b it'. select_next_url now it = Some (b, it')"
  using selected_defined [of it] by (auto simp: select_next_url_def Let_def split: prod.split)

text \<open>The state a context is notified of is that of the call.\<close>
definition notified_of :: "call_ref \<Rightarrow> call_state \<Rightarrow> 'w streamer \<Rightarrow> bool" where
  "notified_of i st s \<longleftrightarrow> i < length (calls (rnfs s)) \<and> cstate (rnf (calls (rnfs s) ! i)) = st"

lemma fetch_notifies_state:
  "fetch_and_notify E i r = Some (Some st, r') \<Longrightarrow> i < length (calls r') \<and> cstate (rnf (calls r' ! i)) = st"
  by (auto simp: fetch_and_notify_def Let_def bind_eq_Some_conv update_rnf_def
      split: prod.splits sum.splits if_splits)

lemma result_of_fetched:
  assumes "call_ok c" "cstate c = RESULT_FETCHED" "get_result_unlocked c = Some (Inl e, c')"
  shows "e \<in> {AbortedError, NoResultError}"
  using assms by (auto simp: get_result_unlocked_def call_ok_def split: if_splits promise.splits)

lemma finish_resolver_defined:
  assumes ok: "streamer_core (any_order True) s" and it: "get_item ref s = Some it" and n: "notified_of i st s"
  shows "\<exists>res s'. finish_resolver E i st ref s = Some (res, s')"
proof -
  have wf: "item_ok it" "\<not> item_empty it"
    using core_get_item [OF it, of "any_order True"] ok by (simp_all add: item_wf_def)
  have broken: "\<exists>res s'. do { (res, it1) \<leftarrow> resolver_finish_state now URL_BROKEN it;
      Some (res, put_item ref it1 s1) } = Some (res, s')" for now s1
    using finish_state_defined [OF wf, of now URL_BROKEN] by auto
  show ?thesis
  proof (cases "st = RESULT_FETCHED")
    case False
    then show ?thesis
      using broken it by (cases st) (auto simp: finish_resolver_def Let_def)
  next
    case True
    define c where "c = calls (rnfs s) ! i"
    have c: "get_call i (rnfs s) = Some c" "call_ok (rnf c)" "cstate (rnf c) = RESULT_FETCHED"
      using n True rnf_world_ok_nth [OF core_calls [OF ok], of i] by (auto simp: notified_of_def c_def)
    obtain result c1 where g: "get_result_unlocked (rnf c) = Some (result, c1)"
      using get_result_defined [OF c(2)] by force
    show ?thesis
    proof (cases result)
      case (Inl e)
      then have "e \<in> {AbortedError, NoResultError}" using result_of_fetched [OF c(2,3)] g by simp
      then show ?thesis
        using broken it True c(1) g Inl by (auto simp: finish_resolver_def Let_def simp del: get_call_Some)
    next
      case (Inr r)
      then show ?thesis
        using finish_uri_defined [OF wf, of "timebase_now E (world s)" "rr_url r" "rr_expected_valid r"] it True c(1) g
        by (auto simp: finish_resolver_def Let_def simp del: get_call_Some)
    qed
  qed
qed

lemma resolver_begin_shape:
  assumes "resolver_begin E ref ctx s = Some (i, n, s')"
  shows "\<exists>it r r'. get_item ref s = Some it \<and>
    s' = (put_item ref (it\<lparr>resolver := Some i\<rparr>) (s\<lparr>rnfs := r\<rparr>))\<lparr>rnfs := r'\<rparr> \<and>
    (\<forall>st. n = Some st \<longrightarrow> notified_of i st s')"
proof -
  obtain it where it: "get_item ref s = Some it"
    using assms by (auto simp: resolver_begin_def bind_eq_Some_conv)
  show ?thesis
    using assms it
    by (auto simp: resolver_begin_def Let_def bind_eq_Some_conv notified_of_def split: request_action.splits)
      (metis fetch_notifies_state request_action.exhaust)+
qed

lemma find_resolved_item_current:
  "find_resolved_item sid s = Some ref \<Longrightarrow> \<exists>it. get_item ref s = Some it"
  using find_resolved_item_Some by blast

lemma get_item_frame [simp]:
  "get_item ref (set_world w s) = get_item ref s" "get_item ref (emit e s) = get_item ref s"
  "get_item ref (invalidate_previous_time s) = get_item ref s" "get_item ref (set_pipeline_uri E u s) = get_item ref s"
  by (cases ref; simp)+

lemma core_nonempty:
  assumes "streamer_core (any_order True) s" "get_item ref s = Some it"
  shows "item_ok it" "\<not> item_empty it"
  using core_get_item [OF assms(2), of "any_order True"] assms(1) by (simp_all add: item_wf_def)

lemma notify_resolved_defined:
  assumes ok: "streamer_core (any_order True) s" and n: "notified_of i st s" and cur: "has_current s"
  shows "\<exists>again s'. notify_resolved E i st s = Some (again, s') \<and> has_current s' \<and>
    pipeline (pl s') = pipeline (pl s) \<and> (\<forall>ref. again = Some ref \<longrightarrow> get_item ref s' \<noteq> None)"
proof (cases "st \<in> {INITIALIZED, WAIT_FOR_NOTIFICATION, READY_TO_FETCH, ABOUT_TO_DESTROY}")
  case True
  then show ?thesis using cur by (auto simp: notify_resolved_def)
next
  case False
  define c where "c = calls (rnfs s) ! i"
  have c: "get_call i (rnfs s) = Some c"
    using n by (simp add: notified_of_def c_def)
  show ?thesis
  proof (cases "find_resolved_item (rctx_stream_id (context_data c)) s")
    case None
    then show ?thesis using cur c False by (auto simp: notify_resolved_def Let_def simp del: get_call_Some)
  next
    case (Some ref)
    then obtain it where it: "get_item ref s = Some it"
      using find_resolved_item_Some by blast
    obtain res s1 where f: "finish_resolver E i st ref s = Some (res, s1)"
      using finish_resolver_defined [OF ok it n] by blast
    have s1: "streamer_core (any_order True) s1" by (rule core_finish_resolver [OF f ok])
    obtain it1 r where shape: "s1 = put_item ref it1 (s\<lparr>rnfs := r\<rparr>)"
      using finish_resolver_frame [OF f] by blast
    have s1': "has_current s1" "pipeline (pl s1) = pipeline (pl s)" "get_item ref s1 = Some it1"
      using cur it by (simp_all add: shape)
    note wf = core_nonempty [OF s1 s1'(3)]
    show ?thesis
    proof (cases res)
      case RESOLVED
      obtain b s2 where "on_link_resolved E False ref (rctx_next_state (context_data c))
            (rctx_prefetching (context_data c)) s1 = Some (b, s2)" "has_current s2" "pipeline (pl s2) = pipeline (pl s1)"
        using on_link_resolved_defined [OF s1'(3) wf s1'(1)] by blast
      then show ?thesis
        using c False Some f RESOLVED s1' by (auto simp: notify_resolved_def Let_def simp del: get_call_Some)
    next
      case HAVE_MORE_URLS
      obtain more it2 where "select_next_url (timebase_now E (world s1)) it1 = Some (more, it2)"
        using select_next_url_defined [OF wf] by blast
      then show ?thesis
        using c False Some f HAVE_MORE_URLS s1'
        by (auto simp: notify_resolved_def Let_def simp del: get_call_Some)
    next
      case RESOLVER_FAILED
      then show ?thesis
        using c False Some f s1' by (auto simp: notify_resolved_def Let_def simp del: get_call_Some)
    qed
  qed
qed

lemma resolve_fuel_defined:
  assumes "resolver_rank s < n" "streamer_core (any_order True) s" "get_item ref s \<noteq> None" "has_current s"
  shows "\<exists>b s'. resolve_selected_url n E changed ref st prefetching s = Some (b, s') \<and> has_current s' \<and>
    pipeline (pl s') = pipeline (pl s)"
  using assms
proof (induction n arbitrary: s ref changed)
  case 0
  then show ?case by simp
next
  case (Suc n)
  note ok = Suc.prems(2) and cur = Suc.prems(4)
  obtain it where it: "get_item ref s = Some it" using Suc.prems(3) by blast
  note wf = core_nonempty [OF ok it]
  obtain u r where u: "get_url_for_playing it = Some u" "get_url_for_reporting it = Some r"
    using get_url_defined [OF wf] by blast
  obtain us where us: "get_selected_url_state it = Some us"
    using url_state_defined [OF wf(1)] by blast
  show ?case
  proof (cases "us = KNOWN_AIRABLE_LINK")
    case False
    then show ?thesis
      using on_link_resolved_defined [OF it wf cur, of E changed st prefetching] it u us cur by (cases us) auto
  next
    case True
    define ctx where "ctx = \<lparr>rctx_stream_id = item_id it, rctx_next_state = st, rctx_prefetching = prefetching\<rparr>"
    obtain i no s1 where b: "resolver_begin E ref ctx s = Some (i, no, s1)"
      using resolver_begin_ok [OF ok it u(2)] by blast
    have s1: "streamer_core (any_order True) s1" by (rule core_resolver_begin [OF b ok])
    have s1': "has_current s1" "pipeline (pl s1) = pipeline (pl s)" "no = Some cst \<Longrightarrow> notified_of i cst s1" for cst
      using resolver_begin_shape [OF b] cur by auto
    show ?thesis
    proof (cases no)
      case None
      then show ?thesis using it u us True b s1' by (auto simp: ctx_def)
    next
      case (Some cst)
      obtain again s2 where n: "notify_resolved E i cst s1 = Some (again, s2)" "has_current s2"
          "pipeline (pl s2) = pipeline (pl s1)" "\<forall>ref. again = Some ref \<longrightarrow> get_item ref s2 \<noteq> None"
        using notify_resolved_defined [OF s1 s1'(3) [OF Some] s1'(1)] by blast
      show ?thesis
      proof (cases again)
        case None
        then show ?thesis using it u us True b s1' n Some by (auto simp: ctx_def)
      next
        case (Some ref')
        have "resolver_rank s2 < n"
          using notify_rank n(1) Some resolver_begin_rank [OF b] Suc.prems(1) by fastforce
        then obtain b' s3 where "resolve_selected_url n E False ref' st prefetching s2 = Some (b', s3)"
            "has_current s3" "pipeline (pl s3) = pipeline (pl s2)"
          using Suc.IH [OF _ core_notify [OF n(1) s1]] n Some by blast
        then show ?thesis
          using it u us True b s1' n Some \<open>no = Some cst\<close> by (auto simp: ctx_def)
      qed
    qed
  qed
qed

lemma resolve_defined:
  assumes "streamer_core (any_order True) s" "get_item ref s \<noteq> None" "has_current s"
  shows "\<exists>b s'. resolve_selected_url_or_play_uri E changed ref st prefetching s = Some (b, s') \<and> has_current s' \<and>
    pipeline (pl s') = pipeline (pl s)"
  unfolding resolve_selected_url_or_play_uri_def by (rule resolve_fuel_defined [OF _ assms]) simp

section \<open>Playing the next item\<close>

lemma update_item_get: "get_item ref s = Some it \<Longrightarrow> get_item ref (update_item ref f s) = Some (f it)"
  by (cases ref) (auto simp: peek_eq update_head_eq split: if_splits)

lemma update_item_frame [simp]: "pipeline (pl (update_item ref f s)) = pipeline (pl s)"
  by (cases ref) simp_all

lemma get_item_update_current [simp]:
  "get_item ref (update_item CurrentItem f s) = (if ref = CurrentItem then map_option f (get_item ref s) else get_item ref s)"
  by (cases ref) simp_all

lemma play_next_defined:
  assumes ok: "streamer_core (any_order True) s" and it: "get_item nxt s \<noteq> None" and cur: "has_current s"
    and repl: "replaced \<in> {None, Some CurrentItem}"
  shows "\<exists>b s'. play_next_stream E False replaced nxt st skipping prefetching s = Some (b, s') \<and>
    has_current s' \<and> pipeline (pl s') = pipeline (pl s)"
proof -
  obtain it where it: "get_item nxt s = Some it" using it by blast
  define s1 where "s1 = update_item nxt (set_item_state ABOUT_TO_ACTIVATE) s"
  define s2 where "s2 = (case replaced of None \<Rightarrow> s1 | Some ref \<Rightarrow> update_item ref (set_item_state
      (if skipping then ABOUT_TO_BE_SKIPPED else ABOUT_TO_PHASE_OUT)) s1)"
  have s1: "streamer_core (any_order True) s1" "has_current s1" "get_item nxt s1 \<noteq> None" "pipeline (pl s1) = pipeline (pl s)"
    using core_update_state [OF ok, of nxt ABOUT_TO_ACTIVATE] cur update_item_get [OF it] by (simp_all add: s1_def)
  have s2: "streamer_core (any_order True) s2"
    using core_update_state [OF s1(1), of CurrentItem] s1(1) repl
    by (auto simp: s2_def simp del: update_item.simps)
  have s2': "has_current s2" "get_item nxt s2 \<noteq> None" "pipeline (pl s2) = pipeline (pl s)"
    using s1 repl by (auto simp: s2_def simp del: update_item.simps)
  obtain b s' where "resolve_selected_url_or_play_uri E False nxt st prefetching s2 = Some (b, s')"
      "has_current s'" "pipeline (pl s') = pipeline (pl s2)"
    using resolve_defined [OF s2 s2'(2,1)] by blast
  then show ?thesis
    using it s2' cur
    by (cases "item_state it")
      (auto simp: play_next_stream_def Let_def s1_def [symmetric] s2_def [symmetric] has_current_def)
qed

lemma try_play_next_defined:
  assumes ok: "streamer_core (any_order True) s"
  shows "\<exists>s'. try_play_next_stream E False st s = Some s'"
proof -
  obtain nxt c j s1 where t: "try_take_next E True s = Some (nxt, c, j, s1)"
    using try_take_next_defined [OF ok] by blast
  have s1: "streamer_core (any_order True) s1" using core_try_take_next [OF t, of "any_order True"] ok by blast
  show ?thesis
  proof (cases nxt)
    case None
    then show ?thesis using t by (simp add: try_play_next_stream_def)
  next
    case (Some ref)
    then have "get_item ref s1 \<noteq> None" "has_current s1"
      using taken_item [of E True s ref c j s1] t by (auto simp: has_current_def)
    then show ?thesis
      using t Some play_next_defined [OF s1, of ref None E st False False]
      by (auto simp: try_play_next_stream_def)
  qed
qed

lemma queue_unlocked_defined:
  assumes ok: "streamer_core (any_order True) s" and cur: "has_current s"
  shows "\<exists>s'. queue_stream_from_url_fifo_unlocked E False s = Some s' \<and> pipeline (pl s') = pipeline (pl s)"
proof -
  obtain nxt b where p: "pick_next_item s = (nxt, b)" by force
  show ?thesis
  proof (cases nxt)
    case None
    then show ?thesis using p by (auto simp: queue_stream_from_url_fifo_unlocked_def)
  next
    case (Some ref)
    then have it: "get_item ref s \<noteq> None" using pick_next_item_defined p by blast
    define repl where "repl = (if b then None else if current_stream (pl s) = None then None else Some CurrentItem)"
    have "repl \<in> {None, Some CurrentItem}" by (simp add: repl_def)
    then obtain b' s' where "play_next_stream E False repl ref GST_STATE_NULL False True s = Some (b', s')"
        "pipeline (pl s') = pipeline (pl s)"
      using play_next_defined [OF ok it cur] by blast
    then show ?thesis
      using p Some by (simp add: queue_stream_from_url_fifo_unlocked_def repl_def [symmetric])
  qed
qed

section \<open>D-Bus methods\<close>

lemma do_stop_defined:
  assumes "pipeline (pl s) \<noteq> None"
  shows "\<exists>a b s'. do_stop E pend s = Some (a, b, s') \<and> pipeline (pl s') = pipeline (pl s) \<and>
      current_stream (pl s') = current_stream (pl s) \<and> calls (rnfs s') = calls (rnfs s)"
proof -
  obtain p where p: "pipeline (pl s) = Some p" using assms by blast
  obtain ok w where st: "set_stream_state E GST_STATE_READY
      (s\<lparr>ctl := (ctl s)\<lparr>supposed_play_status := STOPPED\<rparr>\<rparr>)
      = (ok, set_world w (s\<lparr>ctl := (ctl s)\<lparr>supposed_play_status := STOPPED\<rparr>\<rparr>))"
    using stream_state_frame by (metis surj_pair)
  show ?thesis
    by (simp add: do_stop_def Let_def p st ex_bool_eq)
qed

lemma deactivate_defined: "pipeline (pl s) \<noteq> None \<Longrightarrow> \<exists>s'. deactivate E s = Some s'"
  using do_stop_defined [of "s\<lparr>ctl := (ctl s)\<lparr>is_player_activated := False\<rparr>\<rparr>" E]
  by (fastforce simp: deactivate_def Let_def pipeline_state_def)

lemma workarounds_defined:
  "streamer_core ne s \<Longrightarrow> \<exists>s'. rebuild_playbin_for_workarounds E s = Some s'"
  using rebuild_defined [of s E] by (auto simp: rebuild_playbin_for_workarounds_def)

lemma start_defined:
  assumes ok: "streamer_core (any_order True) s" and p: "pipeline (pl s) \<noteq> None"
  shows "\<exists>b s'. start E s = Some (b, s')"
proof (cases "is_player_activated (ctl s)")
  case False
  then show ?thesis by (auto simp: start_def)
next
  case True
  obtain q where q: "pipeline (pl s) = Some q" using p by blast
  define s1 where "s1 = s\<lparr>ctl := (ctl s)\<lparr>supposed_play_status := PLAYING\<rparr>\<rparr>"
  have s1: "streamer_core (any_order True) s1"
    using ok True by (simp add: s1_def control_wf_def)
  obtain s2 where s2: "rebuild_playbin_for_workarounds E s1 = Some s2"
    using workarounds_defined [OF s1] by blast
  obtain s3 where "try_play_next_stream E False GST_STATE_PLAYING s2 = Some s3"
    using try_play_next_defined core_workarounds [OF s2, of "any_order True"] s1 by blast
  then show ?thesis
    using True q s2
    by (auto simp: start_def Let_def s1_def [symmetric] split: gst_state.split)
qed

lemma stop_defined:
  assumes ok: "streamer_core (any_order True) s" and p: "pipeline (pl s) \<noteq> None"
  shows "\<exists>b s'. stop E s = Some (b, s')"
proof -
  obtain q where q: "pipeline (pl s) = Some q" using p by blast
  obtain a b s1 where d: "do_stop E (gst_pending_state E q (world s)) s = Some (a, b, s1)"
      "pipeline (pl s1) = Some q" "current_stream (pl s1) = current_stream (pl s)"
    using do_stop_defined [OF p, of E] q by metis
  have "pred_option (item_wf (any_order True) (length (calls (rnfs s)))) (current_stream (pl s1))"
    unfolding d(3) using ok by simp
  then obtain s2 where "emit_stopped_with_error E ALREADY_STOPPED (current_stream (pl s1))
      (s1\<lparr>pl := (pl s1)\<lparr>current_stream := None\<rparr>\<rparr>) = Some s2"
    using emit_stopped_with_error_defined by blast
  then show ?thesis
    using q d by (auto simp: stop_def pipeline_state_def)
qed

lemma pause_defined:
  assumes ok: "streamer_core (any_order True) s" and p: "pipeline (pl s) \<noteq> None"
  shows "\<exists>b s'. pause E s = Some (b, s')"
proof (cases "is_player_activated (ctl s)")
  case False
  then show ?thesis by (auto simp: pause_def)
next
  case True
  obtain q where q: "pipeline (pl s) = Some q" using p by blast
  define s1 where "s1 = s\<lparr>ctl := (ctl s)\<lparr>supposed_play_status := PAUSED\<rparr>\<rparr>"
  have s1: "streamer_core (any_order True) s1"
    using ok True by (simp add: s1_def control_wf_def)
  obtain s2 where "try_play_next_stream E False GST_STATE_PAUSED s1 = Some s2"
    using try_play_next_defined [OF s1] by blast
  then show ?thesis
    using True q by (auto simp: pause_def Let_def s1_def [symmetric] split: gst_state.split)
qed

lemma play_taken_defined:
  assumes ok: "streamer_core (any_order True) s" and nxt: "nxt \<in> {None, Some CurrentItem}"
    and cur: "nxt \<noteq> None \<longrightarrow> has_current s"
  shows "\<exists>i s'. play_taken E nxt c s = Some (i, s')"
proof (cases "nxt = None")
  case True
  then show ?thesis by (simp add: play_taken_def)
next
  case False
  then have n: "nxt = Some CurrentItem" "has_current s" using nxt cur by auto
  obtain b w where st: "set_stream_state E GST_STATE_READY s = (b, set_world w s)"
    using stream_state_frame by (metis surj_pair)
  obtain it where it: "current_stream (pl s) = Some it" using n(2) by (auto simp: has_current_def)
  have s1: "streamer_core (any_order True) (set_world w s)" "has_current (set_world w s)" "get_item CurrentItem (set_world w s) \<noteq> None"
    using ok n(2) it by simp_all
  have "\<exists>p s'. play_next_stream E False repl CurrentItem st' True False (set_world w s) = Some (p, s')"
    if "repl \<in> {None, Some CurrentItem}" for repl st'
    using play_next_defined [OF s1(1,3,2) that] by blast
  note played = this
  define repl where "repl = (if c then None else if current_stream (pl (set_world w s)) = None then None else Some CurrentItem)"
  define st' where "st' = (case supposed_play_status (ctl (set_world w s)) of
      STOPPED \<Rightarrow> GST_STATE_READY | PLAYING \<Rightarrow> GST_STATE_PLAYING | PAUSED \<Rightarrow> GST_STATE_PAUSED)"
  obtain p s' where "play_next_stream E False repl CurrentItem st' True False (set_world w s) = Some (p, s')"
    using played [of repl st'] by (cases "repl = None") (auto simp: repl_def split: if_splits)
  then show ?thesis
    using n st it by (cases b) (simp_all add: play_taken_def Let_def repl_def st'_def)
qed

lemma next_stream_defined:
  assumes ok: "streamer_core (any_order True) s" and p: "pipeline (pl s) \<noteq> None"
  shows "\<exists>r ids s'. next_stream E skip s = Some (r, ids, s')"
proof (cases "is_player_activated (ctl s)")
  case False
  then show ?thesis by (simp add: next_stream_def)
next
  case True
  define s1 where "s1 = (if skip then skip_current s else s)"
  have s1: "streamer_core (any_order True) s1" using ok core_skip_current [of s "any_order True"] by (simp add: s1_def)
  define permitted where "permitted \<longleftrightarrow> supposed_play_status (ctl s1) \<noteq> STOPPED \<or> \<not> skip"
  define sid where "sid = (case current_stream (pl s1) of Some it \<Rightarrow> ucast (item_id it) | None \<Rightarrow> UINT32_MAX)"
  obtain nxt0 c0 j0 s20 where t0: "try_take_next E True s1 = Some (nxt0, c0, j0, s20)"
    using try_take_next_defined [OF s1] by blast
  obtain nxt c s2 where t: "(if permitted then map_option (\<lambda>(n, c, _, s2). (n, c, s2)) (try_take_next E True s1)
         else Some (None, False, s1)) = Some (nxt, c, s2)"
    using t0 by (cases permitted) auto
  have s2: "streamer_core (any_order True) s2"
    using t s1 core_try_take_next [of E True s1 _ _ _ s2 "any_order True"] by (auto split: if_splits)
  have n: "nxt \<in> {None, Some CurrentItem}" "nxt \<noteq> None \<longrightarrow> has_current s2"
    using t t0 taken_item [of E True s1 "the nxt" c0 j0 s20]
    by (cases nxt; auto simp: has_current_def split: if_splits)+
  obtain nxt' i' s3 where k: "skip_taken nxt c sid s2 = (nxt', i', s3)"
    by (metis prod_cases3)
  have s3: "streamer_core (any_order True) s3" "nxt' \<in> {None, Some CurrentItem}" "nxt' \<noteq> None \<longrightarrow> has_current s3"
    using core_skip_taken [OF k, of "any_order True"] s2 n by (auto simp: has_current_def)
  obtain j s4 where "play_taken E nxt' c s3 = Some (j, s4)"
    using play_taken_defined [OF s3] by blast
  then show ?thesis
    unfolding next_stream_def Let_def s1_def [symmetric] sid_def [symmetric] permitted_def [symmetric]
    using True p t k by auto
qed

lemma push_item_defined:
  assumes ok: "streamer_core (any_order True) s" and su: "stream_urls_ok su" "urls su \<noteq> []"
  shows "\<exists>b d1 d2 s'. push_item E sid key su md keep s = Some (b, d1, d2, s') \<and> pipeline (pl s') = pipeline (pl s)"
proof (cases "is_player_activated (ctl s)")
  case False
  then show ?thesis by (auto simp: push_item_def)
next
  case True
  obtain before s1 where b: "mk_id_array_from_dropped_items s = (before, s1)"
    by (cases "mk_id_array_from_dropped_items s")
  have s1: "streamer_core (any_order True) s1" "pl s1 = pl s" using dropped_eq [OF b] ok by simp_all
  obtain l cover extra where g: "g_variant_to_tag_list (tags_env E) md = (l, cover, extra)"
    by (metis prod_cases3)
  define it where "it = new_item E sid key su True cover extra l time_point_min time_point_max"
  obtain n q where q: "push it keep (fifo s1) = (n, q)" by force
  have it: "item_wf (any_order True) (length (calls (rnfs s1))) it" "item_state it = IN_QUEUE"
    unfolding it_def using item_wf_new [of su "any_order True"] su by (simp_all add: new_item_def)
  have s2: "streamer_core (any_order True) (s1\<lparr>fifo := q\<rparr>)"
    using queue_wf_push [of "any_order True" "length (calls (rnfs s1))" "fifo s1" it keep] it q s1 by simp
  define cond where "cond \<longleftrightarrow> next_stream_request (pl s1) = REQUESTED \<and>
      (case current_stream (pl s1) of None \<Rightarrow> False | Some cur \<Rightarrow> item_state cur = ABOUT_TO_PHASE_OUT)"
  obtain s3 where s3: "(if cond then queue_stream_from_url_fifo_unlocked E False (s1\<lparr>fifo := q\<rparr>)
      else Some (s1\<lparr>fifo := q\<rparr>)) = Some s3" "pipeline (pl s3) = pipeline (pl s)"
  proof (cases cond)
    case True
    then have "has_current (s1\<lparr>fifo := q\<rparr>)" by (auto simp: cond_def has_current_def split: option.splits)
    then show ?thesis using queue_unlocked_defined [OF s2, of E] True that s1(2) by auto
  qed (use that [of "s1\<lparr>fifo := q\<rparr>"] s1(2) in simp)
  obtain d s4 where d: "mk_id_array_from_dropped_items s3 = (d, s4)"
    by (cases "mk_id_array_from_dropped_items s3")
  show ?thesis
    using True s3 dropped_eq [OF d] s1(2)
    by (cases "n = 0") (simp_all add: push_item_def b g it_def [symmetric] q Let_def d cond_def ex_bool_eq)
qed

lemma fifo_push_defined:
  assumes ok: "streamer_core (any_order True) s" and p: "pipeline (pl s) \<noteq> None"
    and su: "stream_urls_of_variant E variant (world s) = Some (su, w)" "urls su \<noteq> []"
  shows "\<exists>r s'. fifo_push E SIZE_MAX sid variant key keep md s = Some (r, s')"
proof -
  have w: "streamer_core (any_order True) (set_world w s)" using ok by simp
  obtain b d1 d2 s1 where i: "push_item E sid key su md (keep_items SIZE_MAX keep) (set_world w s) = Some (b, d1, d2, s1)"
      "pipeline (pl s1) = pipeline (pl s)"
    using push_item_defined [OF w stream_urls_ok_of_variant [OF su(1)] su(2), of E sid key md "keep_items SIZE_MAX keep"]
    by auto
  have s1: "streamer_core (any_order True) s1"
    using core_push_item [OF i(1) stream_urls_ok_of_variant [OF su(1)], of "any_order True"] su(2) w
    by simp
  obtain r ids s2 where n: "next_stream E True s1 = Some (r, ids, s2)"
    using next_stream_defined [OF s1] p i(2) by metis
  obtain b' where "is_playing E s1 = Some b'"
    using p i(2) by (auto simp: is_playing_def pipeline_state_def)
  then show ?thesis using su(1) i(1) n by (simp add: fifo_push_def)
qed

lemma remove_items_defined:
  assumes ok: "streamer_core (any_order True) s" and p: "pipeline (pl s) \<noteq> None"
  shows "\<exists>b s'. remove_items_for_root_path E root s = Some (b, s')"
proof (cases "current_stream (pl s)")
  case None
  then show ?thesis by (auto simp: remove_items_for_root_path_def)
next
  case (Some it)
  then obtain url where "get_url_for_playing it = Some url"
    using get_url_defined core_nonempty [OF ok, of CurrentItem it] by auto
  then show ?thesis
    using Some stop_defined [OF ok p, of E]
    by (auto simp: remove_items_for_root_path_def split: option.split list.split)
qed

end
