(* ===== verification/Streamer_Sample.thy ===== *)
theory Streamer_Sample
  imports Streamer_Machine
begin

text \<open>
  An environment in which the theorems are applied: \<open>sample_env\<close> has a world that is the state of the
  one pipeline, which does as it is told, and a list broker that answers at once; \<open>sample_streamer\<close>
  is the streamer after \<open>setup()\<close> and activation.
\<close>

definition sample_env :: "gst_state streamer_env" where
  "sample_env =
     \<lparr>os_mkstemp = (\<lambda>t w. (None, w)), os_file_delete = (\<lambda>n w. w), os_system_failed = (\<lambda>c w. (False, w)),
      os_map_file = (\<lambda>n w. None), gst_filename_to_uri = (\<lambda>f. Some f), gst_uri_from_string = (\<lambda>u. Some
        \<lparr>uri_scheme = Some ''http'', uri_path_segments = []\<rparr>),
      air_resolve_redirect = (\<lambda>u w. (Some (0, 0, ''http://resolved'', 60), w)),
      air_resolve_redirect_by_cookie = (\<lambda>c w. (None, w)), air_data_abort = (\<lambda>cs w. (True, w)),
      list_error_ok = 0, list_error_internal = 1, list_error_failed = (\<lambda>e. e \<noteq> 0),
      gst_make_playbin = (\<lambda>w. (Some 1, GST_STATE_NULL)), gst_configure_playbin = (\<lambda>p b d w. w),
      gst_bus_add_watch = (\<lambda>p w. (1, w)), g_signal_connect = (\<lambda>p n w. (1, w)),
      g_signal_handler_disconnect = (\<lambda>p i w. w), gst_object_unref = (\<lambda>p w. w),
      g_timeout_add = (\<lambda>t w. (1, w)), g_source_remove = (\<lambda>i w. w),
      gst_element_set_state = (\<lambda>p st w. (CHANGE_SUCCESS, st)),
      gst_current_state = (\<lambda>p w. w), gst_pending_state = (\<lambda>p w. GST_STATE_VOID_PENDING),
      gst_target_state = (\<lambda>p w. w), gst_element_get_state = (\<lambda>p w. (CHANGE_SUCCESS, w, GST_STATE_VOID_PENDING)),
      gst_set_uri = (\<lambda>p u w. w), gst_get_uri = (\<lambda>p w. Some ''http://a''),
      gst_get_current_uri = (\<lambda>p w. Some ''http://a''),
      gst_query_position = (\<lambda>p w. Some 5000000000), gst_query_duration = (\<lambda>p w. Some 60000000000),
      gst_query_seeking = (\<lambda>p w. Some (True, 60000000000)), gst_send_seek = (\<lambda>p t w. (True, w)),
      gst_post_wrong_type = (\<lambda>p w. w), gst_recalculate_latency = (\<lambda>p w. w),
      gst_clock_get_time = (\<lambda>w. 0), timebase_now = (\<lambda>w. 0),
      tags_env = \<lparr>tag_merge_prepend = (\<lambda>a b. a @ b), tag_add_keep = (\<lambda>l t v. l @ [(t, [VString v])])\<rparr>,
      filename_from_uri = (\<lambda>u. Some u), os_realpath = (\<lambda>p w. p), STREAM_ID_SOURCE_INVALID = 0\<rparr>"

lemma sample_env_simps [simp]:
  "gst_uri_from_string sample_env u = Some \<lparr>uri_scheme = Some ''http'', uri_path_segments = []\<rparr>"
  "gst_make_playbin sample_env w = (Some 1, GST_STATE_NULL)" "gst_configure_playbin sample_env p b d w = w"
  "gst_bus_add_watch sample_env p w = (1, w)" "g_signal_connect sample_env p n w = (1, w)"
  "gst_element_set_state sample_env p st w = (CHANGE_SUCCESS, st)"
  "gst_current_state sample_env p w = w" "gst_pending_state sample_env p w = GST_STATE_VOID_PENDING"
  "gst_set_uri sample_env p u w = w" "gst_get_uri sample_env p w = Some ''http://a''"
  "gst_clock_get_time sample_env w = 0" "timebase_now sample_env w = 0" "STREAM_ID_SOURCE_INVALID sample_env = 0"
  "gst_query_position sample_env p w = Some 5000000000" "gst_query_duration sample_env p w = Some 60000000000"
  "gst_query_seeking sample_env p w = Some (True, 60000000000)" "gst_send_seek sample_env p t w = (True, w)"
  "list_error_ok sample_env = 0" "air_resolve_redirect sample_env u w = (Some (0, 0, ''http://resolved'', 60), w)"
  by (simp_all add: sample_env_def)

text \<open>After \<open>setup()\<close> and the activation of the player.\<close>
definition sample_streamer :: "gst_state streamer" where
  "sample_streamer =
     (streamer_init sample_env sample_threads GST_STATE_NULL)
       \<lparr>ctl := control_init\<lparr>is_player_activated := True\<rparr>,
        pl := pipeline_data_init\<lparr>pipeline := Some 1, bus_watch := 1, signal_handler_ids := [1]\<rparr>,
        rnfs := \<lparr>calls = [], cookies = pending_cookies_init, rworld = GST_STATE_READY\<rparr>,
        pr := (presentation_init 0)\<lparr>md_update := update_clock_init 0 (throttled_update_init 0)\<rparr>\<rparr>"

lemma sample_setup:
  "streamer_apply sample_env (OpSetup 0 True []) (streamer_init sample_env sample_threads GST_STATE_NULL)
     = Some (sample_streamer\<lparr>ctl := control_init\<rparr>)"
  by (simp add: streamer_setup_def create_playbin_def Let_def streamer_init_def sample_streamer_def
      pipeline_data_init_def set_stream_state_def set_world_def world_def presentation_init_def)

lemma sample_reachable: "reachable (streamer_initial sample_env) (streamer_step sample_env ne) sample_streamer"
proof (rule reach_step [where l = OpActivate])
  show "reachable (streamer_initial sample_env) (streamer_step sample_env ne) (sample_streamer\<lparr>ctl := control_init\<rparr>)"
  proof (rule reach_step [where l = "OpSetup 0 True []"])
    show "reachable (streamer_initial sample_env) (streamer_step sample_env ne)
        (streamer_init sample_env sample_threads GST_STATE_NULL)"
      by (rule reach_init) (auto simp: streamer_initial_def)
    show "streamer_step sample_env ne (streamer_init sample_env sample_threads GST_STATE_NULL)
        (OpSetup 0 True []) (sample_streamer\<lparr>ctl := control_init\<rparr>)"
      by (rule streamer_step.intros)
        (simp_all only: sample_setup, simp add: streamer_init_def pipeline_data_init_def)
  qed
  show "streamer_step sample_env ne (sample_streamer\<lparr>ctl := control_init\<rparr>) OpActivate sample_streamer"
    by (rule streamer_step.intros)
      (simp_all add: audiopath_player_activate_def activate_def control_init_def sample_streamer_def)
qed

lemma sample_ok: "streamer_core (any_order ne) sample_streamer"
  using streamer_machine.reachable_inv [OF sample_reachable, of ne] by (simp add: streamer_ok_def)

lemma sample_streamer_simps [simp]:
  "pipeline (pl sample_streamer) = Some 1" "current_stream (pl sample_streamer) = None"
  "is_player_activated (ctl sample_streamer) = True" "supposed_play_status (ctl sample_streamer) = STOPPED"
  "queue (fifo sample_streamer) = []" "world sample_streamer = GST_STATE_READY" "trace sample_streamer = []"
  by (simp_all add: sample_streamer_def streamer_init_def pipeline_data_init_def control_init_def queue_init_def
      world_def)

abbreviation sample_init :: "gst_state streamer" where
  "sample_init \<equiv> streamer_init sample_env sample_threads GST_STATE_NULL"

lemma sample_initial: "streamer_initial sample_env sample_init"
  by (auto simp: streamer_initial_def)

end
