(* ===== verification/Streamer_Props.thy ===== *)
theory Streamer_Props
  imports Streamer_Safety Streamer_Sample
begin

text \<open>
  Properties of the streamer as a whole: what holds in every reachable state, which calls cannot
  crash, and what the entry points do to the state and tell the outside.  The environment and the
  states in which they are applied are those of theory \<open>Streamer_Sample\<close>.
\<close>

section \<open>Reachable states\<close>

text \<open>C1. In every state the streamer can reach, whatever D-Bus methods are called, GStreamer
  messages, timers and list broker signals arrive, and in any order: the queue is within its bound
  and only its head has left the state \<open>IN_QUEUE\<close>; every item, queued or current, has its selected
  URL and refers, if at all, to a resolver call that was made; every such call is in a consistent
  state; a player that is not stopped is active; a position to seek to is positive and fits 64
  bits; without a pipeline no signal handlers are connected; and no error recovery is left
  unfinished.\<close>
theorem streamer_invariant:
  assumes "reachable (streamer_initial E) (streamer_step E ne) s"
  shows "length (queue (fifo s)) \<le> default_max_number_of_items \<and>
    (\<forall>it \<in> set (tl (queue (fifo s))). item_state it = IN_QUEUE) \<and>
    (\<forall>it \<in> set_option (current_stream (pl s)) \<union> set (queue (fifo s)).
       item_ok it \<and> (ne \<longrightarrow> \<not> item_empty it) \<and> (\<forall>i. resolver it = Some i \<longrightarrow> i < length (calls (rnfs s)))) \<and>
    (\<forall>c \<in> set (calls (rnfs s)). call_ok (rnf c)) \<and>
    (supposed_play_status (ctl s) \<noteq> STOPPED \<longrightarrow> is_player_activated (ctl s)) \<and>
    (\<forall>t. initial_seek_position_ns (ctl s) = Some t \<longrightarrow> 0 < t \<and> t \<le> INT64_MAX) \<and>
    (pipeline (pl s) = None \<longrightarrow> signal_handler_ids (pl s) = []) \<and> \<not> is_failing (fd s)"
  using streamer_machine.reachable_inv [OF assms]
  by (auto simp: streamer_ok_def control_wf_def pipeline_wf_def calls_wf_def rnf_world_ok_def queue_wf_def
      fifo_ok_def item_wf_def list_all_iff)

lemma streamer_invariant_witness:
  "length (queue (fifo sample_streamer)) \<le> default_max_number_of_items \<and> \<not> is_failing (fd sample_streamer)"
  using streamer_invariant [OF sample_reachable [of False]] by blast

section \<open>Crashes\<close>

text \<open>The methods of the D-Bus interfaces.  The URLs of a pushed stream must be usable, at least one
  of them; \<open>Seek\<close> needs a current stream, whose buffering it encourages, and a position whose
  conversion to nanoseconds does not overflow, a percentage of any size included.\<close>
fun safe_method :: "('w, 'z) streamer_env_scheme \<Rightarrow> 'w streamer_op \<Rightarrow> 'w streamer \<Rightarrow> bool" where
  "safe_method E (OpFifoPush smax sid variant key keep md) s =
     (case stream_urls_of_variant E variant (world s) of None \<Rightarrow> False | Some (su, _) \<Rightarrow> urls su \<noteq> [])"
| "safe_method E (OpSeek position units) s =
     (current_stream (pl s) \<noteq> None \<and> seek_position position units 0 \<noteq> None)"
| "safe_method E l s =
     (l \<in> {OpActivate, OpDeactivate, OpStart, OpStop, OpPause, OpFifoNext} \<or>
      (case l of OpFifoClear _ \<Rightarrow> True | OpRemoveRoot _ \<Rightarrow> True | OpInject _ _ \<Rightarrow> True | _ \<Rightarrow> False))"

text \<open>Whether the conversion overflows does not depend on the duration of the stream.\<close>
lemma seek_position_duration: "seek_position position units d = None \<longleftrightarrow> seek_position position units e = None"
  by (simp add: seek_position_def)

lemma seek_defined:
  assumes "has_current s" "pipeline (pl s) \<noteq> None" "seek_position position units 0 \<noteq> None"
  shows "\<exists>b s'. seek E position units s = Some (b, s')"
proof -
  obtain pos where pos: "seek_position position units (query_seek_duration E s) = Some pos"
    using assms(3) seek_position_duration [of position units 0 "query_seek_duration E s"] by auto
  obtain ok s1 where s1: "do_seek E pos s = (ok, s1)" by force
  then have "has_current s1" "pipeline (pl s1) \<noteq> None"
    using assms(1,2) by (auto simp: do_seek_def has_current_def set_world_def split: option.splits prod.splits)
  then obtain s2 where "do_encourage_buffering E s1 = Some s2"
    using encourage_defined by blast
  then show ?thesis using pos s1 by (cases ok) (auto simp: seek_def Let_def)
qed

lemma safe_method_defined:
  assumes ok: "streamer_core (any_order True) s" and p: "pipeline (pl s) \<noteq> None" and l: "safe_method E l s"
  shows "\<exists>s'. streamer_apply E l s = Some s'"
proof (cases l)
  case (OpFifoPush smax sid variant key keep md)
  then obtain su w where "stream_urls_of_variant E variant (world s) = Some (su, w)" "urls su \<noteq> []"
    using l by (auto split: option.splits)
  then show ?thesis
    using fifo_push_defined [OF ok p, of E variant su w smax sid key keep md] OpFifoPush by auto
next
  case OpStart
  then show ?thesis using start_defined [OF ok p, of E] by (auto simp: playback_start_def)
next
  case OpStop
  then show ?thesis using stop_defined [OF ok p, of E] by (auto simp: playback_stop_def)
next
  case OpPause
  then show ?thesis using pause_defined [OF ok p, of E] by (auto simp: playback_pause_def)
next
  case OpDeactivate
  then show ?thesis using deactivate_defined [OF p, of E] by (auto simp: audiopath_player_deactivate_def)
next
  case OpFifoNext
  then show ?thesis using next_stream_defined [OF ok p, of E False] by (auto simp: fifo_next_def)
next
  case (OpRemoveRoot root)
  then show ?thesis using remove_items_defined [OF ok p, of E root] by (auto simp: mounta_device_will_be_removed_def)
next
  case (OpSeek position units)
  then show ?thesis
    using seek_defined [of s position units E] p l by (auto simp: playback_seek_def has_current_def)
qed (use l in auto)

text \<open>As long as there is a pipeline and no stream was ever pushed without a URL, no D-Bus
  method crashes: none dereferences a null pointer or an empty URL vector or fails an assertion, in
  any reachable state, and neither does \<open>Seek\<close>, called while a stream is current and with a position
  that fits 64 bits.\<close>
lemma methods_do_not_crash:
  assumes "reachable (streamer_initial E) (streamer_step E True) s" "pipeline (pl s) \<noteq> None" "safe_method E l s"
  shows "\<exists>s'. streamer_apply E l s = Some s' \<and> streamer_ok True s'"
proof -
  have ok: "streamer_core (any_order True) s"
    using streamer_machine.reachable_inv [OF assms(1)] by (simp add: streamer_ok_def)
  obtain s' where s': "streamer_apply E l s = Some s'"
    using safe_method_defined [OF ok assms(2,3)] by blast
  have "op_allowed E True l s"
    using assms(3) by (cases l) (auto split: option.splits)
  then show ?thesis
    using s' core_apply_any [OF s'] ok unfolding streamer_ok_def by blast
qed

lemma methods_do_not_crash_witness:
  "\<exists>s'. streamer_apply sample_env OpStart sample_streamer = Some s' \<and> streamer_ok True s'"
  by (rule methods_do_not_crash [OF sample_reachable]) simp_all

text \<open>C5. Resolving terminates.  \<open>resolve_selected_url_or_play_uri()\<close> and the callback \<open>notify()\<close> of an
  answer that comes at once call each other, but each round moves an item on to its next URL: with
  as much fuel as there are URLs left in the current item and at the head of the queue there is a
  result, and more fuel never changes it.\<close>
theorem resolver_terminates:
  assumes "streamer_ok True s" "get_item ref s \<noteq> None" "current_stream (pl s) \<noteq> None"
  shows "\<exists>b s'. resolve_selected_url_or_play_uri E changed ref st prefetching s = Some (b, s') \<and>
    (\<forall>n > resolver_rank s. resolve_selected_url n E changed ref st prefetching s = Some (b, s'))"
proof -
  have ok: "streamer_core (any_order True) s" using assms(1) by (simp add: streamer_ok_def)
  obtain b s' where r: "resolve_selected_url_or_play_uri E changed ref st prefetching s = Some (b, s')"
    using resolve_defined [OF ok assms(2), of E changed st prefetching] assms(3) unfolding has_current_def by blast
  have "resolve_selected_url n E changed ref st prefetching s = Some (b, s')" if "resolver_rank s < n" for n
    using resolve_fuel [OF that, of "Suc (resolver_rank s)" E changed ref st prefetching] r
    by (simp add: resolve_selected_url_or_play_uri_def)
  then show ?thesis using r by blast
qed

text \<open>A current item with two links, of which none has been resolved.\<close>
definition link_item :: item where
  "link_item = sample_item\<lparr>resolver := None, item_state := ABOUT_TO_ACTIVATE\<rparr>"

definition sample_linked :: "gst_state streamer" where
  "sample_linked = sample_streamer\<lparr>pl := (pl sample_streamer)\<lparr>current_stream := Some link_item\<rparr>\<rparr>"

lemma sample_linked_ok: "streamer_ok True sample_linked"
  using sample_ok [of True] sample_item_ok
  by (simp add: streamer_ok_def sample_linked_def link_item_def item_wf_def)

lemma resolver_terminates_witness:
  "\<exists>b s'. resolve_selected_url 3 sample_env False CurrentItem GST_STATE_PLAYING False sample_linked = Some (b, s')"
proof -
  have "resolver_rank sample_linked < 3"
    by (simp add: resolver_rank_def sample_linked_def link_item_def urls_left_def peek_eq)
  then show ?thesis
    using resolver_terminates [OF sample_linked_ok, of CurrentItem sample_env False GST_STATE_PLAYING False]
    by (auto simp: sample_linked_def)
qed

section \<open>Messages from pipelines that are gone\<close>

text \<open>C17. A message from a pipeline that has been replaced changes nothing: whatever it is, except for
  tags and the start of a stream, the handler returns with the state as it was.\<close>
theorem stale_messages_ignored:
  assumes "pipeline (pl s) \<noteq> Some p"
    and "\<not> (\<exists>tags. msg = MsgTag tags)" "msg \<noteq> MsgStreamStart"
  shows "bus_message_handler E (SrcPipeline p) msg s = Some s \<and>
    queue_stream_from_url_fifo E p s = Some s"
proof -
  have "\<not> pipeline_is_current (SrcPipeline p) s"
    using assms(1) by (simp add: pipeline_is_current_def)
  then show ?thesis
    using assms(2,3)
    by (cases msg)
      (auto simp: handle_end_of_stream_def handle_stream_state_change_def handle_buffering_def
        handle_stream_duration_async_def handle_error_message_def handle_clock_lost_message_def
        handle_latency_message_def handle_request_state_message_def queue_stream_from_url_fifo_def)
qed

lemma stale_messages_ignored_witness:
  "bus_message_handler sample_env (SrcPipeline 7) MsgEos sample_streamer = Some sample_streamer"
  using stale_messages_ignored [of sample_streamer 7 MsgEos sample_env] by simp

section \<open>Activation\<close>

text \<open>C13. Deactivating the player stops it: the status is \<open>STOPPED\<close>, and the queue is emptied or, where
  the pipeline refuses to stop, marked to be emptied by the error recovery that follows, or
  the pipeline is in an undefined state.  From then on until it is activated again, the player
  refuses to start, stop, pause, seek, skip and to accept streams, and does not change by it.  Other
  methods are not refused: \<open>Clear\<close> works as for an active player (lemma \<open>clear_while_inactive\<close>), and
  \<open>InjectStreamFailure\<close> sends its message.\<close>
theorem deactivated_player_refuses:
  assumes "deactivate E s = Some s'" "is_player_activated (ctl s)"
  shows "supposed_play_status (ctl s') = STOPPED \<and>
    (queue (fifo s') = [] \<or> clear_fifo_on_error (details (fd s')) \<or>
     pipeline_state (gst_pending_state E) s = Some GST_STATE_VOID_PENDING \<and>
     pipeline_state (gst_current_state E) s = Some GST_STATE_VOID_PENDING) \<and>
    start E s' = Some (False, s') \<and> stop E s' = Some (False, s') \<and> pause E s' = Some (False, s') \<and>
    seek E pos units s' = Some (False, s') \<and> next_stream E skip s' = Some (STOPPED, None, s') \<and>
    push_item E sid key su md keep s' = Some (False, None, None, s')"
proof -
  define s1 where "s1 = s\<lparr>ctl := (ctl s)\<lparr>is_player_activated := False\<rparr>\<rparr>"
  obtain pend a b where p: "pipeline_state (gst_pending_state E) s1 = Some pend"
      and d: "do_stop E pend s1 = Some (a, b, s')"
    using assms by (auto simp: deactivate_def bind_eq_Some_conv s1_def Let_def)
  obtain q where q: "pipeline (pl s) = Some q" "pend = gst_pending_state E q (world s)"
    using p by (auto simp: pipeline_state_def s1_def world_def)
  have inactive: "\<not> is_player_activated (ctl s')" and stopped: "supposed_play_status (ctl s') = STOPPED"
    using do_stop_stopped [OF d] by (simp_all add: s1_def)
  obtain ok w where st: "set_stream_state E GST_STATE_READY (s1\<lparr>ctl := (ctl s1)\<lparr>supposed_play_status := STOPPED\<rparr>\<rparr>)
      = (ok, set_world w (s1\<lparr>ctl := (ctl s1)\<lparr>supposed_play_status := STOPPED\<rparr>\<rparr>))"
    using stream_state_frame by (metis surj_pair)
  have "queue (fifo s') = [] \<or> clear_fifo_on_error (details (fd s')) \<or>
      pend = GST_STATE_VOID_PENDING \<and> gst_current_state E q (world s) = GST_STATE_VOID_PENDING"
    using d st q
    by (auto simp: do_stop_def Let_def s1_def world_def clear_eq split: if_splits)
      (cases "gst_current_state E q (rworld (rnfs s))"; cases "gst_pending_state E q (rworld (rnfs s))"; simp)+
  then show ?thesis
    using inactive stopped q
    by (auto simp: pipeline_state_def start_def stop_def pause_def seek_def next_stream_def push_item_def)
qed

lemma deactivated_player_refuses_witness:
  "\<exists>s'. deactivate sample_env sample_streamer = Some s' \<and> start sample_env s' = Some (False, s')"
proof -
  obtain s' where "deactivate sample_env sample_streamer = Some s'"
    using deactivate_defined [of sample_streamer sample_env] by auto
  then show ?thesis
    using deactivated_player_refuses [of sample_env sample_streamer s'] by simp
qed

text \<open>\<open>clear_queue()\<close> does not ask whether the player is activated.\<close>
lemma clear_while_inactive:
  "0 \<le> keep \<Longrightarrow> fifo_clear keep s = (r, s') \<Longrightarrow>
     queue (fifo s') = take (nat keep) (queue (fifo s)) \<and> ctl s' = ctl s"
  by (auto simp: fifo_clear_def clear_queue_def Let_def clear_eq mk_id_array_from_dropped_items_def
      get_removed_def get_dropped_def split: prod.splits)

section \<open>Seeking\<close>

text \<open>C14. A seek never leaves the stream: either it is refused and nothing changes, or the pipeline is
  asked to go to a position between 0 and the duration, and a refusal by the pipeline is reported.
  Positions in units other than the known ones and negative positions are refused.\<close>
theorem seek_stays_in_stream:
  assumes "seek E position units s = Some (ok, s')"
  shows "(\<not> ok \<and> s' = s) \<or>
    (\<exists>t accepted s1. 0 \<le> position \<and> is_player_activated (ctl s) \<and>
       seek_position position units (query_seek_duration E s) = Some t \<and>
       0 \<le> t \<and> t \<le> query_seek_duration E s \<and> do_seek E t s = (accepted, s1) \<and> ok = accepted \<and>
       (if accepted then do_encourage_buffering E s1 = Some s' else s' = s1))"
  using assms
  by (auto simp: seek_def Let_def bind_eq_Some_conv split: if_splits prod.splits)

lemma seek_stays_in_stream_witness:
  "seek sample_env 61 ''s'' sample_streamer = Some (False, sample_streamer)"
proof -
  have s: "seek sample_env 61 ''s'' sample_streamer = Some (False, sample_streamer)"
    by (simp add: seek_def query_seek_duration_def seek_position_def mul_int64_def in_int64_def
        GST_SECOND_def INT64_MAX_def INT64_MIN_def)
  then show ?thesis
    using seek_stays_in_stream [OF s] by blast
qed

text \<open>Percentages: a value within 0 and \<open>GST_FORMAT_PERCENT_MAX\<close> gives a position within the stream,
  without overflow, and monotonically; the maximum gives the end and zero the start, and a greater
  value is refused.\<close>
lemma seek_percentage:
  assumes "0 \<le> pc" "0 < dur"
  shows "(pc \<le> GST_FORMAT_PERCENT_MAX \<longrightarrow>
      (\<exists>t. seek_position pc ''%'' dur = Some t \<and> 0 \<le> t \<and> t \<le> dur \<and>
        (\<forall>pc' t'. pc \<le> pc' \<longrightarrow> pc' \<le> GST_FORMAT_PERCENT_MAX \<longrightarrow>
           seek_position pc' ''%'' dur = Some t' \<longrightarrow> t \<le> t'))) \<and>
    seek_position 0 ''%'' dur = Some 0 \<and> seek_position GST_FORMAT_PERCENT_MAX ''%'' dur = Some dur \<and>
    (GST_FORMAT_PERCENT_MAX < pc \<longrightarrow> seek_position pc ''%'' dur = Some (- 1))"
proof -
  have pos: "0 < GST_FORMAT_PERCENT_MAX" by (simp add: GST_FORMAT_PERCENT_MAX_def)
  have mono: "dur * a div GST_FORMAT_PERCENT_MAX \<le> dur * b div GST_FORMAT_PERCENT_MAX" if "a \<le> b" for a b
    using that assms(2) pos by (intro zdiv_mono1) auto
  have top: "dur * GST_FORMAT_PERCENT_MAX div GST_FORMAT_PERCENT_MAX = dur"
    using pos by simp
  show ?thesis
    using mono [of pc GST_FORMAT_PERCENT_MAX] mono [of 0 pc] mono [of pc] assms pos top
    by (auto simp: seek_position_def compute_position_from_percentage_def)
qed

lemma seek_percentage_witness:
  "seek_position 0 ''%'' 60000000000 = Some 0 \<and> seek_position GST_FORMAT_PERCENT_MAX ''%'' 60000000000 = Some 60000000000"
  using seek_percentage [of 500000 60000000000] by simp

section \<open>Reports about stopping\<close>

lemma throttle_trace: "\<exists>reqs. trace (throttle_threads s) = trace s @ [Schedule reqs]"
  by (cases "throttle (threads s)") (simp add: throttle_threads_def)

lemma enter_stopped_trace: "\<exists>reqs. trace (enter_stopped E s) = trace s @ [Schedule reqs]"
  using throttle_trace [of "s\<lparr>ctl := (ctl s)\<lparr>supposed_play_status := STOPPED\<rparr>,
        pl := (pl s)\<lparr>stream_buffering_data := buffering_reset (stream_buffering_data (pl s))\<rparr>\<rparr>"]
  by (auto simp: enter_stopped_def)

lemma enter_stopped_dropped:
  "mk_id_array_from_dropped_items (enter_stopped E s) = (mk_id_array (removed (fifo s)) (dropped (fifo s)),
     (enter_stopped E s)\<lparr>fifo := (fifo s)\<lparr>removed := [], dropped := {}\<rparr>\<rparr>)"
  by (simp add: mk_id_array_from_dropped_items_def get_removed_def get_dropped_def)

lemma emit_stopped_reports:
  "\<exists>reqs. trace (emit_stopped E s) = trace s @ [Schedule reqs] @
      (case current_stream (pl s) of
         Some it \<Rightarrow> [Stopped (item_id it) (mk_id_array (removed (fifo s)) (dropped (fifo s)))]
       | None \<Rightarrow> if mk_id_array (removed (fifo s)) (dropped (fifo s)) = ([], {}) then []
                 else [Stopped 0 (mk_id_array (removed (fifo s)) (dropped (fifo s)))]) \<and>
    fifo (emit_stopped E s) = (fifo s)\<lparr>removed := [], dropped := {}\<rparr>"
  using enter_stopped_trace [of E s]
  by (cases "current_stream (pl s)") (auto simp: emit_stopped_def enter_stopped_dropped)

text \<open>C12. \<open>emit_stopped()\<close> tells exactly once which streams are gone: the signal carries the current
  stream, the identifiers of all items removed from the queue in their order, and those of dropped
  streams that are not among them; afterwards both records are empty, and nothing is sent again.
  Nothing is sent if there is nothing to tell.\<close>
theorem stop_reports_dropped_once:
  "let s' = emit_stopped E s;
       ids = (map item_id (removed (fifo s)), dropped (fifo s) - set (map item_id (removed (fifo s))))
   in removed (fifo s') = [] \<and> dropped (fifo s') = {} \<and> queue (fifo s') = queue (fifo s) \<and>
      supposed_play_status (ctl s') = STOPPED \<and> current_stream (pl s') = current_stream (pl s) \<and>
      (\<exists>reqs. trace s' = trace s @ [Schedule reqs] @
        (case current_stream (pl s) of
           Some it \<Rightarrow> [Stopped (item_id it) ids]
         | None \<Rightarrow> if removed (fifo s) = [] \<and> dropped (fifo s) = {} then [] else [Stopped 0 ids]))"
  using emit_stopped_reports [of E s]
  by (cases "current_stream (pl s)") (auto simp: Let_def mk_id_array_def split: if_splits)

text \<open>What the failed stream is called in the report.\<close>
definition reported_as :: "item option \<Rightarrow> stream_id \<Rightarrow> string \<Rightarrow> bool" where
  "reported_as it sid url \<longleftrightarrow>
     (case it of None \<Rightarrow> sid = 0 \<and> url = []
      | Some i \<Rightarrow> sid = item_id i \<and> get_url_for_reporting i = Some url)"

lemma stopped_with_error_trace:
  assumes "emit_stopped_with_error E r it s = Some s'"
  shows "\<exists>reqs sid url. trace s' = trace s @ [Schedule reqs, StoppedWithError sid url (queue (fifo s) = [])
      (mk_id_array (removed (fifo s)) (dropped (fifo s))) (as_string r)] \<and> reported_as it sid url \<and>
    removed (fifo s') = [] \<and> dropped (fifo s') = {}"
  using assms enter_stopped_trace [of E s]
  by (cases it) (auto simp: emit_stopped_with_error_def enter_stopped_dropped bind_eq_Some_conv q_size_def reported_as_def)

lemma rebuild_trace: "rebuild_playbin E s = Some (b, s') \<Longrightarrow> \<exists>reqs. trace s' = trace s @ [Schedule reqs]"
  using throttle_trace [of s]
  by (auto simp: rebuild_playbin_def disconnect_playbin_signals_def teardown_playbin_def
      dest!: create_playbin_frame split: option.splits)

lemma recovery_trace:
  assumes "do_error_recovery E r s = Some s'"
  shows "\<exists>reqs reqs' sid url. trace s' = trace s @ [Schedule reqs, Schedule reqs',
      StoppedWithError sid url (queue (fifo s) = []) (mk_id_array (removed (fifo s)) (dropped (fifo s))) (as_string r)] \<and>
    reported_as (current_stream (pl s)) sid url \<and> removed (fifo s') = [] \<and> dropped (fifo s') = {}"
proof -
  define s0 where "s0 = s\<lparr>pl := (pl s)\<lparr>next_stream_request := NOT_REQUESTED\<rparr>, fd := failure_fail r False (fd s)\<rparr>"
  obtain b s1 where s1: "rebuild_playbin E s0 = Some (b, s1)"
    using assms by (auto simp: do_error_recovery_def do_stop_pipeline_and_recover_from_error_def bind_eq_Some_conv s0_def)
  have f1: "fifo s1 = fifo s" "current_stream (pl s1) = current_stream (pl s)"
      "\<not> clear_fifo_on_error (details (fd s1))" "fail_reason (details (fd s1)) = r"
    using rebuild_frame [OF s1] by (simp_all add: s0_def failure_fail_def)
  obtain reqs where t1: "trace s1 = trace s @ [Schedule reqs]"
    using rebuild_trace [OF s1] by (auto simp: s0_def)
  define s3 where "s3 = (invalidate_previous_time s1)\<lparr>pl := (pl s1)\<lparr>current_stream := None\<rparr>\<rparr>"
  obtain s4 where s4: "emit_stopped_with_error E r (current_stream (pl s)) s3 = Some s4"
      "trace s' = trace s4" "fifo s' = fifo s4"
    using assms s1 f1
    by (auto simp: do_error_recovery_def do_stop_pipeline_and_recover_from_error_def s0_def [symmetric]
        bind_eq_Some_conv s3_def Let_def)
  then show ?thesis
    using stopped_with_error_trace [OF s4(1)] by (auto simp: s3_def f1 t1)
qed

text \<open>C6. Error recovery succeeds in every consistent state and leaves the player ready for the next
  start: stopped, with no current stream, no request for a next one, and no trace of the failure,
  while the queue is kept.  The one signal it sends names the failed stream by its identifier and
  original URL, tells whether the queue is empty, lists the identifiers that are gone, and gives
  the reason; they are not reported again.\<close>
theorem error_recovery_spec:
  assumes "streamer_ok True s"
  shows "\<exists>s' reqs reqs' sid url. do_error_recovery E r s = Some s' \<and> streamer_ok True s' \<and>
    supposed_play_status (ctl s') = STOPPED \<and> current_stream (pl s') = None \<and>
    next_stream_request (pl s') = NOT_REQUESTED \<and> details (fd s') = failure_details_init \<and>
    queue (fifo s') = queue (fifo s) \<and> removed (fifo s') = [] \<and> dropped (fifo s') = {} \<and>
    trace s' = trace s @ [Schedule reqs, Schedule reqs', StoppedWithError sid url (queue (fifo s) = [])
      (mk_id_array (removed (fifo s)) (dropped (fifo s))) (as_string r)] \<and>
    reported_as (current_stream (pl s)) sid url"
proof -
  have ok: "streamer_core (any_order True) s" using assms by (simp add: streamer_ok_def)
  obtain s' where s': "do_error_recovery E r s = Some s'"
    using recovery_defined [OF ok] by blast
  then show ?thesis
    using core_recovery [OF s', of "any_order True"] ok recovery_frame [OF s'] recovery_trace [OF s']
    unfolding streamer_ok_def by blast
qed

lemma error_recovery_spec_witness:
  "\<exists>s'. do_error_recovery sample_env NET_IO sample_linked = Some s' \<and> current_stream (pl s') = None"
  using error_recovery_spec [OF sample_linked_ok, of sample_env NET_IO] by blast

section \<open>Pushing\<close>

text \<open>C11. \<open>push_item()\<close> while no gapless stream is waited for: the stream is refused exactly if the
  queue is full and nothing may be dropped, and then the queue stays as it was; otherwise the
  first \<open>keep_items\<close> items stay and the new one comes behind them.  The identifiers that were gone before are
  told apart from those that had to go for the new stream, both are told in order, and none is
  told again.\<close>
theorem push_item_spec:
  assumes "is_player_activated (ctl s)" "next_stream_request (pl s) \<noteq> REQUESTED"
  shows "let q = queue (fifo s); before = mk_id_array (removed (fifo s)) (dropped (fifo s));
      refused = (length q \<le> keep \<and> max_number_of_items (fifo s) \<le> length q)
    in \<exists>it s'. push_item E sid key su md keep s =
        Some (\<not> refused, Some before, if refused then None else Some (map item_id (drop keep q), {}), s') \<and>
      queue (fifo s') = (if refused then q else take keep q @ [it]) \<and>
      item_id it = sid \<and> item_urls it = su \<and> item_state it = IN_QUEUE \<and>
      removed (fifo s') = [] \<and> dropped (fifo s') = {} \<and> pl s' = pl s \<and> ctl s' = ctl s \<and> trace s' = trace s"
proof -
  obtain l cover extra where g: "g_variant_to_tag_list (tags_env E) md = (l, cover, extra)"
    by (metis prod_cases3)
  have "item_id (new_item E sid key su True cover extra l time_point_min time_point_max) = sid"
      "item_urls (new_item E sid key su True cover extra l time_point_min time_point_max) = su"
      "item_state (new_item E sid key su True cover extra l time_point_min time_point_max) = IN_QUEUE"
    by (simp_all add: new_item_def)
  then show ?thesis
    using assms g
    by (auto simp: push_item_def mk_id_array_from_dropped_items_def get_removed_def get_dropped_def push_eq
        mk_id_array_def Let_def)
qed

lemma push_item_spec_witness:
  "\<exists>it s'. push_item sample_env 257 ''k'' \<lparr>urls = [url_direct [] ''http://a''], selected_url = 0\<rparr> [] 5 sample_streamer
      = Some (True, Some ([], {}), Some ([], {}), s') \<and> queue (fifo s') = [it] \<and> item_id it = 257"
proof -
  have "next_stream_request (pl sample_streamer) \<noteq> REQUESTED" "\<not> (max_number_of_items (fifo sample_streamer) \<le> 0)"
      "removed (fifo sample_streamer) = []" "dropped (fifo sample_streamer) = {}"
    by (simp_all add: sample_streamer_def pipeline_data_init_def streamer_init_def queue_init_def
        default_max_number_of_items_def)
  then show ?thesis
    using push_item_spec [of sample_streamer 5 sample_env 257 "''k''" "\<lparr>urls = [url_direct [] ''http://a''], selected_url = 0\<rparr>" "[]"]
    by (auto simp: Let_def mk_id_array_def)
qed

section \<open>Gapless playback\<close>

text \<open>The item can be handed to the pipeline at once.\<close>
definition playable :: "item \<Rightarrow> string \<Rightarrow> bool" where
  "playable it uri \<longleftrightarrow> get_selected_url_state it \<in> {Some KNOWN_DIRECT_URL, Some KNOWN_RESOLVED_URL} \<and>
     get_url_for_playing it = Some uri \<and> \<not> start_required_after_resolve it"

lemma playable_state [simp]: "playable (set_item_state st it) uri = playable it uri"
  by (simp add: playable_def set_item_state_def get_selected_url_state_def get_url_for_playing_def)

lemma resolve_playable:
  assumes "get_item ref s = Some it" "playable it uri"
  shows "resolve_selected_url_or_play_uri E False ref GST_STATE_NULL True s =
    Some (True, put_item ref (it\<lparr>start_required_after_resolve := False\<rparr>)
      ((set_pipeline_uri E uri s)\<lparr>pl := (pl s)\<lparr>next_stream_request := NOT_REQUESTED\<rparr>\<rparr>))"
  using assms
  by (auto simp: resolve_selected_url_or_play_uri_def playable_def on_link_resolved_def Let_def
      is_pipeline_start_required_def)

text \<open>What happens to the next item in the queue when it is asked for and can be played.\<close>
lemma queue_prepares_head:
  assumes "current_stream (pl s) = Some cur" "item_state cur \<in> {ACTIVE_NOW_PLAYING, ABOUT_TO_PHASE_OUT, ABOUT_TO_BE_SKIPPED}"
    "peek (fifo s) = Some nxt" "item_state nxt = IN_QUEUE" "playable nxt uri"
  shows "queue_stream_from_url_fifo_unlocked E False s = Some
    (put_item FifoHead (nxt\<lparr>item_state := ABOUT_TO_ACTIVATE, start_required_after_resolve := False\<rparr>)
      ((set_pipeline_uri E uri s)\<lparr>pl := (pl s)\<lparr>next_stream_request := NOT_REQUESTED\<rparr>\<rparr>))"
proof -
  define s1 where "s1 = update_item FifoHead (set_item_state ABOUT_TO_ACTIVATE) s"
  have pick: "pick_next_item s = (Some FifoHead, True)"
    using assms(1-3) by (auto simp: pick_next_item_def)
  have it1: "get_item FifoHead s1 = Some (set_item_state ABOUT_TO_ACTIVATE nxt)"
    unfolding s1_def by (rule update_item_get) (simp add: assms(3))
  have "playable (set_item_state ABOUT_TO_ACTIVATE nxt) uri" using assms(5) by simp
  note r = resolve_playable [OF it1 this, of E]
  have "put_item FifoHead it ((set_pipeline_uri E uri s1)\<lparr>pl := (pl s1)\<lparr>next_stream_request := NOT_REQUESTED\<rparr>\<rparr>)
      = put_item FifoHead it ((set_pipeline_uri E uri s)\<lparr>pl := (pl s)\<lparr>next_stream_request := NOT_REQUESTED\<rparr>\<rparr>)" for it
    by (cases "queue (fifo s)")
      (auto simp: s1_def put_item_def update_head_eq set_pipeline_uri_def set_world_def world_def split: option.split)
  then show ?thesis
    using assms(1,3,4) pick r
    by (simp add: queue_stream_from_url_fifo_unlocked_def play_next_stream_def s1_def [symmetric] Let_def
        set_item_state_def del: update_item.simps)
qed

text \<open>When the current stream is about to finish and the next one is in the queue with a URL that
  can be played, the pipeline is given exactly this URL, the item waits for its start in the state
  \<open>ABOUT_TO_ACTIVATE\<close>, and the request is settled.  Nothing else changes and nothing is sent.\<close>
lemma gapless_next_is_prepared:
  assumes "pipeline (pl s) = Some p" "current_stream (pl s) = Some cur"
    "item_state cur \<in> {ACTIVE_NOW_PLAYING, ABOUT_TO_PHASE_OUT, ABOUT_TO_BE_SKIPPED}"
    "queue (fifo s) = nxt # rest" "item_state nxt = IN_QUEUE" "playable nxt uri"
  shows "\<exists>s'. queue_stream_from_url_fifo E p s = Some s' \<and> world s' = gst_set_uri E p uri (world s) \<and>
    queue (fifo s') = nxt\<lparr>item_state := ABOUT_TO_ACTIVATE, start_required_after_resolve := False\<rparr> # rest \<and>
    current_stream (pl s') = Some cur \<and> next_stream_request (pl s') = NOT_REQUESTED \<and>
    ctl s' = ctl s \<and> trace s' = trace s \<and> calls (rnfs s') = calls (rnfs s)"
proof -
  define s0 where "s0 = s\<lparr>pl := (pl s)\<lparr>next_stream_request := REQUESTED\<rparr>\<rparr>"
  have "queue_stream_from_url_fifo_unlocked E False s0 = Some
    (put_item FifoHead (nxt\<lparr>item_state := ABOUT_TO_ACTIVATE, start_required_after_resolve := False\<rparr>)
      ((set_pipeline_uri E uri s0)\<lparr>pl := (pl s0)\<lparr>next_stream_request := NOT_REQUESTED\<rparr>\<rparr>))"
    using assms by (intro queue_prepares_head) (auto simp: s0_def peek_eq)
  then show ?thesis
    using assms(1,2,4)
    by (simp add: queue_stream_from_url_fifo_def pipeline_is_current_def s0_def put_item_def update_head_eq
        set_pipeline_uri_def world_def set_world_def)
qed

text \<open>An item with a direct URL, and a streamer that is playing it with another one in its queue.\<close>
definition direct_item :: "stream_id \<Rightarrow> item_state \<Rightarrow> item" where
  "direct_item sid st = sample_item\<lparr>resolver := None, item_state := st, item_id := sid,
     item_urls := \<lparr>urls = [url_direct [] ''http://a''], selected_url = 0\<rparr>\<rparr>"

definition sample_playing :: "gst_state streamer" where
  "sample_playing = sample_streamer
     \<lparr>pl := (pl sample_streamer)\<lparr>current_stream := Some (direct_item 257 ACTIVE_NOW_PLAYING)\<rparr>,
      fifo := (queue_init 5)\<lparr>queue := [direct_item 258 IN_QUEUE]\<rparr>\<rparr>"

lemma direct_item_simps [simp]:
  "item_id (direct_item i st) = i" "item_state (direct_item i st) = st"
  "playable (direct_item i st) ''http://a''" "start_required_after_resolve (direct_item i st) = False"
  "get_url_for_reporting (direct_item i st) = Some ''http://a''" "prefail_reason (direct_item i st) = REASON_UNKNOWN"
  by (simp_all add: direct_item_def sample_item_def playable_def get_selected_url_state_def get_selected_def
      get_stream_uri_def url_direct_def get_url_for_playing_def get_url_for_reporting_def)

lemma sample_playing_simps [simp]:
  "pipeline (pl sample_playing) = Some 1" "current_stream (pl sample_playing) = Some (direct_item 257 ACTIVE_NOW_PLAYING)"
  "queue (fifo sample_playing) = [direct_item 258 IN_QUEUE]" "world sample_playing = GST_STATE_READY"
  "trace sample_playing = []" "is_player_activated (ctl sample_playing) = True"
  "stream_buffering_data (pl sample_playing) = buffering_init"
  by (simp_all add: sample_playing_def sample_streamer_def streamer_init_def world_def pipeline_data_init_def)

lemma gapless_next_is_prepared_witness:
  "\<exists>s'. queue_stream_from_url_fifo sample_env 1 sample_playing = Some s' \<and>
     queue (fifo s') = [direct_item 258 ABOUT_TO_ACTIVATE]"
proof -
  have "direct_item 258 IN_QUEUE\<lparr>item_state := ABOUT_TO_ACTIVATE, start_required_after_resolve := False\<rparr>
      = direct_item 258 ABOUT_TO_ACTIVATE"
    by (simp add: direct_item_def sample_item_def)
  then show ?thesis
    using gapless_next_is_prepared [of sample_playing 1 "direct_item 257 ACTIVE_NOW_PLAYING" "direct_item 258 IN_QUEUE" "[]"
        "''http://a''" sample_env] by auto
qed

lemma announce_trace:
  assumes "current_stream (pl s) = Some it" "get_url_for_reporting it = Some url"
  shows "\<exists>s' pre meta. announce_stream E s = Some s' \<and>
    trace s' = trace s @ pre @ [NowPlaying (item_id it) (stream_key (item_stream_data it)) url (q_full (fifo s))
      (mk_id_array (removed (fifo s)) (dropped (fifo s))) meta] \<and>
    (\<forall>e \<in> set pre. \<exists>key uri. e = AddImageByURI key 140 uri) \<and>
    queue (fifo s') = queue (fifo s) \<and> removed (fifo s') = [] \<and> dropped (fifo s') = {} \<and>
    (\<exists>sd. current_stream (pl s') = Some (it\<lparr>item_stream_data := sd\<rparr>)) \<and>
    next_stream_request (pl s') = next_stream_request (pl s) \<and> ctl s' = ctl s \<and>
    pipeline (pl s') = pipeline (pl s) \<and> world s' = world s \<and>
    max_number_of_items (fifo s') = max_number_of_items (fifo s)"
proof -
  have "get_url_for_reporting (it\<lparr>item_stream_data := sd\<rparr>) = Some url" for sd
    using assms(2) by (simp add: get_url_for_reporting_def)
  then show ?thesis
    using assms
    by (auto simp: announce_stream_def Let_def emit_now_playing_def put_item_def clear_meta_data_def
        mk_id_array_from_dropped_items_def get_removed_def get_dropped_def emit_def invalidate_previous_time_def
        q_full_def q_size_def world_def split: prod.split option.split)
qed

text \<open>The start of the stream that was prepared.\<close>
lemma prepared_starts:
  assumes "current_stream (pl s) = Some cur" "item_state cur \<in> {ACTIVE_NOW_PLAYING, ABOUT_TO_PHASE_OUT}"
    "queue (fifo s) = nxt # rest" "item_state nxt = ABOUT_TO_ACTIVATE" "get_url_for_reporting nxt = Some url"
    "next_stream_request (pl s) \<noteq> REQUEST_DEFERRED"
  shows "\<exists>s' pre meta it. handle_start_of_stream E src s = Some s' \<and> queue (fifo s') = rest \<and>
    current_stream (pl s') = Some it \<and> item_id it = item_id nxt \<and>
    item_state it = (if rest = [] then ABOUT_TO_PHASE_OUT else ACTIVE_NOW_PLAYING) \<and>
    trace s' = trace s @ pre @ [NowPlaying (item_id nxt) (stream_key (item_stream_data nxt)) url
      (length rest \<ge> max_number_of_items (fifo s)) (mk_id_array (removed (fifo s)) (dropped (fifo s))) meta] \<and>
    (\<forall>e \<in> set pre. (\<exists>key uri. e = AddImageByURI key 140 uri) \<or> (\<exists>reqs. e = Schedule reqs)) \<and>
    removed (fifo s') = [] \<and> dropped (fifo s') = {} \<and> ctl s' = ctl s \<and>
    pipeline (pl s') = pipeline (pl s) \<and> world s' = world s \<and>
    next_stream_request (pl s') = next_stream_request (pl s)"
proof -
  define s1 where "s1 = (if \<not> is_buffering (stream_buffering_data (pl s)) \<and> enable_realtime_processing cur
      then boost_threads s else s)"
  define s3 where "s3 = s1\<lparr>fifo := (fifo s)\<lparr>queue := rest\<rparr>, pl := (pl s)\<lparr>current_stream := Some nxt\<rparr>\<rparr>"
  define it4 where "it4 = set_item_state (if rest = [] then ABOUT_TO_PHASE_OUT else ACTIVE_NOW_PLAYING) nxt"
  define s4 where "s4 = s3\<lparr>pl := (pl s)\<lparr>current_stream := Some it4\<rparr>\<rparr>"
  have s1: "fifo s1 = fifo s" "pl s1 = pl s" "ctl s1 = ctl s" "world s1 = world s"
      "\<exists>e. trace s1 = trace s @ e \<and> (\<forall>x \<in> set e. \<exists>reqs. x = Schedule reqs)"
    by (auto simp: s1_def boost_threads_def world_def split: prod.split)
  have a1: "(if is_buffering (stream_buffering_data (pl s)) then Some s
      else do { it \<leftarrow> current_stream (pl s); Some (if enable_realtime_processing it then boost_threads s else s) }) = Some s1"
    using assms(1) by (simp add: s1_def)
  have pick: "pick_next_item s1 = (Some FifoHead, True)"
    using assms(1,2,3) by (auto simp: pick_next_item_def s1 peek_eq)
  have pop: "pop_current s1 = (True, s3)"
    using assms(3) by (simp add: pop_current_def pop_eq s1 s3_def)
  have act: "activate_stream 2 (update_item CurrentItem (set_item_state ACTIVE_HALF_PLAYING) s3) = (ACTIVATED, s4)"
    by (auto simp: activate_stream_def s3_def s4_def it4_def q_empty_def set_item_state_def)
  have cur4: "current_stream (pl s4) = Some it4" "get_url_for_reporting it4 = Some url"
    using assms(5) by (simp_all add: s4_def it4_def set_item_state_def get_url_for_reporting_def)
  obtain s5 pre meta sd where ann: "announce_stream E s4 = Some s5"
      "trace s5 = trace s4 @ pre @ [NowPlaying (item_id it4) (stream_key (item_stream_data it4)) url (q_full (fifo s4))
        (mk_id_array (removed (fifo s4)) (dropped (fifo s4))) meta]"
      "queue (fifo s5) = queue (fifo s4)" "removed (fifo s5) = []" "dropped (fifo s5) = {}"
      "current_stream (pl s5) = Some (it4\<lparr>item_stream_data := sd\<rparr>)" "ctl s5 = ctl s4"
      "\<forall>e \<in> set pre. \<exists>key uri. e = AddImageByURI key 140 uri" "pipeline (pl s5) = pipeline (pl s4)" "world s5 = world s4"
      "next_stream_request (pl s5) = next_stream_request (pl s4)"
    using announce_trace [OF cur4, of E] by blast
  have "handle_start_of_stream E src s = Some s5"
    using pick pop act ann(1) assms(3,4,6)
    by (simp add: handle_start_of_stream_def a1 start_of_stream_decision_def Let_def s1 peek_eq q_empty_def
        s3_def [symmetric] del: update_item.simps)
      (simp add: s3_def)
  moreover obtain e where e: "trace s1 = trace s @ e" "\<forall>x \<in> set e. \<exists>reqs. x = Schedule reqs"
    using s1(5) by blast
  moreover have "trace s5 = trace s @ (e @ pre) @ [NowPlaying (item_id nxt) (stream_key (item_stream_data nxt)) url
      (length rest \<ge> max_number_of_items (fifo s)) (mk_id_array (removed (fifo s)) (dropped (fifo s))) meta]"
    using ann(2) e by (simp add: s4_def s3_def it4_def set_item_state_def q_full_def q_size_def)
  moreover have "world s4 = world s" using s1(4) by (simp add: s4_def s3_def world_def)
  moreover have "\<forall>x \<in> set (e @ pre). (\<exists>key uri. x = AddImageByURI key 140 uri) \<or> (\<exists>reqs. x = Schedule reqs)"
    using e(2) ann(8) by auto
  ultimately show ?thesis
    using ann(3-7,9-) s1(1-3)
    by (intro exI [of _ s5] exI [of _ "e @ pre"] exI [of _ meta] exI [of _ "it4\<lparr>item_stream_data := sd\<rparr>"])
      (simp add: s4_def s3_def it4_def set_item_state_def)
qed

text \<open>C9. The gapless transition: when the pipeline starts with the stream that was prepared at the
  head of the queue, this item leaves the queue and becomes the current one, in the state
  \<open>ACTIVE_NOW_PLAYING\<close>, or \<open>ABOUT_TO_PHASE_OUT\<close> if it was the last.  The last signal sent says that it is
  now playing, with its key and original URL, whether the queue is full, and all identifiers that
  are gone since the last report, which are not reported again.\<close>
theorem gapless_transition:
  assumes "current_stream (pl s) = Some cur" "item_state cur \<in> {ACTIVE_NOW_PLAYING, ABOUT_TO_PHASE_OUT}"
    "queue (fifo s) = nxt # rest" "item_state nxt = ABOUT_TO_ACTIVATE" "get_url_for_reporting nxt = Some url"
    "next_stream_request (pl s) \<noteq> REQUEST_DEFERRED"
  shows "\<exists>s' pre meta it. handle_start_of_stream E src s = Some s' \<and> queue (fifo s') = rest \<and>
    current_stream (pl s') = Some it \<and> item_id it = item_id nxt \<and>
    item_state it = (if rest = [] then ABOUT_TO_PHASE_OUT else ACTIVE_NOW_PLAYING) \<and>
    trace s' = trace s @ pre @ [NowPlaying (item_id nxt) (stream_key (item_stream_data nxt)) url
      (length rest \<ge> max_number_of_items (fifo s)) (mk_id_array (removed (fifo s)) (dropped (fifo s))) meta] \<and>
    removed (fifo s') = [] \<and> dropped (fifo s') = {} \<and> ctl s' = ctl s"
  using prepared_starts [OF assms, of E src] by blast

definition sample_prepared :: "gst_state streamer" where
  "sample_prepared = sample_playing\<lparr>fifo := (queue_init 5)\<lparr>queue := [direct_item 258 ABOUT_TO_ACTIVATE]\<rparr>\<rparr>"

lemma sample_prepared_simps [simp]:
  "current_stream (pl sample_prepared) = Some (direct_item 257 ACTIVE_NOW_PLAYING)" "pipeline (pl sample_prepared) = Some 1"
  "queue (fifo sample_prepared) = [direct_item 258 ABOUT_TO_ACTIVATE]"
  "next_stream_request (pl sample_prepared) = NOT_REQUESTED"
  by (simp_all add: sample_prepared_def sample_playing_def sample_streamer_def pipeline_data_init_def)

lemma gapless_transition_witness:
  "\<exists>s' it. handle_start_of_stream sample_env (SrcPipeline 1) sample_prepared = Some s' \<and>
     current_stream (pl s') = Some it \<and> item_id it = 258 \<and> item_state it = ABOUT_TO_PHASE_OUT"
  using gapless_transition [of sample_prepared "direct_item 257 ACTIVE_NOW_PLAYING" "direct_item 258 ABOUT_TO_ACTIVATE" "[]"
      "''http://a''" sample_env "SrcPipeline 1"]
  by auto


definition sample_last :: "gst_state streamer" where
  "sample_last = sample_streamer
     \<lparr>pl := (pl sample_streamer)\<lparr>current_stream := Some (direct_item 257 ACTIVE_NOW_PLAYING)\<rparr>,
      fifo := queue_init 5\<rparr>"

lemma sample_last_simps [simp]:
  "pipeline (pl sample_last) = Some 1" "current_stream (pl sample_last) = Some (direct_item 257 ACTIVE_NOW_PLAYING)"
  "fifo sample_last = queue_init 5" "is_player_activated (ctl sample_last) = True" "world sample_last = GST_STATE_READY"
  "trace sample_last = []" "stream_buffering_data (pl sample_last) = buffering_init"
  by (simp_all add: sample_last_def sample_streamer_def streamer_init_def world_def pipeline_data_init_def)


section \<open>End of stream\<close>

text \<open>C15. The end of the last stream stops the player: with an empty queue the current item is gone and
  the player says so in one signal, which names the stream and all identifiers that are gone.\<close>
theorem end_of_stream_stops:
  assumes "pipeline_is_current src s" "current_stream (pl s) = Some cur" "queue (fifo s) = []"
  shows "\<exists>s' reqs. handle_end_of_stream E src s = Some s' \<and> current_stream (pl s') = None \<and>
    supposed_play_status (ctl s') = STOPPED \<and>
    trace s' = trace s @ [Schedule reqs, Stopped (item_id cur) (mk_id_array (removed (fifo s)) (dropped (fifo s)))]"
  using assms emit_stopped_reports [of E "snd (set_stream_state E GST_STATE_READY s)"]
  by (auto simp: handle_end_of_stream_def end_of_stream_queue_def peek_eq)

lemma end_of_stream_stops_witness:
  "\<exists>s' reqs. handle_end_of_stream sample_env (SrcPipeline 1) sample_last = Some s' \<and>
     trace s' = [Schedule reqs, Stopped 257 ([], {})]"
  using end_of_stream_stops [of "SrcPipeline 1" sample_last "direct_item 257 ACTIVE_NOW_PLAYING" sample_env]
  by (auto simp: pipeline_is_current_def queue_init_def mk_id_array_def)

text \<open>C16. The end of a stream with another one in the queue: if that can be played, the player is going
  to be started again and does not report that it stopped; if its link is being resolved, nothing
  is reported either and the item is marked so that it starts once the link is known; otherwise the
  player stops and says so.  In each case the item is marked and the current stream is gone.\<close>
theorem end_of_stream_goes_on:
  assumes "pipeline_is_current src s" "current_stream (pl s) = Some cur" "queue (fifo s) = nxt # rest"
    "get_selected_url_state nxt = Some st"
  shows "\<exists>s'. handle_end_of_stream E src s = Some s' \<and> current_stream (pl s') = None \<and>
    queue (fifo s') = nxt\<lparr>start_required_after_resolve := True\<rparr> # rest \<and>
    (st \<in> {KNOWN_DIRECT_URL, KNOWN_RESOLVED_URL} \<longrightarrow> trace s' = trace s @ [IdleRestart] \<and> ctl s' = ctl s) \<and>
    (st = RESOLVING_LINK \<longrightarrow> trace s' = trace s \<and> ctl s' = ctl s) \<and>
    (st \<in> {KNOWN_AIRABLE_LINK, URL_BROKEN} \<longrightarrow> supposed_play_status (ctl s') = STOPPED \<and>
       (\<exists>reqs. trace s' = trace s @ [Schedule reqs, Stopped (item_id cur)
          (mk_id_array (removed (fifo s)) (dropped (fifo s)))]))"
proof -
  define s1 where "s1 = put_item FifoHead (nxt\<lparr>start_required_after_resolve := True\<rparr>)
      (snd (set_stream_state E GST_STATE_READY s))"
  have w: "pipeline_start_required_when_ready nxt = Some (case st of
        KNOWN_DIRECT_URL \<Rightarrow> START_NOW | KNOWN_RESOLVED_URL \<Rightarrow> START_NOW | RESOLVING_LINK \<Rightarrow> WHEN_READY
      | KNOWN_AIRABLE_LINK \<Rightarrow> NOT_REQUIRED | URL_BROKEN \<Rightarrow> NOT_REQUIRED, nxt\<lparr>start_required_after_resolve := True\<rparr>)"
  proof -
    have "get_selected_url_state (nxt\<lparr>start_required_after_resolve := True\<rparr>) = Some st"
      using assms(4) by (auto simp: get_selected_url_state_def)
    then show ?thesis by (simp add: pipeline_start_required_when_ready_def Let_def)
  qed
  have f1: "fifo s1 = (fifo s)\<lparr>queue := nxt\<lparr>start_required_after_resolve := True\<rparr> # rest\<rparr>"
      "current_stream (pl s1) = Some cur" "trace s1 = trace s" "ctl s1 = ctl s"
    using assms(2,3) by (simp_all add: s1_def put_item_def update_head_eq)
  obtain reqs where e: "trace (emit_stopped E s1) = trace s @ [Schedule reqs, Stopped (item_id cur)
      (mk_id_array (removed (fifo s)) (dropped (fifo s)))]"
    using emit_stopped_reports [of E s1] by (auto simp: f1)
  show ?thesis
    using assms(1,3) w f1 e
    by (cases st) (simp_all add: handle_end_of_stream_def end_of_stream_queue_def peek_eq s1_def [symmetric])
qed

lemma end_of_stream_goes_on_witness:
  "\<exists>s'. handle_end_of_stream sample_env (SrcPipeline 1) sample_playing = Some s' \<and> trace s' = [IdleRestart]"
proof -
  have "get_selected_url_state (direct_item 258 IN_QUEUE) = Some KNOWN_DIRECT_URL"
    by (simp add: direct_item_def sample_item_def get_selected_url_state_def get_selected_def url_direct_def get_stream_uri_def)
  then show ?thesis
    using end_of_stream_goes_on [of "SrcPipeline 1" sample_playing "direct_item 257 ACTIVE_NOW_PLAYING"
        "direct_item 258 IN_QUEUE" "[]" KNOWN_DIRECT_URL sample_env]
    by (auto simp: pipeline_is_current_def)
qed

end
