(* ===== verification/Streamer_Order.thy ===== *)
theory Streamer_Order
  imports Streamer_Sample
begin

text \<open>
  The streamer as a player of a list of streams.  The abstract machine knows the stream that is
  playing and those that come next; it keeps the current stream, drops it, or goes on to a later
  one, it may lose streams, but it never changes their order.  Every step of the streamer is a
  step of it (the locale \<open>refinement\<close>), and so the streams are played in the order in which they
  were pushed.
\<close>

section \<open>The abstract player\<close>

record player =
  playing :: "stream_id option"
  upcoming :: "stream_id list"

definition shown :: "player \<Rightarrow> stream_id list" where
  "shown p = (case playing p of None \<Rightarrow> [] | Some i \<Rightarrow> [i])"

definition player_initial :: "player \<Rightarrow> bool" where
  "player_initial p \<longleftrightarrow> p = \<lparr>playing = None, upcoming = []\<rparr>"

inductive player_step :: "player \<Rightarrow> stream_id list \<Rightarrow> player \<Rightarrow> bool" where
  player_keep: "subseq q' (upcoming p @ new) \<Longrightarrow> player_step p new \<lparr>playing = playing p, upcoming = q'\<rparr>"
| player_idle: "subseq q' (upcoming p @ new) \<Longrightarrow> player_step p new \<lparr>playing = None, upcoming = q'\<rparr>"
| player_next: "subseq (i # q') (upcoming p @ new) \<Longrightarrow> player_step p new \<lparr>playing = Some i, upcoming = q'\<rparr>"

text \<open>What has been played so far, one stream after the other, and what is left.\<close>
definition played :: "player list \<Rightarrow> stream_id list" where
  "played ps = remdups_adj (concat (map shown ps))"

lemma shown_simps [simp]:
  "shown \<lparr>playing = None, upcoming = q\<rparr> = []" "shown \<lparr>playing = Some i, upcoming = q\<rparr> = [i]"
  by (simp_all add: shown_def)

lemma remdups_adj_Cons_cases: "remdups_adj (x # xs) = remdups_adj xs \<or> remdups_adj (x # xs) = x # remdups_adj xs"
  by (cases xs) auto

lemma subseq_append_right: "subseq xs ys \<Longrightarrow> subseq (xs @ zs) (ys @ zs)"
  by simp

text \<open>One step more at the front of a run.\<close>
lemma played_Cons:
  assumes "subseq (played ps @ up) ys"
  shows "subseq (played (p # ps) @ up) (shown p @ ys)"
proof (cases "playing p")
  case None
  then show ?thesis using assms by (simp add: played_def shown_def)
next
  case (Some i)
  then show ?thesis
    using assms remdups_adj_Cons_cases [of i "concat (map shown ps)"]
    by (auto simp: played_def shown_def)
qed

lemma played_in_order:
  "run_of player_step p news ps \<Longrightarrow>
     subseq (played (p # ps) @ upcoming (last (p # ps))) (shown p @ upcoming p @ concat news)"
proof (induction rule: run_of.induct)
  case (run_Nil p)
  then show ?case by (simp add: played_def shown_def split: option.split)
next
  case (run_Cons p new p' news ps)
  let ?up = "upcoming (last (p' # ps))"
  have last: "upcoming (last (p # p' # ps)) = ?up" by simp
  from run_Cons.hyps(1) show ?case
  proof cases
    case (player_keep q')
    have "subseq (played (p # ps) @ ?up) (shown p @ q' @ concat news)"
      using run_Cons.IH player_keep(1) by (simp add: played_def shown_def)
    moreover have "played (p # p' # ps) = played (p # ps)"
      using player_keep(1) by (simp add: played_def shown_def split: option.split)
    moreover have "subseq (shown p @ q' @ concat news) (shown p @ (upcoming p @ new) @ concat news)"
      unfolding subseq_append' by (rule subseq_append_right [OF player_keep(2)])
    ultimately show ?thesis
      unfolding last by (auto intro: subseq_order.order_trans)
  next
    case (player_idle q')
    have "subseq (played (p' # ps) @ ?up) ((upcoming p @ new) @ concat news)"
      using run_Cons.IH player_idle(1) subseq_append_right [OF player_idle(2), of "concat news"]
      by (auto intro: subseq_order.order_trans)
    then show ?thesis using played_Cons unfolding last by fastforce
  next
    case (player_next i q')
    have "subseq (played (p' # ps) @ ?up) ((upcoming p @ new) @ concat news)"
      using run_Cons.IH player_next(1) subseq_append_right [OF player_next(2), of "concat news"]
      by (auto intro: subseq_order.order_trans)
    then show ?thesis using played_Cons unfolding last by fastforce
  qed
qed

section \<open>The streamer implements it\<close>

definition player_of :: "'w streamer \<Rightarrow> player" where
  "player_of s = \<lparr>playing = map_option item_id (current_stream (pl s)), upcoming = map item_id (queue (fifo s))\<rparr>"

lemma playlist_player: "playlist s = shown (player_of s) @ upcoming (player_of s)"
  by (simp add: playlist_def shown_def player_of_def split: option.split)

lemma streamer_player_step:
  assumes "streamer_ok ne s" "streamer_step E ne s l s'"
  shows "player_step (player_of s) (pushed l) (player_of s')"
proof -
  have a: "streamer_apply E l s = Some s'" and l: "op_allowed E False l s"
    using assms(2) unfolding streamer_step_iff by (cases l; auto)+
  have "streamer_core (any_order False) s"
    using assms(1) by (auto simp: streamer_ok_def item_wf_def queue_wf_def elim!: option.pred_mono_strong list.pred_mono_strong)
  then have sub: "subseq (playlist s') (playlist s @ pushed l)"
      "subseq (upcoming (player_of s')) (upcoming (player_of s) @ pushed l)"
    using playlist_step [OF a _ l] by (simp_all add: player_of_def)
  have eq: "player_of s' = \<lparr>playing = playing (player_of s'), upcoming = upcoming (player_of s')\<rparr>"
    by simp
  show ?thesis
  proof (cases "playing (player_of s') = playing (player_of s) \<or> playing (player_of s') = None")
    case True
    then show ?thesis using sub(2) player_keep player_idle eq by metis
  next
    case False
    then obtain i where i: "playing (player_of s') = Some i" "shown (player_of s') = [i]"
      by (auto simp: shown_def)
    have "subseq (i # upcoming (player_of s')) (upcoming (player_of s) @ pushed l)"
      using sub(1) False i unfolding playlist_player
      by (cases "playing (player_of s)") (auto simp: shown_def split: if_splits)
    then show ?thesis using player_next eq i(1) by metis
  qed
qed

interpretation streamer_player: refinement "streamer_initial E" "streamer_step E ne" "streamer_ok ne"
  player_initial player_step player_of pushed
proof
  show "player_initial (player_of s)" if "streamer_initial E s" for s :: "'a streamer"
    using that
    by (auto simp: streamer_initial_def player_initial_def player_of_def streamer_init_def
        pipeline_data_init_def queue_init_def)
qed (rule streamer_player_step)

text \<open>C3. The streamer implements the abstract player.  Whatever D-Bus method is called and
  whatever message, timer, or list broker signal arrives in a reachable state: the current stream
  stays, or it is gone, or it is replaced by a later one that was in the queue (or is just being
  pushed); the queue keeps its order, and only \<open>push\<close> may add one stream, at its end.\<close>
theorem streamer_refines_player:
  assumes "reachable (streamer_initial E) (streamer_step E ne) s" "streamer_step E ne s l s'"
  shows "player_step (player_of s) (pushed l) (player_of s') \<and>
    reachable player_initial player_step (player_of s')"
  using streamer_player.abs_step [OF streamer_machine.reachable_inv [OF assms(1)] assms(2)]
    streamer_player.reachable_abs [OF reach_step [of _ "streamer_step E ne", OF assms]] by blast

text \<open>The player is set up and activated, gets two streams, plays the first, and goes on to the second
  without a gap.\<close>
definition sample_ops :: "gst_state streamer_op list" where
  "sample_ops =
     [OpSetup 0 True [], OpActivate, OpFifoPush 99 257 [(''http://a'', False)] ''k'' (- 1) [],
      OpFifoPush 99 258 [(''http://b'', False)] ''k'' (- 1) [], OpStart,
      OpBus (SrcPipeline 1) MsgStreamStart, OpAboutToFinish 1, OpBus (SrcPipeline 1) MsgStreamStart]"

lemma sample_run:
  "map_option (\<lambda>ss. map player_of ss) (streamer_run sample_env True sample_ops sample_init) =
     Some [\<lparr>playing = None, upcoming = []\<rparr>, \<lparr>playing = None, upcoming = []\<rparr>,
           \<lparr>playing = None, upcoming = [257]\<rparr>, \<lparr>playing = None, upcoming = [257, 258]\<rparr>,
           \<lparr>playing = Some 257, upcoming = [258]\<rparr>, \<lparr>playing = Some 257, upcoming = [258]\<rparr>,
           \<lparr>playing = Some 257, upcoming = [258]\<rparr>, \<lparr>playing = Some 258, upcoming = []\<rparr>]"
  by code_simp

lemma streamer_refines_player_witness:
  "\<exists>s'. streamer_apply sample_env (OpFifoPush 99 257 [(''http://a'', False)] ''k'' (- 1) []) sample_streamer = Some s' \<and>
     player_of s' = \<lparr>playing = None, upcoming = [257]\<rparr> \<and> player_step (player_of sample_streamer) [257] (player_of s')"
proof -
  let ?l = "OpFifoPush 99 257 [(''http://a'', False)] ''k'' (- 1) []"
  have "map_option player_of (streamer_apply sample_env ?l sample_streamer) = Some \<lparr>playing = None, upcoming = [257]\<rparr>"
    by code_simp
  then obtain s' where s': "streamer_apply sample_env ?l sample_streamer = Some s'"
      "player_of s' = \<lparr>playing = None, upcoming = [257]\<rparr>"
    by (auto simp: map_option_eq_Some)
  then have "streamer_step sample_env False sample_streamer ?l s'"
    by (intro streamer_step.intros) simp_all
  then show ?thesis
    using streamer_refines_player [OF sample_reachable] s' by fastforce
qed

text \<open>Streams are played in the order in which they were pushed: in every run from the start,
  the streams that were current, one after the other, followed by those that are queued at the
  end, are among the streams pushed, in the same order; none of them is played twice unless it was
  pushed twice.\<close>
lemma streams_play_in_order:
  assumes "streamer_initial E s" "run_of (streamer_step E ne) s ls ss"
  shows "subseq (played (map player_of (s # ss)) @ map item_id (queue (fifo (last (s # ss)))))
    (concat (map pushed ls))"
proof -
  have "run_of player_step (player_of s) (map pushed ls) (map player_of ss)"
    by (rule streamer_player.run_abs [OF assms(2) streamer_machine.inv_init [OF assms(1)]])
  moreover have "shown (player_of s) = []" "upcoming (player_of s) = []"
    using streamer_player.abs_init [OF assms(1)] by (simp_all add: player_initial_def)
  moreover have "upcoming (last (map player_of (s # ss))) = map item_id (queue (fifo (last (s # ss))))"
    by (subst last_map) (simp_all add: player_of_def)
  ultimately show ?thesis
    using played_in_order [of "player_of s" "map pushed ls" "map player_of ss"] by simp
qed

lemma streams_play_in_order_witness:
  "\<exists>ss. run_of (streamer_step sample_env True) sample_init sample_ops ss \<and>
     played (map player_of (sample_init # ss)) = [257, 258] \<and> subseq [257, 258] (concat (map pushed sample_ops))"
proof -
  obtain ss where ss: "streamer_run sample_env True sample_ops sample_init = Some ss"
      "map player_of ss = [\<lparr>playing = None, upcoming = []\<rparr>, \<lparr>playing = None, upcoming = []\<rparr>,
           \<lparr>playing = None, upcoming = [257]\<rparr>, \<lparr>playing = None, upcoming = [257, 258]\<rparr>,
           \<lparr>playing = Some 257, upcoming = [258]\<rparr>, \<lparr>playing = Some 257, upcoming = [258]\<rparr>,
           \<lparr>playing = Some 257, upcoming = [258]\<rparr>, \<lparr>playing = Some 258, upcoming = []\<rparr>]"
    using sample_run by (auto simp: map_option_eq_Some)
  have run: "run_of (streamer_step sample_env True) sample_init sample_ops ss"
    by (rule run_of_streamer_run [OF ss(1)])
  have "shown (player_of sample_init) = []"
    using streamer_player.abs_init [OF sample_initial] by (simp add: player_initial_def)
  then have played: "played (map player_of (sample_init # ss)) = [257, 258]"
    using ss(2) by (simp add: played_def)
  have "ss \<noteq> []" using ss(2) by auto
  then have "map item_id (queue (fifo (last (sample_init # ss)))) = []"
    using ss(2) last_map [of ss player_of] by (simp add: player_of_def)
  then have "subseq [257, 258] (concat (map pushed sample_ops))"
    using streams_play_in_order [OF sample_initial run] unfolding played by simp
  then show ?thesis using run played by blast
qed

end
