(* ===== verification/Streamer_Links.thy ===== *)
theory Streamer_Links
  imports Streamer_Props
begin

text \<open>
  The way of a link through the components: the item's resolver, the call, its cookie, the list
  broker's signal, and back into the item and the pipeline.
\<close>

section \<open>Items that wait for the list broker\<close>

text \<open>The item \<open>ref\<close> waits for the answer to call \<open>i\<close>, which the list broker knows as \<open>ck\<close>.\<close>
definition awaits_answer :: "item_ref \<Rightarrow> call_ref \<Rightarrow> cookie \<Rightarrow> 'w streamer \<Rightarrow> bool" where
  "awaits_answer ref i ck s \<longleftrightarrow>
     notification_functions (cookies (rnfs s)) ck = Some i \<and> fetch_functions (cookies (rnfs s)) ck = Some i \<and>
     (case get_call i (rnfs s) of
        None \<Rightarrow> False
      | Some c \<Rightarrow> cstate (rnf c) = WAIT_FOR_NOTIFICATION \<and> ccookie (rnf c) = ck \<and> ck \<noteq> 0 \<and>
          promise (rnf c) = Unsatisfied \<and> \<not> was_aborted_after_done (rnf c) \<and>
          find_resolved_item (rctx_stream_id (context_data c)) s = Some ref) \<and>
     (case get_item ref s of
        None \<Rightarrow> False
      | Some it \<Rightarrow> item_ok it \<and> resolver it = Some i \<and>
          (case get_selected (item_urls it) of None \<Rightarrow> False | Some u \<Rightarrow> is_airable_link u))"

text \<open>The signal takes the cookie out of the store and the result into the call.\<close>
lemma signal_fetches:
  assumes "notification_functions (cookies r) ck = Some i" "fetch_functions (cookies r) ck = Some i"
    "i < length (calls r)" "cstate (rnf (calls r ! i)) = WAIT_FOR_NOTIFICATION" "ccookie (rnf (calls r ! i)) = ck" "ck \<noteq> 0"
    "promise (rnf (calls r ! i)) = Unsatisfied"
    "\<not> list_error_failed E e" "air_resolve_redirect_by_cookie E ck (rworld r) = (Some (err, uri, valid), w1)"
  shows "\<exists>r'. cookie_signal E ck e r = Some (Some (i, RESULT_FETCHED), r') \<and> rworld r' = w1 \<and>
    notification_functions (cookies r') = erase ck (notification_functions (cookies r)) \<and>
    fetch_functions (cookies r') = erase ck (fetch_functions (cookies r)) \<and>
    i < length (calls r') \<and> context_data (calls r' ! i) = context_data (calls r ! i) \<and>
    cstate (rnf (calls r' ! i)) = RESULT_FETCHED \<and> ccookie (rnf (calls r' ! i)) = 0 \<and>
    was_aborted_after_done (rnf (calls r' ! i)) = was_aborted_after_done (rnf (calls r ! i)) \<and>
    promise (rnf (calls r' ! i)) = Value \<lparr>rr_error = err, rr_url = uri, rr_expected_valid = valid\<rparr>"
  using assms
  by (simp add: cookie_signal_def available_def finish_def notify_by_cookie_def Let_def fetch_and_notify_def
      calls_update_rnf calls_set_error result_available_notification_def notification_def set_cstate_def
      do_fetch_def fetch_unlocked_def clear_cookie_def get_call_def)


lemma find_resolved_item_rnfs [simp]: "find_resolved_item sid (s\<lparr>rnfs := r\<rparr>) = find_resolved_item sid s"
  by (simp add: find_resolved_item_def)

text \<open>The result gets from the call into the item.\<close>
lemma finish_takes_result:
  assumes "get_item ref s = Some it" "i < length (calls (rnfs s))" "cstate (rnf (calls (rnfs s) ! i)) = RESULT_FETCHED"
    "\<not> was_aborted_after_done (rnf (calls (rnfs s) ! i))" "promise (rnf (calls (rnfs s) ! i)) = Value r" "rr_url r \<noteq> []"
    "item_ok it" "get_selected (item_urls it) = Some u" "is_airable_link u"
  shows "\<exists>it1 c1. finish_resolver E i RESULT_FETCHED ref s = Some (RESOLVED,
      put_item ref it1 (s\<lparr>rnfs := update_rnf i (\<lambda>_. c1) (rnfs s)\<rparr>)) \<and>
    get_url_for_playing it1 = Some (rr_url r) \<and> get_url_for_reporting it1 = get_url_for_reporting it \<and>
    resolver it1 = None \<and> item_id it1 = item_id it \<and> item_state it1 = item_state it \<and>
    start_required_after_resolve it1 = start_required_after_resolve it \<and>
    get_selected_url_state it1 = Some KNOWN_RESOLVED_URL"
proof -
  let ?now = "timebase_now E (world s)"
  have "urls (item_urls it) \<noteq> []"
    using assms(8) by (auto simp: get_selected_def)
  then obtain it1 where it1: "resolver_finish_uri ?now (rr_url r) (rr_expected_valid r) it = Some (RESOLVED, it1)"
      "get_url_for_playing it1 = Some (rr_url r)" "get_url_for_reporting it1 = get_url_for_reporting it"
      "resolver it1 = None" "item_id it1 = item_id it" "item_state it1 = item_state it"
      "start_required_after_resolve it1 = start_required_after_resolve it"
      "get_selected_url_state it1 = Some KNOWN_RESOLVED_URL"
    using assms(6,8,9)
    by (simp add: resolver_finish_uri_def get_url_for_playing_def get_url_for_reporting_def
        get_selected_url_state_def get_selected_update set_resolved_uri_def get_stream_uri_def)
  have "finish_resolver E i RESULT_FETCHED ref s = Some (RESOLVED, put_item ref it1
      (s\<lparr>rnfs := update_rnf i (\<lambda>_. (rnf (calls (rnfs s) ! i))\<lparr>promise := Taken\<rparr>) (rnfs s)\<rparr>))"
    using assms(1-5) it1(1) by (simp add: finish_resolver_def Let_def get_call_def get_result_unlocked_def)
  then show ?thesis using it1(2-) by blast
qed

text \<open>C8. The answer of the list broker gets where it belongs.  If an item waits for the answer to its call,
  the signal that the cookie's data are available fetches the URI, takes the cookie out of the
  store, puts the URI into that item, which still reports its link, and hands it to the pipeline;
  then the pipeline is started, unless the item is only to follow without a gap.  The same signal
  once more does nothing.\<close>
theorem answer_reaches_pipeline:
  assumes "awaits_answer ref i ck s" "get_item ref s = Some it" "get_call i (rnfs s) = Some c"
    and "pipeline (pl s) = Some p" "\<not> list_error_failed E (list_error_ok E)"
    and "air_resolve_redirect_by_cookie E ck (world s) = (Some (err, uri, valid), w1)" "uri \<noteq> []"
  shows "\<exists>s1 it1. get_item ref s1 = Some it1 \<and> get_url_for_playing it1 = Some uri \<and>
    get_url_for_reporting it1 = get_url_for_reporting it \<and> resolver it1 = None \<and>
    item_id it1 = item_id it \<and> item_state it1 = item_state it \<and>
    world s1 = gst_set_uri E p uri w1 \<and> trace s1 = trace s \<and> next_stream_request (pl s1) = NOT_REQUESTED \<and>
    airable_data_available E [ck] s =
      (if rctx_prefetching (context_data c) \<and> \<not> start_required_after_resolve it then Some s1
       else map_option snd (start_resolved E
         (if rctx_prefetching (context_data c) \<and> rctx_next_state (context_data c) \<notin> {GST_STATE_PLAYING, GST_STATE_PAUSED}
          then GST_STATE_PLAYING else rctx_next_state (context_data c)) s1)) \<and>
    airable_data_available E [ck] s1 = Some s1"
proof -
  let ?c = "calls (rnfs s) ! i"
  have c: "i < length (calls (rnfs s))" "c = ?c" using assms(3) by simp_all
  have wait: "notification_functions (cookies (rnfs s)) ck = Some i" "fetch_functions (cookies (rnfs s)) ck = Some i"
      "cstate (rnf ?c) = WAIT_FOR_NOTIFICATION" "ccookie (rnf ?c) = ck" "ck \<noteq> 0" "promise (rnf ?c) = Unsatisfied"
      "\<not> was_aborted_after_done (rnf ?c)" "find_resolved_item (rctx_stream_id (context_data ?c)) s = Some ref"
    and item: "item_ok it"
    using assms(1,2) c by (simp_all add: awaits_answer_def get_call_def)
  obtain u where u: "get_selected (item_urls it) = Some u" "is_airable_link u"
    using assms(1,2) by (auto simp: awaits_answer_def split: option.splits)
  obtain r' where r': "cookie_signal E ck (list_error_ok E) (rnfs s) = Some (Some (i, RESULT_FETCHED), r')"
      "rworld r' = w1" "notification_functions (cookies r') ck = None" "fetch_functions (cookies r') ck = None"
      "i < length (calls r')" "context_data (calls r' ! i) = context_data ?c"
      "cstate (rnf (calls r' ! i)) = RESULT_FETCHED" "\<not> was_aborted_after_done (rnf (calls r' ! i))"
      "promise (rnf (calls r' ! i)) = Value \<lparr>rr_error = err, rr_url = uri, rr_expected_valid = valid\<rparr>"
    using signal_fetches [OF wait(1,2) c(1) wait(3-6) assms(5), of err uri valid w1] assms(6) wait(7)
    by (auto simp: world_def erase_def)
  let ?s' = "s\<lparr>rnfs := r'\<rparr>"
  obtain it1 c1 where f: "finish_resolver E i RESULT_FETCHED ref ?s' = Some (RESOLVED,
        put_item ref it1 (?s'\<lparr>rnfs := update_rnf i (\<lambda>_. c1) r'\<rparr>))"
      "get_url_for_playing it1 = Some uri" "get_url_for_reporting it1 = get_url_for_reporting it" "resolver it1 = None"
      "item_id it1 = item_id it" "item_state it1 = item_state it"
      "start_required_after_resolve it1 = start_required_after_resolve it"
    using finish_takes_result [of ref ?s' it i "\<lparr>rr_error = err, rr_url = uri, rr_expected_valid = valid\<rparr>" u E]
      assms(2,7) r'(5-) item u by auto
  define s0 where "s0 = put_item ref it1 (?s'\<lparr>rnfs := update_rnf i (\<lambda>_. c1) r'\<rparr>)"
  define s2 where "s2 = (let s' = set_pipeline_uri E uri s0 in s'\<lparr>pl := (pl s')\<lparr>next_stream_request := NOT_REQUESTED\<rparr>\<rparr>)"
  define it2 where "it2 = (if rctx_prefetching (context_data ?c) then snd (is_pipeline_start_required it1) else it1)"
  define s1 where "s1 = (if rctx_prefetching (context_data ?c) then put_item ref it2 s2 else s2)"
  have s0: "get_item ref s0 = Some it1" "world s0 = w1" "trace s0 = trace s" "pipeline (pl s0) = Some p"
      "cookies (rnfs s0) = cookies r'"
    using assms(2,4) r'(2) by (simp_all add: s0_def world_def)
  have s2: "get_item ref s2 = Some it1" "world s2 = gst_set_uri E p uri w1" "trace s2 = trace s"
      "cookies (rnfs s2) = cookies r'" "next_stream_request (pl s2) = NOT_REQUESTED"
    using s0 by (cases ref; simp add: s2_def set_pipeline_uri_def set_world_def world_def Let_def)+
  have s1: "get_item ref s1 = Some it2" "world s1 = gst_set_uri E p uri w1" "trace s1 = trace s"
      "cookies (rnfs s1) = cookies r'" "next_stream_request (pl s1) = NOT_REQUESTED"
    using s2 by (auto simp: s1_def it2_def)
  have it2: "get_url_for_playing it2 = Some uri" "get_url_for_reporting it2 = get_url_for_reporting it"
      "resolver it2 = None" "item_id it2 = item_id it" "item_state it2 = item_state it"
    using f(2-6) by (simp_all add: it2_def is_pipeline_start_required_def get_url_for_playing_def get_url_for_reporting_def)
  let ?st = "if rctx_prefetching (context_data ?c) \<and> rctx_next_state (context_data ?c) \<notin> {GST_STATE_PLAYING, GST_STATE_PAUSED}
    then GST_STATE_PLAYING else rctx_next_state (context_data ?c)"
  have played: "on_link_resolved E False ref (rctx_next_state (context_data ?c)) (rctx_prefetching (context_data ?c)) s0 =
      (if rctx_prefetching (context_data ?c) \<and> \<not> start_required_after_resolve it then Some (True, s1)
       else start_resolved E ?st s1)"
    using s0(1) f(2,7)
    by (auto simp: on_link_resolved_def s1_def s2_def it2_def Let_def is_pipeline_start_required_def)
  have "notify_resolved E i RESULT_FETCHED ?s' = do {
      (b, s') \<leftarrow> (if rctx_prefetching (context_data ?c) \<and> \<not> start_required_after_resolve it then Some (True, s1)
       else start_resolved E ?st s1); Some (None, s') }"
    using r'(5,6) wait(8) f(1) played by (simp add: notify_resolved_def get_call_def Let_def s0_def)
  then have signal: "airable_data_available E [ck] s =
      (if rctx_prefetching (context_data ?c) \<and> \<not> start_required_after_resolve it then Some s1
       else map_option snd (start_resolved E ?st s1))"
    using r'(1)
    by (cases "start_resolved E ?st s1") (auto simp: airable_data_available_def context_notify_def split: prod.splits)
  have again: "airable_data_available E [ck] s1 = Some s1"
    using s1(4) r'(3,4)
    by (simp add: airable_data_available_def cookie_signal_def available_def finish_def Let_def)
  show ?thesis
    using s1 it2 again signal unfolding c(2) by blast
qed

text \<open>A list broker that answers later, and a link at the head of the queue.\<close>
definition cookie_env :: "gst_state streamer_env" where
  "cookie_env = sample_env\<lparr>air_resolve_redirect := (\<lambda>u w. (Some (5, 0, [], 0), w)),
     air_resolve_redirect_by_cookie := (\<lambda>c w. (Some (0, ''http://resolved'', 60), w))\<rparr>"

definition link_queued :: "gst_state streamer" where
  "link_queued = sample_playing\<lparr>fifo := (queue_init 5)\<lparr>queue := [direct_item 258 IN_QUEUE
     \<lparr>item_urls := \<lparr>urls = [url_link ''airable://a''], selected_url = 0\<rparr>\<rparr>]\<rparr>\<rparr>"

definition link_pending :: "gst_state streamer" where
  "link_pending = (case streamer_apply cookie_env (OpAboutToFinish 1) link_queued of Some s \<Rightarrow> s | None \<Rightarrow> link_queued)"

lemma link_pending_facts:
  "awaits_answer FifoHead 0 5 link_pending"
  "map_option (\<lambda>it. (item_id it, get_url_for_reporting it)) (get_item FifoHead link_pending) = Some (258, Some ''airable://a'')"
  "map_option context_data (get_call 0 (rnfs link_pending))
     = Some \<lparr>rctx_stream_id = 258, rctx_next_state = GST_STATE_NULL, rctx_prefetching = True\<rparr>"
  "pipeline (pl link_pending) = Some 1" "\<not> list_error_failed cookie_env (list_error_ok cookie_env)"
  by code_simp+

lemma answer_reaches_pipeline_witness:
  "\<exists>s1 it1. get_item FifoHead s1 = Some it1 \<and> get_url_for_playing it1 = Some ''http://resolved'' \<and>
     get_url_for_reporting it1 = Some ''airable://a'' \<and> item_id it1 = 258 \<and>
     airable_data_available cookie_env [5] s1 = Some s1"
proof -
  obtain it where it: "get_item FifoHead link_pending = Some it" "item_id it = 258"
      "get_url_for_reporting it = Some ''airable://a''"
    using link_pending_facts(2) by (auto simp: map_option_eq_Some)
  obtain c where c: "get_call 0 (rnfs link_pending) = Some c"
    using link_pending_facts(3) by (auto simp only: map_option_eq_Some)
  have "air_resolve_redirect_by_cookie cookie_env 5 (world link_pending) = (Some (0, ''http://resolved'', 60), world link_pending)"
    by (simp add: cookie_env_def)
  from answer_reaches_pipeline [OF link_pending_facts(1) it(1) c link_pending_facts(4,5) this]
  show ?thesis using it by auto
qed

end
