(* ===== verification/Streamer_Gapless.thy ===== *)
theory Streamer_Gapless
  imports Streamer_Props
begin

text \<open>
  Gapless playback as a whole: from the request of the pipeline for the next stream, over the start
  of that stream, to the next request, until the queue is empty.
\<close>

section \<open>One stream after the other\<close>

text \<open>The streams announced as playing, in order.\<close>
definition announced :: "emission list \<Rightarrow> stream_id list" where
  "announced tr = concat (map (\<lambda>e. case e of NowPlaying sid key url full ids meta \<Rightarrow> [sid] | _ \<Rightarrow> []) tr)"

lemma announced_simps [simp]:
  "announced [] = []" "announced (xs @ ys) = announced xs @ announced ys"
  "announced [NowPlaying sid key url full ids meta] = [sid]"
  by (simp_all add: announced_def)

lemma announced_other:
  "\<forall>e \<in> set pre. (\<exists>key uri. e = AddImageByURI key 140 uri) \<or> (\<exists>reqs. e = Schedule reqs) \<Longrightarrow> announced pre = []"
  by (fastforce simp: announced_def)

text \<open>What the pipeline does at the transition from a stream to the next one.\<close>
definition transition :: "pipeline_id \<Rightarrow> 'w streamer_op list" where
  "transition p = [OpAboutToFinish p, OpBus (SrcPipeline p) MsgStreamStart]"

lemma playable_reporting: "playable it uri \<Longrightarrow> \<exists>url. get_url_for_reporting it = Some url"
  by (auto simp: playable_def get_url_for_playing_def get_url_for_reporting_def)

lemma one_transition:
  assumes "pipeline (pl s) = Some p" "current_stream (pl s) = Some cur"
    "item_state cur \<in> {ACTIVE_NOW_PLAYING, ABOUT_TO_PHASE_OUT}"
    "queue (fifo s) = nxt # rest" "item_state nxt = IN_QUEUE" "playable nxt uri"
  shows "\<exists>s1 s2 it. streamer_run E ne (transition p) s = Some [s1, s2] \<and>
    pipeline (pl s2) = Some p \<and> current_stream (pl s2) = Some it \<and> item_id it = item_id nxt \<and>
    item_state it \<in> {ACTIVE_NOW_PLAYING, ABOUT_TO_PHASE_OUT} \<and> queue (fifo s2) = rest \<and>
    world s2 = gst_set_uri E p uri (world s) \<and> announced (trace s2) = announced (trace s) @ [item_id nxt]"
proof -
  define nxt1 where "nxt1 = nxt\<lparr>item_state := ABOUT_TO_ACTIVATE, start_required_after_resolve := False\<rparr>"
  define s0 where "s0 = s\<lparr>pl := (pl s)\<lparr>next_stream_request := REQUESTED\<rparr>\<rparr>"
  define s1 where "s1 = put_item FifoHead nxt1
      ((set_pipeline_uri E uri s0)\<lparr>pl := (pl s0)\<lparr>next_stream_request := NOT_REQUESTED\<rparr>\<rparr>)"
  obtain url where url: "get_url_for_reporting nxt1 = Some url"
    using playable_reporting [OF assms(6)] by (auto simp: nxt1_def get_url_for_reporting_def)
  have "queue_stream_from_url_fifo_unlocked E False s0 = Some s1"
    unfolding s1_def nxt1_def using assms by (intro queue_prepares_head) (auto simp: s0_def peek_eq)
  then have a1: "streamer_apply E (OpAboutToFinish p) s = Some s1"
    using assms(1) by (simp add: queue_stream_from_url_fifo_def pipeline_is_current_def s0_def)
  have s1: "current_stream (pl s1) = Some cur" "queue (fifo s1) = nxt1 # rest" "pipeline (pl s1) = Some p"
      "world s1 = gst_set_uri E p uri (world s)" "trace s1 = trace s" "next_stream_request (pl s1) = NOT_REQUESTED"
    using assms(1,2,4)
    by (simp_all add: s1_def s0_def put_item_def update_head_eq set_pipeline_uri_def world_def set_world_def)
  have st1: "item_state nxt1 = ABOUT_TO_ACTIVATE" and req1: "next_stream_request (pl s1) \<noteq> REQUEST_DEFERRED"
    using s1(6) by (simp_all add: nxt1_def)
  obtain s2 pre key full ids meta it where s2: "handle_start_of_stream E (SrcPipeline p) s1 = Some s2" "queue (fifo s2) = rest"
      "current_stream (pl s2) = Some it" "item_id it = item_id nxt1"
      "item_state it = (if rest = [] then ABOUT_TO_PHASE_OUT else ACTIVE_NOW_PLAYING)"
      "trace s2 = trace s1 @ pre @ [NowPlaying (item_id nxt1) key url full ids meta]"
      "\<forall>e \<in> set pre. (\<exists>key uri. e = AddImageByURI key 140 uri) \<or> (\<exists>reqs. e = Schedule reqs)"
      "pipeline (pl s2) = pipeline (pl s1)" "world s2 = world s1"
    using prepared_starts [OF s1(1) assms(3) s1(2) st1 url req1, of E "SrcPipeline p"] by blast
  have "streamer_run E ne (transition p) s = Some [s1, s2]"
    using a1 s2(1) by (simp add: transition_def)
  then show ?thesis
    using s1 s2 announced_other [OF s2(7)] by (auto simp: nxt1_def)
qed

lemma streamer_run_append:
  "streamer_run E ne (xs @ ys) s =
     do { ss \<leftarrow> streamer_run E ne xs s; ts \<leftarrow> streamer_run E ne ys (last (s # ss)); Some (ss @ ts) }"
  by (induction xs arbitrary: s) (auto simp: bind_assoc split: if_splits bind_split)

text \<open>C7. A queue is played to its end without a gap.  If the current stream is playing and the URLs of
  all streams in the queue are known, and the pipeline asks for the next stream and starts it as
  often as there are streams in the queue, then no step crashes; the pipeline was given
  the URLs of the streams in the order of the queue, one per request; each stream was announced
  as playing exactly once, in this order; the last one is current, and the queue is empty.\<close>
theorem queue_plays_gapless:
  assumes "pipeline (pl s) = Some p" "current_stream (pl s) = Some cur"
    "item_state cur \<in> {ACTIVE_NOW_PLAYING, ABOUT_TO_PHASE_OUT}"
    "list_all2 (\<lambda>it uri. item_state it = IN_QUEUE \<and> playable it uri) (queue (fifo s)) uris"
  shows "\<exists>ss. streamer_run E ne (concat (replicate (length uris) (transition p))) s = Some ss \<and>
    world (last (s # ss)) = fold (gst_set_uri E p) uris (world s) \<and>
    announced (trace (last (s # ss))) = announced (trace s) @ map item_id (queue (fifo s)) \<and>
    map_option item_id (current_stream (pl (last (s # ss)))) = Some (last (item_id cur # map item_id (queue (fifo s)))) \<and>
    queue (fifo (last (s # ss))) = []"
  using assms
proof (induction uris arbitrary: s cur)
  case Nil
  then show ?case by simp
next
  case (Cons uri uris)
  obtain nxt rest where q: "queue (fifo s) = nxt # rest" "item_state nxt = IN_QUEUE" "playable nxt uri"
      "list_all2 (\<lambda>it uri. item_state it = IN_QUEUE \<and> playable it uri) rest uris"
    using Cons.prems(4) by (auto simp: list_all2_Cons2)
  obtain s1 s2 it where t: "streamer_run E ne (transition p) s = Some [s1, s2]" "pipeline (pl s2) = Some p"
      "current_stream (pl s2) = Some it" "item_id it = item_id nxt" "item_state it \<in> {ACTIVE_NOW_PLAYING, ABOUT_TO_PHASE_OUT}"
      "queue (fifo s2) = rest" "world s2 = gst_set_uri E p uri (world s)"
      "announced (trace s2) = announced (trace s) @ [item_id nxt]"
    using one_transition [OF Cons.prems(1-3) q(1-3), of E ne] by blast
  obtain ss where ss: "streamer_run E ne (concat (replicate (length uris) (transition p))) s2 = Some ss"
      "world (last (s2 # ss)) = fold (gst_set_uri E p) uris (world s2)"
      "announced (trace (last (s2 # ss))) = announced (trace s2) @ map item_id rest"
      "map_option item_id (current_stream (pl (last (s2 # ss)))) = Some (last (item_id it # map item_id rest))"
      "queue (fifo (last (s2 # ss))) = []"
    using Cons.IH [OF t(2,3,5)] q(4) t(6) by auto
  have "streamer_run E ne (concat (replicate (length (uri # uris)) (transition p))) s = Some ([s1, s2] @ ss)"
    using t(1) ss(1) by (simp add: streamer_run_append)
  moreover have "last (s # [s1, s2] @ ss) = last (s2 # ss)" by simp
  ultimately show ?case
    using ss t q(1) by (intro exI [of _ "[s1, s2] @ ss"]) (simp del: last.simps, simp)
qed

lemma queue_plays_gapless_witness:
  "\<exists>ss. streamer_run sample_env True (transition 1) sample_playing = Some ss \<and>
     announced (trace (last (sample_playing # ss))) = [258] \<and> queue (fifo (last (sample_playing # ss))) = []"
  using queue_plays_gapless [of sample_playing 1 "direct_item 257 ACTIVE_NOW_PLAYING" "[''http://a'']" sample_env True]
  by (auto simp del: streamer_run.simps last.simps)

end
