(* ===== verification/Lock_Order.thy ===== *)
theory Lock_Order
  imports Prelude
begin

text \<open>
  Threads that take locks in nested blocks, as code with \<^verbatim>\<open>std::lock_guard\<close>,
  \<^verbatim>\<open>UniqueLock\<close> and \<open>LockedObjectBase\<close> (\<^verbatim>\<open>src/streamer.cc\<close>) does, and a
  criterion for the absence of deadlocks.  Some locks are recursive, which means that the thread that
  holds one can take it again.

  The locks that a function takes are described by a list of blocks, one behind the other.  The
  function may leave out any of them, as it does in its branches and early returns.
\<close>

section \<open>Code and its traces\<close>

datatype 'l lock_code = Locked 'l "'l lock_code list"

datatype 'l lock_cmd = Acquire 'l | Release 'l

inductive lock_trace :: "'l lock_code list \<Rightarrow> 'l lock_cmd list \<Rightarrow> bool" where
  trace_end: "lock_trace [] []"
| trace_skip: "lock_trace cs t \<Longrightarrow> lock_trace (c # cs) t"
| trace_block: "lock_trace body b \<Longrightarrow> lock_trace cs t \<Longrightarrow>
    lock_trace (Locked l body # cs) (Acquire l # b @ Release l # t)"

text \<open>Which locks may be taken while a set of others is held.\<close>
type_synonym 'l lock_rule = "'l set \<Rightarrow> 'l \<Rightarrow> bool"

fun follows_rule :: "('l \<Rightarrow> bool) \<Rightarrow> 'l lock_rule \<Rightarrow> 'l set \<Rightarrow> 'l lock_code \<Rightarrow> bool" where
  "follows_rule rec N H (Locked l body) \<longleftrightarrow>
     (if l \<in> H then rec l else N H l) \<and> list_all (follows_rule rec N (insert l H)) body"

text \<open>The same for what is left of a trace, with the locks held, the last one first.\<close>
fun obeys :: "('l \<Rightarrow> bool) \<Rightarrow> 'l lock_rule \<Rightarrow> 'l list \<Rightarrow> 'l lock_cmd list \<Rightarrow> bool" where
  "obeys rec N h [] \<longleftrightarrow> h = []"
| "obeys rec N h (Acquire l # t) \<longleftrightarrow>
     (if l \<in> set h then rec l else N (set h) l) \<and> obeys rec N (l # h) t"
| "obeys rec N h (Release l # t) \<longleftrightarrow> h \<noteq> [] \<and> hd h = l \<and> obeys rec N (tl h) t"

lemma lock_trace_obeys:
  "lock_trace cs t \<Longrightarrow> list_all (follows_rule rec N (set h)) cs \<Longrightarrow> obeys rec N h r \<Longrightarrow> obeys rec N h (t @ r)"
proof (induction arbitrary: h r rule: lock_trace.induct)
  case (trace_block body b cs t l)
  have "obeys rec N h (t @ r)" using trace_block by simp
  then have "obeys rec N (l # h) (Release l # t @ r)" by simp
  moreover have "list_all (follows_rule rec N (set (l # h))) body" using trace_block.prems(1) by simp
  ultimately have "obeys rec N (l # h) (b @ Release l # t @ r)" by (rule trace_block.IH(1) [rotated])
  then show ?case using trace_block.prems(1) by simp
qed simp_all

section \<open>Threads\<close>

text \<open>For each thread, the locks it holds and the rest of its trace.\<close>
type_synonym ('t, 'l) lock_state = "'t \<Rightarrow> 'l list \<times> 'l lock_cmd list"

inductive lock_step :: "('l \<Rightarrow> bool) \<Rightarrow> ('t, 'l) lock_state \<Rightarrow> 't \<Rightarrow> ('t, 'l) lock_state \<Rightarrow> bool"
  for rec :: "'l \<Rightarrow> bool" where
  step_acquire: "s t = (h, Acquire l # r) \<Longrightarrow> (l \<in> set h \<Longrightarrow> rec l) \<Longrightarrow> (\<And>u. u \<noteq> t \<Longrightarrow> l \<notin> set (fst (s u))) \<Longrightarrow>
    lock_step rec s t (s(t := (l # h, r)))"
| step_release: "s t = (l # h, Release l # r) \<Longrightarrow> lock_step rec s t (s(t := (h, r)))"

definition finished :: "('t, 'l) lock_state \<Rightarrow> 't \<Rightarrow> bool" where
  "finished s t \<longleftrightarrow> snd (s t) = []"

definition waits_for :: "('t, 'l) lock_state \<Rightarrow> 't \<Rightarrow> 't \<Rightarrow> bool" where
  "waits_for s t u \<longleftrightarrow> (\<exists>l r. snd (s t) = Acquire l # r \<and> u \<noteq> t \<and> l \<in> set (fst (s u)))"

text \<open>Threads that all wait for one another.\<close>
definition deadlock :: "('t, 'l) lock_state \<Rightarrow> 't set \<Rightarrow> bool" where
  "deadlock s D \<longleftrightarrow> D \<noteq> {} \<and> (\<forall>t \<in> D. \<exists>u \<in> D. waits_for s t u)"

definition lock_initial :: "('l \<Rightarrow> bool) \<Rightarrow> ('t \<Rightarrow> 'l lock_rule) \<Rightarrow> ('t, 'l) lock_state \<Rightarrow> bool" where
  "lock_initial rec N s \<longleftrightarrow>
     finite {t. \<not> finished s t} \<and>
     (\<forall>t. \<exists>p tr. list_all (follows_rule rec (N t) {}) p \<and> lock_trace p tr \<and> s t = ([], tr))"

definition lock_inv :: "('l \<Rightarrow> bool) \<Rightarrow> ('t \<Rightarrow> 'l lock_rule) \<Rightarrow> ('t, 'l) lock_state \<Rightarrow> bool" where
  "lock_inv rec N s \<longleftrightarrow>
     finite {t. \<not> finished s t} \<and>
     (\<forall>t. obeys rec (N t) (fst (s t)) (snd (s t))) \<and>
     (\<forall>t u. t \<noteq> u \<longrightarrow> set (fst (s t)) \<inter> set (fst (s u)) = {})"

lemma lock_invD:
  assumes "lock_inv rec N s"
  shows "finite {t. \<not> finished s t}" "obeys rec (N t) (fst (s t)) (snd (s t))"
    "t \<noteq> u \<Longrightarrow> set (fst (s t)) \<inter> set (fst (s u)) = {}"
  using assms by (simp_all add: lock_inv_def)

lemma lock_inv_initial: "lock_initial rec N s \<Longrightarrow> lock_inv rec N s"
proof -
  assume init: "lock_initial rec N s"
  have "obeys rec (N t) (fst (s t)) (snd (s t)) \<and> fst (s t) = []" for t
  proof -
    from init have "\<exists>p tr. list_all (follows_rule rec (N t) {}) p \<and> lock_trace p tr \<and> s t = ([], tr)"
      unfolding lock_initial_def by blast
    then obtain p tr where p: "list_all (follows_rule rec (N t) {}) p" "lock_trace p tr" "s t = ([], tr)"
      by blast
    have "obeys rec (N t) [] (tr @ [])" by (rule lock_trace_obeys [OF p(2)]) (simp_all add: p(1))
    then show ?thesis using p(3) by simp
  qed
  then have "obeys rec (N t) (fst (s t)) (snd (s t))" "fst (s t) = []" for t by blast+
  moreover have "finite {t. \<not> finished s t}" using init unfolding lock_initial_def by blast
  ultimately show ?thesis unfolding lock_inv_def by simp
qed

lemma finished_update:
  assumes "finite {t. \<not> finished s t}"
  shows "finite {u. \<not> finished (s(t := x)) u}"
  by (rule finite_subset [of _ "insert t {t. \<not> finished s t}"]) (use assms in \<open>auto simp: finished_def\<close>)

lemma lock_inv_step: "lock_inv rec N s \<Longrightarrow> lock_step rec s t s' \<Longrightarrow> lock_inv rec N s'"
proof -
  assume inv: "lock_inv rec N s" and step: "lock_step rec s t s'"
  note d = lock_invD [OF inv]
  from step show ?thesis
  proof cases
    case (step_acquire h l r)
    have "obeys rec (N t) h (Acquire l # r)" using d(2) [of t] step_acquire by simp
    then show ?thesis
      using d(2) d(3) finished_update [OF d(1)] step_acquire
      unfolding lock_inv_def by (auto simp del: not_None_eq) fastforce+
  next
    case (step_release l h r)
    have "obeys rec (N t) (l # h) (Release l # r)" using d(2) [of t] step_release by simp
    then show ?thesis
      using d(2) d(3) finished_update [OF d(1)] step_release
      unfolding lock_inv_def by auto fastforce+
  qed
qed

lemma waits_for_rule:
  assumes "lock_inv rec N s" "waits_for s t u"
  shows "\<exists>l r. snd (s t) = Acquire l # r \<and> l \<in> set (fst (s u)) \<and> u \<noteq> t \<and> N t (set (fst (s t))) l"
proof -
  obtain l r where l: "snd (s t) = Acquire l # r" "u \<noteq> t" "l \<in> set (fst (s u))"
    using assms(2) by (auto simp: waits_for_def)
  have "l \<notin> set (fst (s t))" using lock_invD(3) [OF assms(1), of t u] l by auto
  then have "N t (set (fst (s t))) l" using lock_invD(2) [OF assms(1), of t] l by simp
  then show ?thesis using l by blast
qed

text \<open>A thread that cannot go on waits for one that has not finished.\<close>
lemma stuck_waits:
  assumes "lock_inv rec N s" "\<not> finished s t" "\<nexists>s'. lock_step rec s t s'"
  obtains u where "waits_for s t u" "\<not> finished s u"
proof -
  obtain h c r where st: "s t = (h, c # r)" using assms(2) by (cases "s t"; cases "snd (s t)") (auto simp: finished_def)
  have ob: "obeys rec (N t) h (c # r)" using lock_invD(2) [OF assms(1), of t] st by simp
  show ?thesis
  proof (cases c)
    case (Acquire l)
    obtain u where u: "u \<noteq> t" "l \<in> set (fst (s u))"
      using assms(3) lock_step.step_acquire [of s t h l r rec] st Acquire ob by (auto split: if_splits)
    then have "\<not> finished s u" using lock_invD(2) [OF assms(1), of u] by (auto simp: finished_def)
    then show ?thesis using that [of u] u st Acquire by (auto simp: waits_for_def)
  next
    case (Release l)
    then have "s t = (l # tl h, Release l # r)" using ob st by (cases h) auto
    from lock_step.step_release [of s t, OF this, of rec] show ?thesis using assms(3) by blast
  qed
qed

lemma finite_greatest:
  fixes f :: "'a \<Rightarrow> 'r::linorder"
  assumes "finite A" "A \<noteq> {}"
  shows "\<exists>v \<in> A. \<forall>x \<in> A. f x \<le> f v"
proof -
  have "Max (f ` A) \<in> f ` A" using assms by simp
  then show ?thesis using assms(1) Max_ge [of "f ` A"] by fastforce
qed

section \<open>A discipline that excludes deadlocks\<close>

text \<open>
  All threads but one take locks in the order of their ranks.  The exceptional one, the main
  thread, may take them in any order, unless this closes a chain: whenever it wants a lock which
  another thread may hold, then no thread wants a lock held by the main thread that ranks higher.
\<close>

locale lock_discipline =
  fixes main :: 't
    and main_rule :: "'l lock_rule"
    and other_rule :: "'l lock_rule"
    and rec :: "'l \<Rightarrow> bool"
    and rank :: "'l \<Rightarrow> 'r::linorder"
  assumes ranked: "other_rule H l \<Longrightarrow> k \<in> H \<Longrightarrow> rank k < rank l"
    and compatible: "main_rule H l \<Longrightarrow>
      other_rule H1 l1 \<Longrightarrow> l \<in> H1 \<Longrightarrow> H1 \<inter> H = {} \<Longrightarrow>
      other_rule H2 l2 \<Longrightarrow> l2 \<in> H \<Longrightarrow> H2 \<inter> H = {} \<Longrightarrow> rank l2 \<le> rank l"
begin

abbreviation rules :: "'t \<Rightarrow> 'l lock_rule" where
  "rules t \<equiv> if t = main then main_rule else other_rule"

text \<open>If others than the main thread wait with a rank above a bound, one of them waits for the main
  thread, if it waits for any of them.\<close>
lemma chain_reaches_main:
  assumes inv: "lock_inv rec rules s" and fin: "finite D"
    and wait: "\<forall>t \<in> D. \<exists>u \<in> D. waits_for s t u"
    and start: "t \<in> D" "t \<noteq> main" "other_rule (set (fst (s t))) l" "bound < rank l"
      "snd (s t) = Acquire l # r"
  shows "\<exists>v \<in> D. \<exists>k. v \<noteq> main \<and> other_rule (set (fst (s v))) k \<and> bound < rank k \<and> k \<in> set (fst (s main)) \<and> main \<in> D"
proof -
  define want where "want v = (case snd (s v) of Acquire k # _ \<Rightarrow> rank k | _ \<Rightarrow> rank l)" for v
  define A where "A = {v \<in> D. v \<noteq> main \<and> bound < want v}"
  have "finite A" "A \<noteq> {}" using fin start by (auto simp: A_def want_def)
  then obtain v where v: "v \<in> A" "\<And>x. x \<in> A \<Longrightarrow> want x \<le> want v"
    using finite_greatest [of A want] by blast
  obtain u where u: "u \<in> D" "waits_for s v u" using wait v by (auto simp: A_def)
  obtain k q where k: "snd (s v) = Acquire k # q" "k \<in> set (fst (s u))" "u \<noteq> v"
      "rules v (set (fst (s v))) k"
    using waits_for_rule [OF inv u(2)] by blast
  then have vk: "other_rule (set (fst (s v))) k" "bound < rank k" "v \<in> D" "v \<noteq> main"
    using v(1) by (auto simp: A_def want_def)
  show ?thesis
  proof (cases "u = main")
    case True
    then show ?thesis using vk k u by blast
  next
    case False
    obtain x where x: "waits_for s u x" using wait u by blast
    obtain m q' where m: "snd (s u) = Acquire m # q'" "rules u (set (fst (s u))) m"
      using waits_for_rule [OF inv x] by blast
    then have "other_rule (set (fst (s u))) m" using False by simp
    then have "rank k < rank m" using ranked k(2) by blast
    then have "u \<in> A" "want v < want u" using vk u False m k by (auto simp: A_def want_def)
    then show ?thesis using v(2) [of u] by simp
  qed
qed

lemma no_deadlock:
  assumes inv: "lock_inv rec rules s"
  shows "\<not> deadlock s D"
proof
  assume dl: "deadlock s D"
  then have wait: "\<forall>t \<in> D. \<exists>u \<in> D. waits_for s t u" and ne: "D \<noteq> {}" by (auto simp: deadlock_def)
  have "D \<subseteq> {t. \<not> finished s t}" using wait by (auto simp: waits_for_def finished_def)
  then have fin: "finite D" using lock_invD(1) [OF inv] finite_subset by blast
  have wants: "\<exists>l r. snd (s t) = Acquire l # r \<and> other_rule (set (fst (s t))) l" if t: "t \<in> D" "t \<noteq> main" for t
  proof -
    obtain u where "waits_for s t u" using wait t(1) by blast
    then obtain l r where l: "snd (s t) = Acquire l # r" "rules t (set (fst (s t))) l"
      using waits_for_rule [OF inv] by blast
    have "other_rule (set (fst (s t))) l" using l(2) t(2) by simp
    with l(1) show ?thesis by blast
  qed
  show False
  proof (cases "main \<in> D")
    case True
    obtain u where u: "u \<in> D" "waits_for s main u" using wait True by blast
    obtain l where l: "l \<in> set (fst (s u))" "u \<noteq> main" "main_rule (set (fst (s main))) l"
      using waits_for_rule [OF inv u(2)] by auto
    obtain m r where m: "snd (s u) = Acquire m # r" "other_rule (set (fst (s u))) m" using wants u(1) l(2) by blast
    have "rank l < rank m" by (rule ranked [OF m(2) l(1)])
    from chain_reaches_main [OF inv fin wait u(1) l(2) m(2) this m(1)]
    obtain v k where v: "v \<noteq> main" "other_rule (set (fst (s v))) k" "rank l < rank k" "k \<in> set (fst (s main))"
      by blast
    have "rank k \<le> rank l"
      by (rule compatible [OF l(3) m(2) l(1) lock_invD(3) [OF inv l(2)] v(2,4) lock_invD(3) [OF inv v(1)]])
    with v(3) show False by simp
  next
    case False
    define want where "want v = (case snd (s v) of Acquire k # _ \<Rightarrow> rank k)" for v
    obtain t where t: "t \<in> D" "\<And>x. x \<in> D \<Longrightarrow> want x \<le> want t"
      using finite_greatest [OF fin ne, of want] by blast
    obtain u where u: "u \<in> D" "waits_for s t u" using wait t by blast
    obtain l r where l: "snd (s t) = Acquire l # r" "l \<in> set (fst (s u))"
      using u by (auto simp: waits_for_def)
    obtain m q where m: "snd (s u) = Acquire m # q" "other_rule (set (fst (s u))) m"
      using wants u False by blast
    have "rank l < rank m" using ranked m l by blast
    then show False using t(2) [OF u(1)] l m by (simp add: want_def)
  qed
qed

end

sublocale lock_discipline \<subseteq> machine "lock_initial rec rules" "lock_step rec" "lock_inv rec rules"
  by unfold_locales (auto intro: lock_inv_initial lock_inv_step)

context lock_discipline
begin

text \<open>So the threads always get on.\<close>
lemma some_thread_goes_on:
  assumes "reachable (lock_initial rec rules) (lock_step rec) s" "\<not> finished s t"
  shows "\<exists>u s'. lock_step rec s u s'"
proof (rule ccontr)
  assume stuck: "\<not> ?thesis"
  note inv = reachable_inv [OF assms(1)]
  have "\<exists>u \<in> {t. \<not> finished s t}. waits_for s v u" if v: "\<not> finished s v" for v
    using stuck_waits [OF inv v] stuck by blast
  then have "deadlock s {t. \<not> finished s t}" using assms(2) by (auto simp: deadlock_def)
  then show False using no_deadlock [OF inv] by blast
qed

end

end
