(* ===== verification/Streamer_Locks.thy ===== *)
theory Streamer_Locks
  imports Lock_Order Streamer_Core "HOL-Library.Extended_Nat"
begin

text \<open>
  The locks of the streamer (\<open>LockedObjectBase\<close> and the functions of
  \<^verbatim>\<open>src/streamer.cc\<close> that take them, with those of
  \<^verbatim>\<open>src/rnfcall.hh\<close>, \<^verbatim>\<open>src/rnfcall_cookiecall.hh\<close>,
  \<^verbatim>\<open>src/cookie_manager_impl.cc\<close>, \<^verbatim>\<open>src/boosted_threads.cc\<close> and
  \<^verbatim>\<open>src/urlfifo.hh\<close>).

  D-Bus methods, D-Bus signals, timers and messages of the pipeline are handled by the main loop, in
  one thread.  GStreamer's streaming threads call \<open>queue_stream_from_url_fifo()\<close> (the signal
  \<^verbatim>\<open>about-to-finish\<close>), \<open>setup_source_element()\<close> (\<^verbatim>\<open>source-setup\<close>) and
  \<open>bus_sync_message_handler()\<close>.  The definitions named \<open>\<dots>_locks\<close> list the blocks in which a function,
  or a function called by it, holds a lock, in the order of the code.

  These are the mutexes of the program.  What GStreamer locks is not in the sources, nor whether
  \<open>gst_element_set_state()\<close> waits for a streaming thread that runs one of the callbacks.
\<close>

section \<open>Locks\<close>

text \<open>A call object has a mutex.  \<open>PrivateCall\<close> is the mutex of a call object that is being made
  by a streaming thread: no other thread has a reference to the object before the request has been
  sent, when its maker has taken the mutex already.  \<open>SharedCall\<close> is that of any other call.\<close>
datatype streamer_lock =
    ControlLock | PipelineLock | FifoLock | PresentationLock | FailureLock | BoostLock | CookieLock
  | SharedCall nat | PrivateCall nat

text \<open>The type \<open>LoggedLock::RecMutex\<close> against \<open>LoggedLock::Mutex\<close>.\<close>
fun is_recursive :: "streamer_lock \<Rightarrow> bool" where
  "is_recursive BoostLock = False"
| "is_recursive (SharedCall k) = False"
| "is_recursive (PrivateCall k) = False"
| "is_recursive l = True"

type_synonym locks = "streamer_lock lock_code list"

section \<open>Parts of the streamer\<close>

definition boost_locks :: locks where
  "boost_locks = [Locked BoostLock []]"

definition setup_source_element_locks :: locks where
  "setup_source_element_locks = [Locked FailureLock []]"

definition bus_sync_message_handler_locks :: locks where
  "bus_sync_message_handler_locks = [Locked BoostLock []]"

text \<open>Changing the state of the pipeline may run callbacks of GStreamer in the same thread.\<close>
definition set_stream_state_locks :: locks where
  "set_stream_state_locks = setup_source_element_locks @ bus_sync_message_handler_locks"

text \<open>Items that are destroyed release their calls; the destructor of a call aborts it, which takes
  its mutex once or twice.\<close>
fun destroy_call_locks :: "streamer_lock \<Rightarrow> locks" where
  "destroy_call_locks l = [Locked l [], Locked l []]"

definition destroy_items_locks :: "nat list \<Rightarrow> locks" where
  "destroy_items_locks ks = concat (map (\<lambda>k. destroy_call_locks (SharedCall k)) ks)"

definition emit_stopped_locks :: "nat list \<Rightarrow> locks" where
  "emit_stopped_locks ks = boost_locks @ destroy_items_locks ks"

definition emit_stopped_with_error_locks :: "nat list \<Rightarrow> locks" where
  "emit_stopped_with_error_locks ks = boost_locks @ destroy_items_locks ks"

definition rebuild_playbin_locks :: locks where
  "rebuild_playbin_locks = boost_locks @ set_stream_state_locks @ set_stream_state_locks"

definition do_stop_pipeline_and_recover_from_error_locks :: "nat list \<Rightarrow> locks" where
  "do_stop_pipeline_and_recover_from_error_locks ks =
     rebuild_playbin_locks @ destroy_items_locks ks @ emit_stopped_with_error_locks ks"

definition do_error_recovery_locks :: "nat list \<Rightarrow> locks" where
  "do_error_recovery_locks ks =
     [Locked ControlLock [Locked PresentationLock
        [Locked FifoLock (do_stop_pipeline_and_recover_from_error_locks ks)]]]"

definition recover_from_error_now_or_later_locks :: "nat list \<Rightarrow> locks" where
  "recover_from_error_now_or_later_locks ks = do_error_recovery_locks ks"

definition try_take_next_locks :: "nat list \<Rightarrow> locks" where
  "try_take_next_locks ks =
     destroy_items_locks ks @
     [Locked FailureLock (recover_from_error_now_or_later_locks ks),
      Locked FailureLock (do_error_recovery_locks ks)]"

definition handle_buffer_underrun_locks :: locks where
  "handle_buffer_underrun_locks =
     [Locked ControlLock []] @ set_stream_state_locks @ boost_locks @
     [Locked ControlLock []] @ boost_locks"

definition do_encourage_buffering_locks :: locks where
  "do_encourage_buffering_locks = handle_buffer_underrun_locks"

text \<open>The argument tells whether the pipeline may be started, which it is always except when the
  next stream is prefetched and its item is not marked for a restart.\<close>
definition on_link_resolved_locks :: "bool \<Rightarrow> locks" where
  "on_link_resolved_locks may_start =
     (if may_start
      then set_stream_state_locks @ [Locked PresentationLock []] @ do_encourage_buffering_locks
      else [])"

text \<open>
  \<open>resolve_selected_url_or_play_uri()\<close> for an item whose links are resolved by the calls given.  A
  request holds the mutex of its call; while it is sent, it blocks the notifications about cookies,
  and it adds its cookie; if it is answered at once, it notifies its context, which takes the
  locks of pipeline and queue and may try the next URL.  In the end the call may be destroyed.
\<close>
fun resolve_selected_url_locks :: "bool \<Rightarrow> (nat \<Rightarrow> streamer_lock) \<Rightarrow> nat list \<Rightarrow> locks" where
  "resolve_selected_url_locks may_start mk [] = on_link_resolved_locks may_start"
| "resolve_selected_url_locks may_start mk (k # ks) =
     on_link_resolved_locks may_start @
     [Locked (mk k)
        [Locked CookieLock [Locked CookieLock []],
         Locked PipelineLock [Locked FifoLock
           (on_link_resolved_locks may_start @ resolve_selected_url_locks may_start mk ks)]]] @
     destroy_call_locks (mk k)"

text \<open>\<open>ResolveAirableRedirectContext::notify()\<close>.\<close>
definition notify_locks :: "nat list \<Rightarrow> locks" where
  "notify_locks ks =
     [Locked PipelineLock [Locked FifoLock
        (on_link_resolved_locks True @ resolve_selected_url_locks True SharedCall ks)]]"

definition play_next_stream_locks :: "nat list \<Rightarrow> locks" where
  "play_next_stream_locks ks = resolve_selected_url_locks True SharedCall ks"

definition try_play_next_stream_locks :: "nat list \<Rightarrow> locks" where
  "try_play_next_stream_locks ks = try_take_next_locks ks @ play_next_stream_locks ks"

definition queue_stream_from_url_fifo_unlocked_locks :: "nat list \<Rightarrow> locks" where
  "queue_stream_from_url_fifo_unlocked_locks ks = play_next_stream_locks ks"

section \<open>Callbacks of streaming threads\<close>

definition queue_stream_from_url_fifo_locks :: "bool \<Rightarrow> nat list \<Rightarrow> locks" where
  "queue_stream_from_url_fifo_locks may_start ks =
     [Locked PipelineLock [Locked FifoLock (resolve_selected_url_locks may_start PrivateCall ks)]]"

definition streaming_locks :: "bool \<Rightarrow> nat list \<Rightarrow> locks" where
  "streaming_locks may_start ks =
     queue_stream_from_url_fifo_locks may_start ks @ setup_source_element_locks @
     bus_sync_message_handler_locks"

section \<open>Messages and timers in the main thread\<close>

definition handle_end_of_stream_locks :: "nat list \<Rightarrow> locks" where
  "handle_end_of_stream_locks ks =
     [Locked PipelineLock
        (set_stream_state_locks @
         [Locked FifoLock
            [Locked ControlLock (emit_stopped_locks ks), Locked ControlLock (emit_stopped_locks ks)]] @
         destroy_items_locks ks)]"

definition timed_emit_tags_locks :: locks where
  "timed_emit_tags_locks = [Locked PipelineLock [Locked PresentationLock []]]"

definition handle_tag_locks :: locks where
  "handle_tag_locks = [Locked PipelineLock [Locked PresentationLock []]]"

definition try_refresh_uri_locks :: "nat list \<Rightarrow> locks" where
  "try_refresh_uri_locks ks =
     rebuild_playbin_locks @ [Locked PresentationLock []] @ resolve_selected_url_locks True SharedCall ks"

definition handle_error_message_locks :: "nat list \<Rightarrow> locks" where
  "handle_error_message_locks ks =
     [Locked ControlLock [Locked PipelineLock [Locked FifoLock
        (try_refresh_uri_locks ks @
         [Locked FailureLock (recover_from_error_now_or_later_locks ks)] @
         set_stream_state_locks @
         [Locked PresentationLock [], Locked ControlLock (emit_stopped_with_error_locks ks),
          Locked FailureLock []] @
         destroy_items_locks ks)]]]"

definition report_progress_locks :: locks where
  "report_progress_locks = [Locked PipelineLock [Locked PresentationLock []]]"

definition activate_stream_locks :: locks where
  "activate_stream_locks = [Locked FifoLock []]"

definition try_leave_buffering_state_locks :: locks where
  "try_leave_buffering_state_locks = boost_locks @ set_stream_state_locks"

definition handle_stream_state_change_locks :: "nat list \<Rightarrow> locks" where
  "handle_stream_state_change_locks ks =
     [Locked PipelineLock
        ([Locked FifoLock bus_sync_message_handler_locks,
          Locked PresentationLock [],
          Locked ControlLock [Locked PresentationLock try_leave_buffering_state_locks],
          Locked FifoLock (Locked ControlLock (emit_stopped_locks ks) # destroy_items_locks ks)] @
         activate_stream_locks @
         [Locked PresentationLock [Locked ControlLock try_leave_buffering_state_locks]] @
         activate_stream_locks @
         [Locked PresentationLock []])]"

definition handle_start_of_stream_locks :: "nat list \<Rightarrow> locks" where
  "handle_start_of_stream_locks ks =
     [Locked PipelineLock [Locked FifoLock
        (boost_locks @ destroy_items_locks ks @ activate_stream_locks @
         [Locked PresentationLock (destroy_items_locks ks)] @
         queue_stream_from_url_fifo_unlocked_locks ks)]]"

definition handle_buffering_locks :: locks where
  "handle_buffering_locks =
     [Locked ControlLock [Locked PipelineLock
        (Locked PresentationLock try_leave_buffering_state_locks # handle_buffer_underrun_locks)]]"

definition handle_stream_duration_async_locks :: locks where
  "handle_stream_duration_async_locks =
     [Locked ControlLock [Locked PipelineLock [Locked PresentationLock boost_locks]]]"

definition handle_clock_lost_message_locks :: locks where
  "handle_clock_lost_message_locks =
     [Locked PipelineLock (set_stream_state_locks @ set_stream_state_locks)]"

definition handle_latency_message_locks :: locks where
  "handle_latency_message_locks = [Locked PipelineLock []]"

definition handle_request_state_message_locks :: locks where
  "handle_request_state_message_locks = [Locked PipelineLock set_stream_state_locks]"

section \<open>The public interface in the main thread\<close>

definition setup_locks :: locks where
  "setup_locks = [Locked PipelineLock set_stream_state_locks, Locked PresentationLock []]"

definition activate_locks :: locks where
  "activate_locks = [Locked ControlLock []]"

definition do_stop_locks :: locks where
  "do_stop_locks = set_stream_state_locks @ [Locked FifoLock [], Locked FifoLock []]"

definition deactivate_locks :: locks where
  "deactivate_locks = [Locked ControlLock [Locked PipelineLock [Locked FailureLock do_stop_locks]]]"

definition start_locks :: "nat list \<Rightarrow> locks" where
  "start_locks ks =
     [Locked ControlLock [Locked PipelineLock
        ([Locked FailureLock [Locked PresentationLock rebuild_playbin_locks],
          Locked FifoLock (try_play_next_stream_locks ks)] @
         set_stream_state_locks)]]"

definition stop_locks :: "nat list \<Rightarrow> locks" where
  "stop_locks ks =
     [Locked ControlLock [Locked PipelineLock
        [Locked FailureLock do_stop_locks, Locked FifoLock (emit_stopped_with_error_locks ks)]]]"

definition pause_locks :: "nat list \<Rightarrow> locks" where
  "pause_locks ks =
     [Locked ControlLock [Locked PipelineLock
        (Locked FifoLock (try_play_next_stream_locks ks) # set_stream_state_locks)]]"

definition seek_locks :: locks where
  "seek_locks = [Locked ControlLock [Locked PipelineLock do_encourage_buffering_locks]]"

definition next_locks :: "nat list \<Rightarrow> locks" where
  "next_locks ks =
     [Locked ControlLock [Locked PipelineLock
        (Locked FifoLock [] # destroy_items_locks ks @
         [Locked FifoLock
            (try_take_next_locks ks @ set_stream_state_locks @ play_next_stream_locks ks)])]]"

definition clear_queue_locks :: "nat list \<Rightarrow> locks" where
  "clear_queue_locks ks = [Locked FifoLock (destroy_items_locks ks)]"

definition is_playing_locks :: locks where
  "is_playing_locks = [Locked PipelineLock []]"

definition get_current_stream_id_locks :: locks where
  "get_current_stream_id_locks = [Locked PipelineLock []]"

definition push_item_locks :: "nat list \<Rightarrow> locks" where
  "push_item_locks ks =
     [Locked ControlLock [Locked PipelineLock
        [Locked FifoLock (destroy_items_locks ks),
         Locked FifoLock (queue_stream_from_url_fifo_unlocked_locks ks @ destroy_items_locks ks)]]]"

definition remove_items_for_root_path_locks :: "nat list \<Rightarrow> locks" where
  "remove_items_for_root_path_locks ks = [Locked PipelineLock (stop_locks ks)]"

definition inject_stream_failure_locks :: locks where
  "inject_stream_failure_locks = [Locked PipelineLock []]"

text \<open>The mutex is given up before the message is posted.\<close>
definition post_injected_failure_locks :: locks where
  "post_injected_failure_locks = Locked PipelineLock [] # bus_sync_message_handler_locks"

section \<open>Signals of the list broker in the main thread\<close>

text \<open>\<open>PendingCookies::available()\<close> and \<open>finish()\<close> give up their mutex before they call the function
  they have found, which takes the mutex of its call.\<close>
definition available_locks :: "nat \<Rightarrow> locks" where
  "available_locks i = [Locked CookieLock [], Locked (SharedCall i) []]"

definition finish_locks :: "nat \<Rightarrow> nat list \<Rightarrow> locks" where
  "finish_locks i ks = [Locked CookieLock [], Locked (SharedCall i) (notify_locks ks)] @ destroy_call_locks (SharedCall i)"

definition airable_signal_locks :: "nat \<Rightarrow> nat list \<Rightarrow> locks" where
  "airable_signal_locks i ks = available_locks i @ finish_locks i ks"

text \<open>Everything the main loop may do, where \<open>i\<close> is a call that is answered, and \<open>ks\<close> are others.\<close>
definition main_locks :: "nat \<Rightarrow> nat list \<Rightarrow> locks" where
  "main_locks i ks =
     handle_end_of_stream_locks ks @ timed_emit_tags_locks @ handle_tag_locks @
     handle_error_message_locks ks @ report_progress_locks @ handle_stream_state_change_locks ks @
     handle_start_of_stream_locks ks @ handle_buffering_locks @ handle_stream_duration_async_locks @
     handle_clock_lost_message_locks @ handle_latency_message_locks @ handle_request_state_message_locks @
     setup_locks @ activate_locks @ deactivate_locks @ start_locks ks @ stop_locks ks @ pause_locks ks @
     seek_locks @ next_locks ks @ clear_queue_locks ks @ is_playing_locks @ get_current_stream_id_locks @ push_item_locks ks @
     remove_items_for_root_path_locks ks @ inject_stream_failure_locks @ post_injected_failure_locks @
     airable_signal_locks i ks"

lemmas part_locks_defs =
  boost_locks_def setup_source_element_locks_def bus_sync_message_handler_locks_def set_stream_state_locks_def
  emit_stopped_locks_def emit_stopped_with_error_locks_def rebuild_playbin_locks_def
  do_stop_pipeline_and_recover_from_error_locks_def do_error_recovery_locks_def
  recover_from_error_now_or_later_locks_def try_take_next_locks_def handle_buffer_underrun_locks_def
  do_encourage_buffering_locks_def on_link_resolved_locks_def notify_locks_def play_next_stream_locks_def
  try_play_next_stream_locks_def queue_stream_from_url_fifo_unlocked_locks_def try_refresh_uri_locks_def
  activate_stream_locks_def try_leave_buffering_state_locks_def do_stop_locks_def

lemmas entry_locks_defs =
  handle_end_of_stream_locks_def timed_emit_tags_locks_def handle_tag_locks_def handle_error_message_locks_def
  report_progress_locks_def handle_stream_state_change_locks_def handle_start_of_stream_locks_def
  handle_buffering_locks_def handle_stream_duration_async_locks_def handle_clock_lost_message_locks_def
  handle_latency_message_locks_def handle_request_state_message_locks_def setup_locks_def activate_locks_def
  deactivate_locks_def start_locks_def stop_locks_def pause_locks_def seek_locks_def next_locks_def
  clear_queue_locks_def is_playing_locks_def get_current_stream_id_locks_def push_item_locks_def
  remove_items_for_root_path_locks_def inject_stream_failure_locks_def post_injected_failure_locks_def

section \<open>The rules the threads follow\<close>

text \<open>The main thread never takes the lock of the pipeline while it holds that of the queue, and
  none of the two while it holds a mutex that is taken last.\<close>
definition main_rule :: "streamer_lock lock_rule" where
  "main_rule H l \<longleftrightarrow>
     (l = PipelineLock \<longrightarrow> H \<inter> {FifoLock, CookieLock, BoostLock} = {}) \<and>
     (l = FifoLock \<longrightarrow> H \<inter> {CookieLock, BoostLock} = {}) \<and>
     (\<forall>k. l \<noteq> PrivateCall k \<and> PrivateCall k \<notin> H)"

fun lock_rank :: "streamer_lock \<Rightarrow> enat" where
  "lock_rank PipelineLock = enat 1"
| "lock_rank FifoLock = enat 2"
| "lock_rank (PrivateCall k) = enat (k + 3)"
| "lock_rank CookieLock = \<infinity>"
| "lock_rank l = enat 0"

text \<open>A streaming thread takes pipeline, queue, its calls, and the cookies, in this order, and
  other locks only by themselves.\<close>
definition streaming_rule :: "streamer_lock lock_rule" where
  "streaming_rule H l \<longleftrightarrow>
     H \<subseteq> {PipelineLock, FifoLock} \<union> range PrivateCall \<and>
     (l \<in> {FailureLock, BoostLock, PipelineLock, FifoLock, CookieLock} \<or> l \<in> range PrivateCall) \<and>
     (l = FifoLock \<or> FifoLock \<in> H \<longrightarrow> PipelineLock \<in> H) \<and>
     (\<forall>k \<in> H. lock_rank k < lock_rank l)"

interpretation streamer_locks: lock_discipline "0 :: nat" main_rule streaming_rule is_recursive lock_rank
proof
  fix H l k
  show "streaming_rule H l \<Longrightarrow> k \<in> H \<Longrightarrow> lock_rank k < lock_rank l"
    by (simp add: streaming_rule_def)
next
  fix H l H1 l1 H2 l2
  assume m: "main_rule H l" and s1: "streaming_rule H1 l1" "l \<in> H1" "H1 \<inter> H = {}"
    and s2: "streaming_rule H2 l2" "l2 \<in> H" "H2 \<inter> H = {}"
  have l: "l = PipelineLock \<or> l = FifoLock"
    using m s1(1,2) by (auto simp: main_rule_def streaming_rule_def)
  have l2: "l2 \<in> {FailureLock, PipelineLock} \<or> l2 = FifoLock \<and> PipelineLock \<in> H2"
    using m l s2(1,2) by (auto simp: main_rule_def streaming_rule_def)
  show "lock_rank l2 \<le> lock_rank l"
    using l
  proof
    assume "l = PipelineLock"
    then have "l2 \<noteq> FifoLock" using m s2(2) by (auto simp: main_rule_def)
    then show ?thesis using l2 \<open>l = PipelineLock\<close> by auto
  next
    assume f: "l = FifoLock"
    then show ?thesis using l2 by auto
  qed
qed

section \<open>The main thread follows its rule\<close>

abbreviation main_follows :: "streamer_lock set \<Rightarrow> locks \<Rightarrow> bool" where
  "main_follows H \<equiv> list_all (follows_rule is_recursive main_rule H)"

text \<open>What is not held when a part of the streamer is entered.\<close>
definition clean :: "nat list \<Rightarrow> streamer_lock set \<Rightarrow> bool" where
  "clean ks H \<longleftrightarrow>
     H \<inter> {BoostLock, CookieLock} = {} \<and> (\<forall>k. PrivateCall k \<notin> H) \<and> (\<forall>k \<in> set ks. SharedCall k \<notin> H)"

lemma clean_insert [simp]:
  "clean ks (insert ControlLock H) = clean ks H" "clean ks (insert PipelineLock H) = clean ks H"
  "clean ks (insert FifoLock H) = clean ks H" "clean ks (insert PresentationLock H) = clean ks H"
  "clean ks (insert FailureLock H) = clean ks H"
  by (simp_all add: clean_def)

lemma clean_empty [simp]: "clean ks {}"
  by (simp add: clean_def)

lemma main_block_recursive:
  assumes "clean ks H" "l \<in> {ControlLock, PresentationLock, FailureLock} \<or> l = FifoLock"
  shows "follows_rule is_recursive main_rule H (Locked l body) = main_follows (insert l H) body"
  using assms by (auto simp: main_rule_def clean_def)

lemma main_block_pipeline:
  assumes "clean ks H" "PipelineLock \<in> H \<or> FifoLock \<notin> H"
  shows "follows_rule is_recursive main_rule H (Locked PipelineLock body) = main_follows (insert PipelineLock H) body"
  using assms by (auto simp: main_rule_def clean_def)

lemma main_block_plain:
  assumes "clean ks H" "l = BoostLock \<or> l \<in> SharedCall ` set ks"
  shows "follows_rule is_recursive main_rule H (Locked l [])"
  using assms by (auto simp: main_rule_def clean_def)

lemma main_block_call:
  assumes "clean ks H" "k \<in> set ks"
  shows "follows_rule is_recursive main_rule H (Locked (SharedCall k) body) = main_follows (insert (SharedCall k) H) body"
  using assms by (auto simp: main_rule_def clean_def)

lemma main_follows_destroy: "clean ks H \<Longrightarrow> main_follows H (destroy_items_locks ks)"
proof -
  assume c: "clean ks H"
  have "main_follows H (concat (map (\<lambda>k. destroy_call_locks (SharedCall k)) js))" if "set js \<subseteq> set ks" for js
    using that
  proof (induction js)
    case (Cons j js)
    then show ?case using main_block_plain [OF c, of "SharedCall j"] by simp
  qed simp
  then show ?thesis by (simp add: destroy_items_locks_def)
qed

lemma main_follows_parts:
  assumes "clean ks H"
  shows "main_follows H boost_locks" "main_follows H set_stream_state_locks" "main_follows H rebuild_playbin_locks"
    "main_follows H (emit_stopped_locks ks)" "main_follows H (emit_stopped_with_error_locks ks)"
    "main_follows H (do_stop_pipeline_and_recover_from_error_locks ks)"
    "main_follows H (on_link_resolved_locks True)" "main_follows H handle_buffer_underrun_locks"
    "main_follows H activate_stream_locks" "main_follows H try_leave_buffering_state_locks"
    "main_follows H do_stop_locks" "main_follows H (bus_sync_message_handler_locks)"
  using assms main_follows_destroy [OF assms] main_block_recursive [OF assms] main_block_plain [OF assms]
  by (simp_all add: part_locks_defs del: follows_rule.simps)

lemma main_follows_recovery: "clean ks H \<Longrightarrow> main_follows H (do_error_recovery_locks ks)"
  by (simp add: do_error_recovery_locks_def main_block_recursive [where ks = ks] main_follows_parts
      del: follows_rule.simps)

lemma main_follows_take_next: "clean ks H \<Longrightarrow> main_follows H (try_take_next_locks ks)"
  by (simp add: try_take_next_locks_def recover_from_error_now_or_later_locks_def main_follows_destroy
      main_follows_recovery main_block_recursive [where ks = ks] del: follows_rule.simps)

lemma main_follows_resolve:
  assumes "clean ks H" "distinct ks" "PipelineLock \<in> H"
  shows "main_follows H (resolve_selected_url_locks True SharedCall ks)"
  using assms
proof (induction ks arbitrary: H)
  case Nil
  then show ?case using main_follows_parts(7) [of "[]" H] by simp
next
  case (Cons k ks)
  let ?H = "insert (SharedCall k) H"
  have H: "clean ks H" "clean ks ?H" using Cons.prems by (auto simp: clean_def)
  have k: "follows_rule is_recursive main_rule H (Locked (SharedCall k) [])"
    using main_block_plain [OF Cons.prems(1), of "SharedCall k"] by simp
  have cookie: "follows_rule is_recursive main_rule ?H (Locked CookieLock [Locked CookieLock []])"
    using H(2) by (auto simp: main_rule_def clean_def)
  have "main_follows (insert FifoLock (insert PipelineLock ?H)) (resolve_selected_url_locks True SharedCall ks)"
    by (rule Cons.IH) (use H Cons.prems in simp_all)
  moreover have "main_follows (insert FifoLock (insert PipelineLock ?H)) (on_link_resolved_locks True)"
    by (rule main_follows_parts(7)) (use H in simp)
  ultimately have "follows_rule is_recursive main_rule ?H (Locked PipelineLock [Locked FifoLock
      (on_link_resolved_locks True @ resolve_selected_url_locks True SharedCall ks)])"
    using H(2) Cons.prems(3) main_block_pipeline [OF H(2)] main_block_recursive [of ks "insert PipelineLock ?H" FifoLock]
    by (simp del: follows_rule.simps)
  then show ?case
    using k cookie main_follows_parts(7) [OF Cons.prems(1)] main_block_call [OF Cons.prems(1), of k]
    by (simp del: follows_rule.simps)
qed

lemma main_follows_notify:
  assumes "distinct ks" "i \<notin> set ks"
  shows "main_follows {SharedCall i} (notify_locks ks)"
proof -
  have c: "clean ks {SharedCall i}" using assms by (auto simp: clean_def)
  then show ?thesis
    using main_block_pipeline [OF c] main_block_recursive [of ks "{PipelineLock, SharedCall i}" FifoLock]
      main_follows_resolve [OF _ assms(1), of "{FifoLock, PipelineLock, SharedCall i}"]
      main_follows_parts(7) [of ks "{FifoLock, PipelineLock, SharedCall i}"]
    by (simp add: notify_locks_def del: follows_rule.simps)
qed

lemma main_follows_signal:
  assumes "distinct ks" "i \<notin> set ks"
  shows "main_follows {} (airable_signal_locks i ks)"
  using main_follows_notify [OF assms]
  by (simp add: airable_signal_locks_def available_locks_def finish_locks_def main_rule_def)

lemma main_follows_entries:
  assumes "distinct ks"
  shows "main_follows {} (main_locks i ks) = main_follows {} (airable_signal_locks i ks)"
  by (simp add: main_locks_def entry_locks_defs play_next_stream_locks_def try_play_next_stream_locks_def
      queue_stream_from_url_fifo_unlocked_locks_def try_refresh_uri_locks_def recover_from_error_now_or_later_locks_def
      do_encourage_buffering_locks_def main_block_recursive [where ks = ks] main_block_pipeline [where ks = ks]
      main_follows_parts [where ks = ks] main_follows_destroy main_follows_recovery main_follows_take_next
      main_follows_resolve [OF _ assms] del: follows_rule.simps)

lemma main_follows_rule: "distinct ks \<Longrightarrow> i \<notin> set ks \<Longrightarrow> main_follows {} (main_locks i ks)"
  by (simp add: main_follows_entries main_follows_signal)

section \<open>The streaming threads follow theirs\<close>

abbreviation streaming_follows :: "streamer_lock set \<Rightarrow> locks \<Rightarrow> bool" where
  "streaming_follows H \<equiv> list_all (follows_rule is_recursive streaming_rule H)"

lemma streaming_follows_resolve:
  assumes "H = {PipelineLock, FifoLock} \<union> PrivateCall ` J" "sorted ks" "distinct ks" "\<forall>j \<in> J. \<forall>k \<in> set ks. j < k"
  shows "streaming_follows H (resolve_selected_url_locks False PrivateCall ks)"
  using assms
proof (induction ks arbitrary: H J)
  case (Cons k ks)
  let ?H = "insert (PrivateCall k) H"
  have H: "PipelineLock \<in> H" "FifoLock \<in> H" "PrivateCall k \<notin> H" "CookieLock \<notin> ?H" using Cons.prems by auto
  have k: "streaming_rule H (PrivateCall k)"
    using Cons.prems by (auto simp: streaming_rule_def)
  have cookie: "streaming_rule ?H CookieLock"
    using Cons.prems(1) by (auto simp: streaming_rule_def)
  have "streaming_follows (insert FifoLock (insert PipelineLock ?H)) (resolve_selected_url_locks False PrivateCall ks)"
    by (rule Cons.IH [of _ "insert k J"]) (use Cons.prems in \<open>auto simp: less_le\<close>)
  then show ?case using H k cookie by (simp add: on_link_resolved_locks_def)
qed (simp add: on_link_resolved_locks_def)

lemma streaming_follows_rule:
  assumes "sorted ks" "distinct ks"
  shows "streaming_follows {} (streaming_locks False ks)"
  using streaming_follows_resolve [OF _ assms, of "{FifoLock, PipelineLock}" "{}"]
  by (simp add: streaming_locks_def queue_stream_from_url_fifo_locks_def setup_source_element_locks_def
      bus_sync_message_handler_locks_def streaming_rule_def insert_commute)

section \<open>The program\<close>

text \<open>Thread 0 is the main thread; each thread has its way through any sequence of its entry points
  before it.  The flag says whether a streaming thread may start the pipeline.\<close>
definition player_threads :: "bool \<Rightarrow> (nat, streamer_lock) lock_state \<Rightarrow> bool" where
  "player_threads may_start s \<longleftrightarrow>
     finite {t. \<not> finished s t} \<and>
     (\<exists>p tr. (\<forall>c \<in> set p. \<exists>i ks. distinct ks \<and> i \<notin> set ks \<and> c \<in> set (main_locks i ks)) \<and>
        lock_trace p tr \<and> s 0 = ([], tr)) \<and>
     (\<forall>t > 0. \<exists>p tr. (\<forall>c \<in> set p. \<exists>ks. sorted ks \<and> distinct ks \<and> c \<in> set (streaming_locks may_start ks)) \<and>
        lock_trace p tr \<and> s t = ([], tr))"

lemma player_threads_follow:
  assumes "player_threads False s"
  shows "lock_initial is_recursive (\<lambda>t. if t = 0 then main_rule else streaming_rule) s"
  unfolding lock_initial_def
proof (intro conjI allI)
  show "finite {t. \<not> finished s t}" using assms by (simp add: player_threads_def)
next
  fix t :: nat
  show "\<exists>p tr. list_all (follows_rule is_recursive (if t = 0 then main_rule else streaming_rule) {}) p \<and>
      lock_trace p tr \<and> s t = ([], tr)"
  proof (cases "t = 0")
    case True
    obtain p tr where p: "\<forall>c \<in> set p. \<exists>i ks. distinct ks \<and> i \<notin> set ks \<and> c \<in> set (main_locks i ks)"
        "lock_trace p tr" "s 0 = ([], tr)"
      using assms unfolding player_threads_def by blast
    have "main_follows {} p" using p(1) main_follows_rule by (fastforce simp: list_all_iff)
    then show ?thesis using True p by auto
  next
    case False
    obtain p tr where p: "\<forall>c \<in> set p. \<exists>ks. sorted ks \<and> distinct ks \<and> c \<in> set (streaming_locks False ks)"
        "lock_trace p tr" "s t = ([], tr)"
      using assms False unfolding player_threads_def by blast
    have "streaming_follows {} p" using p(1) streaming_follows_rule by (fastforce simp: list_all_iff)
    then show ?thesis using False p by auto
  qed
qed

lemma reachable_weaken:
  "reachable init step s \<Longrightarrow> (\<And>s. init s \<Longrightarrow> init' s) \<Longrightarrow> reachable init' step s"
  by (induction rule: reachable.induct) (auto intro: reachable.intros)

text \<open>C20. The threads of the player never block one another for good.  Let the main thread go through
  D-Bus methods and signals, messages and timers in any order, and any number of streaming threads
  through their callbacks, none of which has to start the pipeline; then, as far as the mutexes of the program are concerned, however the threads are
  interleaved, no set of them waits for one another in a circle, and while there is a thread with
  work to do, some thread gets on.\<close>
theorem threads_never_deadlock:
  assumes "reachable (player_threads False) (lock_step is_recursive) s"
  shows "\<not> deadlock s D \<and> (finished s t \<or> (\<exists>u s'. lock_step is_recursive s u s'))"
proof -
  have r: "reachable (lock_initial is_recursive (\<lambda>t. if t = 0 then main_rule else streaming_rule))
      (lock_step is_recursive) s"
    by (rule reachable_weaken [OF assms player_threads_follow])
  show ?thesis
    using streamer_locks.no_deadlock [OF streamer_locks.reachable_inv [OF r]]
      streamer_locks.some_thread_goes_on [OF r] by blast
qed

text \<open>The main thread in \<open>stop()\<close>, a streaming thread about to finish its stream.\<close>
definition sample_lock_state :: "bool \<Rightarrow> (nat, streamer_lock) lock_state" where
  "sample_lock_state may_start = (\<lambda>t.
     if t = 0 then ([], [Acquire ControlLock, Acquire PipelineLock, Release PipelineLock, Release ControlLock])
     else if t = 1 then
       ([], [Acquire PipelineLock, Acquire FifoLock] @
            (if may_start then [Acquire ControlLock, Release ControlLock] else []) @
            [Release FifoLock, Release PipelineLock])
     else ([], []))"

lemma lock_trace_skip: "lock_trace cs []"
  by (induction cs) (auto intro: lock_trace.intros)

lemma lock_trace_prefix: "lock_trace cs t \<Longrightarrow> lock_trace (ds @ cs) t"
  by (induction ds) (auto intro: lock_trace.intros)

lemma lock_trace_single: "lock_trace body b \<Longrightarrow> lock_trace (Locked l body # cs) (Acquire l # b @ [Release l])"
  using trace_block [of body b cs "[]" l] lock_trace_skip [of cs] by simp

lemma sample_main_trace:
  "lock_trace (stop_locks []) [Acquire ControlLock, Acquire PipelineLock, Release PipelineLock, Release ControlLock]"
  using lock_trace_single [OF lock_trace_single [OF lock_trace_skip]] by (force simp: stop_locks_def)

lemma sample_streaming_trace:
  "lock_trace (queue_stream_from_url_fifo_locks may_start []) (snd (sample_lock_state may_start 1))"
proof -
  have "lock_trace (on_link_resolved_locks True) (Acquire ControlLock # [] @ [Release ControlLock])"
  proof -
    have "lock_trace ((set_stream_state_locks @ [Locked PresentationLock []]) @
        Locked ControlLock [] # set_stream_state_locks @ boost_locks @ [Locked ControlLock []] @ boost_locks)
        (Acquire ControlLock # [] @ [Release ControlLock])"
      by (intro lock_trace_prefix lock_trace_single trace_end)
    then show ?thesis
      by (simp add: on_link_resolved_locks_def do_encourage_buffering_locks_def handle_buffer_underrun_locks_def)
  qed
  then have "lock_trace (on_link_resolved_locks may_start) (if may_start then [Acquire ControlLock, Release ControlLock] else [])"
    by (simp add: lock_trace_skip)
  from lock_trace_single [OF lock_trace_single [OF this]]
  show ?thesis by (force simp: queue_stream_from_url_fifo_locks_def sample_lock_state_def)
qed

lemma sample_lock_state_initial: "player_threads may_start (sample_lock_state may_start)"
  unfolding player_threads_def
proof (intro conjI allI impI)
  show "finite {t. \<not> finished (sample_lock_state may_start) t}"
    by (rule finite_subset [of _ "{0, 1}"]) (auto simp: finished_def sample_lock_state_def)
  show "\<exists>p tr. (\<forall>c \<in> set p. \<exists>i ks. distinct ks \<and> i \<notin> set ks \<and> c \<in> set (main_locks i ks)) \<and>
      lock_trace p tr \<and> sample_lock_state may_start 0 = ([], tr)"
  proof -
    have "set (stop_locks []) \<subseteq> set (main_locks 0 [])"
      unfolding main_locks_def set_append by blast
    then have "\<forall>c \<in> set (stop_locks []). \<exists>i ks. distinct ks \<and> i \<notin> set ks \<and> c \<in> set (main_locks i ks)"
      by (metis distinct.simps(1) empty_iff empty_set subsetD)
    then show ?thesis
      using sample_main_trace by (intro exI [of _ "stop_locks []"] exI conjI) (simp_all add: sample_lock_state_def)
  qed
  fix t :: nat assume "0 < t"
  show "\<exists>p tr. (\<forall>c \<in> set p. \<exists>ks. sorted ks \<and> distinct ks \<and> c \<in> set (streaming_locks may_start ks)) \<and>
      lock_trace p tr \<and> sample_lock_state may_start t = ([], tr)"
  proof (cases "t = 1")
    case True
    have "sample_lock_state may_start 1 = ([], snd (sample_lock_state may_start 1))"
      by (simp add: sample_lock_state_def)
    moreover have "\<forall>c \<in> set (queue_stream_from_url_fifo_locks may_start []).
        \<exists>ks. sorted ks \<and> distinct ks \<and> c \<in> set (streaming_locks may_start ks)"
      by (auto simp: streaming_locks_def intro!: exI [of _ "[]"])
    ultimately show ?thesis using sample_streaming_trace [of may_start] True by blast
  next
    case False
    then show ?thesis
      using \<open>0 < t\<close> by (intro exI [of _ "[]"]) (simp add: sample_lock_state_def trace_end)
  qed
qed

text \<open>The streaming thread takes the lock of the pipeline, the main thread that of the control data,
  and the streaming thread that of the queue.\<close>
definition sample_blocked :: "bool \<Rightarrow> (nat, streamer_lock) lock_state" where
  "sample_blocked may_start = (sample_lock_state may_start)
     (0 := ([ControlLock], [Acquire PipelineLock, Release PipelineLock, Release ControlLock]),
      1 := ([FifoLock, PipelineLock],
            (if may_start then [Acquire ControlLock, Release ControlLock] else []) @
            [Release FifoLock, Release PipelineLock]))"

lemma sample_blocked_reachable: "reachable (player_threads b) (lock_step is_recursive) (sample_blocked b)"
proof -
  let ?s = "sample_lock_state b"
  let ?r = "(if b then [Acquire ControlLock, Release ControlLock] else []) @ [Release FifoLock, Release PipelineLock]"
  let ?s1 = "?s(1 := ([PipelineLock], Acquire FifoLock # ?r))"
  let ?s2 = "?s1(0 := ([ControlLock], [Acquire PipelineLock, Release PipelineLock, Release ControlLock]))"
  have "lock_step is_recursive ?s 1 ?s1" by (rule step_acquire) (simp_all add: sample_lock_state_def)
  moreover have "lock_step is_recursive ?s1 0 ?s2" by (rule step_acquire) (simp_all add: sample_lock_state_def)
  moreover have "lock_step is_recursive ?s2 1 (?s2(1 := ([FifoLock, PipelineLock], ?r)))"
    by (rule step_acquire) (simp_all add: sample_lock_state_def)
  moreover have "?s2(1 := ([FifoLock, PipelineLock], ?r)) = sample_blocked b"
    by (rule ext) (simp add: sample_blocked_def)
  ultimately show ?thesis
    using reach_step [OF reach_step [OF reach_step [OF reach_init [of "player_threads b", OF sample_lock_state_initial]]]]
    by simp
qed

lemma threads_never_deadlock_witness:
  "\<not> deadlock (sample_blocked False) {0, 1} \<and> (\<exists>u s'. lock_step is_recursive (sample_blocked False) u s')"
  using threads_never_deadlock [OF sample_blocked_reachable, of "{0, 1}" 0]
  by (simp add: sample_blocked_def finished_def)

text \<open>If the next item is marked for a restart of the pipeline, then a streaming thread takes the lock
  of the control data while it holds those of the pipeline and the queue, in \<open>handle_buffer_underrun()\<close>.
  The public functions take them in the opposite order, and both threads wait for ever.\<close>
lemma restart_can_deadlock:
  "reachable (player_threads True) (lock_step is_recursive) (sample_blocked True)"
  "deadlock (sample_blocked True) {0, 1}"
  by (rule sample_blocked_reachable) (auto simp: deadlock_def waits_for_def sample_blocked_def)

text \<open>The restriction to items that are not marked is that of the code: then the function that passes
  a URL to the pipeline does not look at its state.\<close>
lemma unmarked_prefetch_starts_nothing:
  assumes "get_item stream s = Some it" "\<not> start_required_after_resolve it"
    "on_link_resolved E changed stream next_state True s = Some (ok, s')"
  shows "stream_buffering_data (pl s') = stream_buffering_data (pl s)" "pr s' = pr s"
    "threads s' = threads s" "ctl s' = ctl s"
  using assms
  by (cases stream; cases "pipeline (pl s)";
      auto simp: on_link_resolved_def is_pipeline_start_required_def set_pipeline_uri_def Let_def
        bind_eq_Some_conv put_item_def set_world_def split: if_splits)+

text \<open>The resolver of an item is not interrupted there, so that no other call's mutex is taken.\<close>
lemma unresolved_link_has_no_resolver: "get_selected_url_state it = Some KNOWN_AIRABLE_LINK \<Longrightarrow> resolver it = None"
  by (auto simp: get_selected_url_state_def split: if_splits)

end
