(* ===== verification/Streamer_Defects.thy ===== *)
theory Streamer_Defects
  imports Streamer_Links Streamer_Order
begin

text \<open>
  Where the code does not do what it means to: each lemma computes, in the model, an input on which
  \<^verbatim>\<open>src/streamer.cc\<close> crashes, loses a stream, or gives a wrong answer.  The theorems on the
  absence of crashes have the hypotheses that these inputs violate.
\<close>

lemma late_link_crashes:
  "streamer_run cookie_env True [OpAboutToFinish 1, OpBus (SrcPipeline 1) MsgEos] link_queued \<noteq> None"
  "streamer_run cookie_env True [OpAboutToFinish 1, OpBus (SrcPipeline 1) MsgEos, OpDataAvailable [5]] link_queued = None"
  by code_simp+

lemma failed_request_unnoticed:
  "case streamer_apply (sample_env\<lparr>air_resolve_redirect := (\<lambda>u w. (None, w))\<rparr>) (OpAboutToFinish 1) link_queued of
     None \<Rightarrow> False
   | Some s \<Rightarrow> map cstate (map rnf (calls (rnfs s))) = [CALL_FAILED] \<and>
       map get_selected_url_state (queue (fifo s)) = [Some RESOLVING_LINK] \<and> trace s = []"
  by code_simp

lemma skip_while_starting:
  "case fifo_next sample_env (sample_playing\<lparr>pl := (pl sample_playing)
      \<lparr>current_stream := Some (direct_item 257 ABOUT_TO_ACTIVATE)\<rparr>\<rparr>) of
     None \<Rightarrow> False
   | Some ((ids, status), s) \<Rightarrow> ids = Some (257, UINT32_MAX) \<and>
       map_option item_state (current_stream (pl s)) = Some ABOUT_TO_BE_SKIPPED \<and> map item_state (queue (fifo s)) = [IN_QUEUE]"
  by code_simp

lemma inactive_next: "fifo_next sample_env (sample_playing\<lparr>ctl := control_init\<rparr>)
     = Some ((None, STOPPED), sample_playing\<lparr>ctl := control_init\<rparr>)"
  by (simp add: fifo_next_def next_stream_def control_init_def)

lemma start_of_stream_without_stream: "handle_start_of_stream sample_env (SrcPipeline 1) sample_streamer = None"
  by code_simp

definition gapless_failed :: "gst_state streamer" where
  "gapless_failed = sample_playing\<lparr>fifo := (queue_init 5)\<lparr>queue := [direct_item 258 ABOUT_TO_ACTIVATE
     \<lparr>item_urls := \<lparr>urls = [url_direct [] ''http://next''], selected_url = 0\<rparr>\<rparr>]\<rparr>,
     pl := (pl sample_playing)\<lparr>current_stream := Some (direct_item 257 ABOUT_TO_PHASE_OUT
       \<lparr>item_urls := \<lparr>urls = [url_direct [] ''http://a'', url_direct [] ''http://b''], selected_url = 0\<rparr>\<rparr>)\<rparr>\<rparr>"

definition next_uri_env :: "gst_state streamer_env" where
  "next_uri_env = sample_env\<lparr>gst_get_current_uri := (\<lambda>p w. Some ''http://next'')\<rparr>"

lemma gapless_retry_loses_stream:
  "case handle_error_message next_uri_env (SrcPipeline 1) (ResourceError RESOURCE_READ) gapless_failed of
     None \<Rightarrow> False
   | Some s \<Rightarrow> playlist s = [257] \<and> removed (fifo s) = [] \<and> dropped (fifo s) = {}"
  by code_simp

lemma gapless_error_without_current:
  "handle_error_message next_uri_env (SrcPipeline 1) (ResourceError RESOURCE_READ)
     (gapless_failed\<lparr>pl := (pl gapless_failed)\<lparr>current_stream := None\<rparr>\<rparr>) = None"
  by code_simp

lemma prefailed_without_next:
  "handle_error_message (sample_env\<lparr>gst_get_current_uri := (\<lambda>p w. None)\<rparr>) (SrcPipeline 1) (ResourceError RESOURCE_READ)
     (sample_playing\<lparr>fifo := queue_init 5, pl := (pl sample_playing)\<lparr>current_stream := Some
        (direct_item 257 ACTIVE_NOW_PLAYING\<lparr>prefail_reason := WRONG_TYPE\<rparr>)\<rparr>\<rparr>) = None"
  by code_simp

lemma seek_overflow: "seek sample_env 9223372037 ''s'' sample_playing = None"
  by code_simp

lemma stream_without_url_crashes:
  "case streamer_apply sample_env (OpFifoPush 99 259 [] ''k'' 0 []) sample_playing of
    None \<Rightarrow> False | Some s \<Rightarrow> (case streamer_apply sample_env OpFifoNext s of None \<Rightarrow> False
     | Some s' \<Rightarrow> playlist s' = [259] \<and> streamer_apply sample_env OpStop s' = None)"
  by code_simp

lemma other_device_removed:
  "case remove_items_for_root_path (sample_env\<lparr>filename_from_uri := (\<lambda>u. Some (drop 7 u))\<rparr>) ''/mnt/usb1''
     (sample_playing\<lparr>pl := (pl sample_playing)\<lparr>current_stream := Some (direct_item 257 ACTIVE_NOW_PLAYING
       \<lparr>item_urls := \<lparr>urls = [url_direct [] ''file:///mnt/usb10/a''], selected_url = 0\<rparr>\<rparr>)\<rparr>\<rparr>) of
    None \<Rightarrow> False | Some (_, s) \<Rightarrow> playlist s = []"
  by code_simp

definition no_playbin_env :: "gst_state streamer_env" where
  "no_playbin_env = sample_env\<lparr>gst_make_playbin := (\<lambda>w. (None, w))\<rparr>"

lemma failed_rebuild_crashes:
  "case handle_error_message no_playbin_env (SrcPipeline 1) (ResourceError RESOURCE_READ) sample_playing of
     None \<Rightarrow> False
   | Some s \<Rightarrow> pipeline (pl s) = None \<and> start no_playbin_env s = None \<and> deactivate no_playbin_env s = None"
  by code_simp

end
