(* ===== verification/Object_Heap.thy ===== *)
theory Object_Heap
  imports Prelude
begin

text \<open>
  Reference counted objects of GLib and GStreamer, which \<^verbatim>\<open>src/streamer.cc\<close> and
  \<^verbatim>\<open>src/streamdata.hh\<close> hold by raw pointers.  The functions of the library are parameters: a
  record of type \<open>object_lib\<close>.  The locale \<open>counted_objects\<close> states what is documented of them: an object that
  is given up for the last time is gone, its address may be used again for the next object, and taking or
  giving up a reference to an object that is gone, or reading it, is a crash.

  The references that a program has to give up again are its property.  If the reference counts are
  those of a multiset of owned references, then they are those of the multiset after the operation, and what
  is owned can be used.  The theory ends with a library that satisfies the laws: a heap of slots, with any
  allocator.
\<close>

section \<open>The library\<close>

type_synonym obj = nat

text \<open>The memory is a value of type \<open>'h\<close>, an object's contents one of type \<open>'a\<close>; \<open>lib_refs\<close> is the
  reference count of the object at an address, 0 if there is none.\<close>
record ('h, 'a) object_lib =
  lib_new :: "'a \<Rightarrow> 'h \<Rightarrow> obj \<times> 'h"
  lib_ref :: "obj \<Rightarrow> 'h \<Rightarrow> 'h option"
  lib_unref :: "obj \<Rightarrow> 'h \<Rightarrow> 'h option"
  lib_read :: "'h \<Rightarrow> obj \<Rightarrow> 'a option"
  lib_refs :: "'h \<Rightarrow> obj \<Rightarrow> nat"

text \<open>\<open>if(p != nullptr) unref(p)\<close>.\<close>
definition unref_if :: "('h, 'a) object_lib \<Rightarrow> obj option \<Rightarrow> 'h \<Rightarrow> 'h option" where
  "unref_if L p h = (case p of None \<Rightarrow> Some h | Some q \<Rightarrow> lib_unref L q h)"

section \<open>Ownership\<close>

text \<open>What a pointer that may be null owns.\<close>
definition owned :: "obj option \<Rightarrow> obj multiset" where
  "owned p = (case p of None \<Rightarrow> {#} | Some q \<Rightarrow> {#q#})"

lemma owned_simps [simp]: "owned None = {#}" "owned (Some p) = {#p#}"
  by (simp_all add: owned_def)

text \<open>The objects of others are the same as before.\<close>
definition keeps :: "('h, 'a) object_lib \<Rightarrow> obj multiset \<Rightarrow> 'h \<Rightarrow> 'h \<Rightarrow> bool" where
  "keeps L M h h' \<longleftrightarrow> (\<forall>q \<in># M. lib_read L h' q = lib_read L h q)"

lemma keeps_refl [simp]: "keeps L M h h"
  by (simp add: keeps_def)

lemma keeps_trans: "keeps L M h h' \<Longrightarrow> keeps L M h' h'' \<Longrightarrow> keeps L M h h''"
  by (simp add: keeps_def)

lemma keeps_mono: "keeps L N h h' \<Longrightarrow> M \<subseteq># N \<Longrightarrow> keeps L M h h'"
  by (auto simp: keeps_def dest: mset_subset_eqD)

text \<open>What one of several owners owns is owned by all of them together.\<close>
lemma owned_by_one: "x \<in> set xs \<Longrightarrow> f x \<subseteq># sum_list (map f xs)" for f :: "'b \<Rightarrow> obj multiset"
  by (induction xs) (auto intro: subset_mset.add_increasing subset_mset.add_increasing2)

locale counted_objects =
  fixes L :: "('h, 'a) object_lib"
  assumes read_None: "lib_read L h p = None \<longleftrightarrow> lib_refs L h p = 0"
    and new_counts: "lib_new L a h = (p, h') \<Longrightarrow>
      lib_refs L h p = 0 \<and> lib_refs L h' = (lib_refs L h)(p := 1) \<and> lib_read L h' = (lib_read L h)(p \<mapsto> a)"
    and ref_counts: "0 < lib_refs L h p \<Longrightarrow>
      \<exists>h'. lib_ref L p h = Some h' \<and> lib_refs L h' = (lib_refs L h)(p := Suc (lib_refs L h p)) \<and>
        lib_read L h' = lib_read L h"
    and unref_counts: "0 < lib_refs L h p \<Longrightarrow>
      \<exists>h'. lib_unref L p h = Some h' \<and> lib_refs L h' = (lib_refs L h)(p := lib_refs L h p - 1) \<and>
        (\<forall>q. q \<noteq> p \<or> 1 < lib_refs L h p \<longrightarrow> lib_read L h' q = lib_read L h q)"
    and gone: "lib_refs L h p = 0 \<Longrightarrow> lib_ref L p h = None \<and> lib_unref L p h = None"
begin

lemma owned_read: "lib_refs L h = count M \<Longrightarrow> lib_read L h p \<noteq> None \<longleftrightarrow> p \<in># M"
  using read_None [of h p] by (simp add: count_eq_zero_iff)

lemma counted_new:
  assumes "lib_refs L h = count N" "lib_new L a h = (p, h')"
  shows "lib_refs L h' = count (add_mset p N)" "keeps L N h h'" "lib_read L h' p = Some a" "p \<notin># N"
  using new_counts [OF assms(2)] assms(1) by (auto simp: count_eq_zero_iff keeps_def)

lemma counted_ref:
  assumes "lib_refs L h = count N" "p \<in># N"
  shows "\<exists>h'. lib_ref L p h = Some h' \<and> lib_refs L h' = count (add_mset p N) \<and> lib_read L h' = lib_read L h"
  using ref_counts [of h p] assms by (auto simp: fun_eq_iff)

lemma counted_unref:
  assumes "lib_refs L h = count (add_mset p N)"
  shows "\<exists>h'. lib_unref L p h = Some h' \<and> lib_refs L h' = count N \<and> keeps L N h h'"
proof -
  obtain h' where h': "lib_unref L p h = Some h'" "lib_refs L h' = (lib_refs L h)(p := lib_refs L h p - 1)"
    "\<And>q. q \<noteq> p \<or> 1 < lib_refs L h p \<Longrightarrow> lib_read L h' q = lib_read L h q"
    using unref_counts [of h p] assms by auto
  have "lib_refs L h' = count N" using h'(2) assms by (auto simp: fun_eq_iff)
  moreover have "lib_read L h' q = lib_read L h q" if "q \<in># N" for q
    by (rule h'(3)) (use that assms in \<open>cases "q = p"; auto\<close>)
  ultimately show ?thesis using h'(1) by (auto simp: keeps_def)
qed

lemma counted_unref_if:
  "lib_refs L h = count (owned p + N) \<Longrightarrow>
     \<exists>h'. unref_if L p h = Some h' \<and> lib_refs L h' = count N \<and> keeps L N h h'"
  using counted_unref [of h] by (cases p) (auto simp: unref_if_def)

text \<open>An object that is made and given up again.\<close>
lemma counted_temporary:
  assumes "lib_refs L h = count N" "lib_new L a h = (p, h1)"
  shows "\<exists>h2. lib_unref L p h1 = Some h2 \<and> lib_refs L h2 = count N \<and> keeps L N h h2"
proof -
  obtain h2 where "lib_unref L p h1 = Some h2" "lib_refs L h2 = count N" "keeps L N h1 h2"
    using counted_unref [OF counted_new(1) [OF assms]] by blast
  then show ?thesis using keeps_trans [OF counted_new(2) [OF assms]] by blast
qed

end

section \<open>A heap\<close>

text \<open>A slot holds an object with the number of references to it besides the first one.\<close>
type_synonym 'a heap = "('a \<times> nat) option list"

definition lookup_obj :: "'a heap \<Rightarrow> obj \<Rightarrow> ('a \<times> nat) option" where
  "lookup_obj h p = (if p < length h then h ! p else None)"

text \<open>The allocator may choose any free slot, in particular one that was used before.  A slot that is in
  use cannot be chosen; the end of the heap is taken instead.\<close>
type_synonym 'a allocator = "'a heap \<Rightarrow> obj"

definition free_address :: "'a allocator \<Rightarrow> 'a heap \<Rightarrow> obj" where
  "free_address A h = (if A h < length h \<and> h ! A h = None then A h else length h)"

definition heap_lib :: "'a allocator \<Rightarrow> ('a heap, 'a) object_lib" where
  "heap_lib A =
     \<lparr>lib_new = (\<lambda>a h. let p = free_address A h
        in (p, if p < length h then h[p := Some (a, 0)] else h @ [Some (a, 0)])),
      lib_ref = (\<lambda>p h. do { (a, n) \<leftarrow> lookup_obj h p; Some (h[p := Some (a, Suc n)]) }),
      lib_unref = (\<lambda>p h. do { (a, n) \<leftarrow> lookup_obj h p;
        Some (h[p := (case n of 0 \<Rightarrow> None | Suc m \<Rightarrow> Some (a, m))]) }),
      lib_read = (\<lambda>h p. map_option fst (lookup_obj h p)),
      lib_refs = (\<lambda>h p. case lookup_obj h p of None \<Rightarrow> 0 | Some (_, n) \<Rightarrow> Suc n)\<rparr>"

text \<open>The allocator that takes the first free slot.\<close>
definition first_fit :: "'a allocator" where
  "first_fit h = length (takeWhile (\<lambda>x. x \<noteq> None) h)"

lemma lookup_new:
  "lib_new (heap_lib A) a h = (p, h') \<Longrightarrow> lookup_obj h p = None \<and> lookup_obj h' = (lookup_obj h)(p \<mapsto> (a, 0))"
  by (auto simp: heap_lib_def free_address_def lookup_obj_def Let_def fun_eq_iff nth_append split: if_splits)

lemma lookup_update:
  "lookup_obj h p = Some y \<Longrightarrow> lookup_obj (h[p := x]) = (lookup_obj h)(p := x)"
  by (auto simp: lookup_obj_def fun_eq_iff split: if_splits)

lemma heap_lib_sel:
  "lib_ref (heap_lib A) p h = lookup_obj h p \<bind> (\<lambda>(a, n). Some (h[p := Some (a, Suc n)]))"
  "lib_unref (heap_lib A) p h = lookup_obj h p \<bind>
     (\<lambda>(a, n). Some (h[p := (case n of 0 \<Rightarrow> None | Suc m \<Rightarrow> Some (a, m))]))"
  "lib_read (heap_lib A) h p = map_option fst (lookup_obj h p)"
  "lib_refs (heap_lib A) h p = (case lookup_obj h p of None \<Rightarrow> 0 | Some (_, n) \<Rightarrow> Suc n)"
  by (simp_all add: heap_lib_def)

interpretation objects: counted_objects "heap_lib A"
proof (unfold_locales, goal_cases)
  case (1 h p)
  show ?case by (auto simp: heap_lib_sel split: option.splits)
next
  case (2 a h p h')
  show ?case using lookup_new [OF 2] by (auto simp: heap_lib_sel fun_eq_iff)
next
  case (3 h p)
  then obtain a n where l: "lookup_obj h p = Some (a, n)"
    by (auto simp: heap_lib_sel split: option.splits)
  show ?case
    using l lookup_update [OF l, of "Some (a, Suc n)"] by (auto simp: heap_lib_sel fun_eq_iff)
next
  case (4 h p)
  then obtain a n where l: "lookup_obj h p = Some (a, n)"
    by (auto simp: heap_lib_sel split: option.splits)
  show ?case
    using l lookup_update [OF l, of "case n of 0 \<Rightarrow> None | Suc m \<Rightarrow> Some (a, m)"]
    by (auto simp: heap_lib_sel fun_eq_iff split: nat.splits)
next
  case (5 h p)
  then show ?case by (auto simp: heap_lib_sel split: option.splits)
qed

end
