(* ===== verification/Meta_Data_Refs.thy ===== *)
theory Meta_Data_Refs
  imports Object_Heap Stream_Data Streamer_State
begin

text \<open>
  The objects behind the meta data of streams: class \<open>StreamData\<close> of \<^verbatim>\<open>src/streamdata.hh\<close> with
  its pointers to tag lists, and the functions of \<^verbatim>\<open>src/streamer.cc\<close> that take and give up
  references to tag lists, samples and variants.  Theory \<open>Stream_Data\<close> has the same class with tag
  lists as values; the theorems say that this is what the pointers amount to.

  \<open>gst_message_parse_tag()\<close>, \<open>gst_tag_list_get_sample()\<close> and the functions that make new objects give
  references which the caller has to give up.  \<open>gst_tag_list_merge()\<close> takes nothing from its caller.  A
  new \<open>GVariant\<close> is floating: whoever it is passed to gives it up, so it is lost if it is not passed on.
\<close>

section \<open>The class\<close>

datatype md_object = TagListObj tag_list | SampleObj gst_sample | VariantObj string_pairs

text \<open>The members that are no pointers are those of the record with values.\<close>
record stream_data_obj =
  tag_list_ptr :: "obj option"
  preset_ptr :: "obj option"
  members :: stream_data

definition tags_at :: "('h, md_object) object_lib \<Rightarrow> 'h \<Rightarrow> obj \<Rightarrow> tag_list option" where
  "tags_at L h p = (case lib_read L h p of Some (TagListObj tgs) \<Rightarrow> Some tgs | _ \<Rightarrow> None)"

definition stream_data_new :: "obj option \<Rightarrow> string \<Rightarrow> string_pairs \<Rightarrow> stream_key \<Rightarrow> stream_data_obj" where
  "stream_data_new preset cover extra key =
     \<lparr>tag_list_ptr = None, preset_ptr = preset, members = stream_data_init None cover extra key\<rparr>"

definition stream_data_delete :: "('h, md_object) object_lib \<Rightarrow> stream_data_obj \<Rightarrow> 'h \<Rightarrow> 'h option" where
  "stream_data_delete L d h = do { h1 \<leftarrow> unref_if L (tag_list_ptr d) h; unref_if L (preset_ptr d) h1 }"

definition clear_meta_data_obj ::
  "('h, md_object) object_lib \<Rightarrow> stream_data_obj \<Rightarrow> 'h \<Rightarrow> (stream_data_obj \<times> 'h) option" where
  "clear_meta_data_obj L d h =
     do { h1 \<leftarrow> unref_if L (tag_list_ptr d) h;
          tgs \<leftarrow> (case preset_ptr d of Some q \<Rightarrow> tags_at L h1 q | None \<Rightarrow> Some []);
          let (p, h2) = lib_new L (TagListObj tgs) h1;
          Some (d\<lparr>tag_list_ptr := Some p,
                  members := (members d)\<lparr>big_image := image_sent_init, preview_image := image_sent_init\<rparr>\<rparr>, h2) }"

definition merge_tag_list_obj ::
  "('h, md_object) object_lib \<Rightarrow> tag_env \<Rightarrow> obj option \<Rightarrow> stream_data_obj \<Rightarrow> 'h
     \<Rightarrow> (stream_data_obj \<times> 'h) option" where
  "merge_tag_list_obj L T tags d h =
     (case tags of
        None \<Rightarrow> Some (d, h)
      | Some q \<Rightarrow>
          (case tag_list_ptr d of
             Some p \<Rightarrow>
               do { a \<leftarrow> tags_at L h p;
                    b \<leftarrow> tags_at L h q;
                    let (merged, h1) = lib_new L (TagListObj (tag_merge_prepend T a b)) h;
                    h2 \<leftarrow> lib_unref L p h1;
                    Some (d\<lparr>tag_list_ptr := Some merged\<rparr>, h2) }
           | None \<Rightarrow> do { h1 \<leftarrow> lib_ref L q h; Some (d\<lparr>tag_list_ptr := Some q\<rparr>, h1) }))"

text \<open>\<open>get_tag_list()\<close>, read by its caller.\<close>
definition get_tag_list :: "('h, md_object) object_lib \<Rightarrow> stream_data_obj \<Rightarrow> 'h \<Rightarrow> tag_list option option" where
  "get_tag_list L d h =
     (case tag_list_ptr d of None \<Rightarrow> Some None | Some p \<Rightarrow> map_option Some (tags_at L h p))"

section \<open>Its users\<close>

text \<open>\<open>update_picture_for_item()\<close>: each sample is given up on every way through the loop.\<close>
fun update_picture_obj ::
  "('h, md_object) object_lib \<Rightarrow> (string \<times> nat \<times> bool) list \<Rightarrow> obj \<Rightarrow> stream_data_obj \<Rightarrow> 'h
     \<Rightarrow> ((stream_key \<times> 8 word \<times> nat \<times> nat) list \<times> stream_data_obj \<times> 'h) option" where
  "update_picture_obj L [] p d h = Some ([], d, h)"
| "update_picture_obj L ((tag, prio, is_big) # rest) p d h =
     do { tgs \<leftarrow> tags_at L h p;
          case get_sample (Some tgs) tag of
            None \<Rightarrow> update_picture_obj L rest p d h
          | Some sample \<Rightarrow>
              (case lib_new L (SampleObj sample) h of (q, h1) \<Rightarrow>
                 if s_caps sample = None
                 then do { h2 \<leftarrow> lib_unref L q h1; update_picture_obj L rest p d h2 }
                 else case get_image_tag_type (s_caps sample) of
                        IMAGE_TAG_TYPE_RAW_DATA \<Rightarrow>
                          (case send_image_data_to_cover_art_cache sample is_big prio (members d) of (sent, m) \<Rightarrow>
                             do { h2 \<leftarrow> lib_unref L q h1;
                                  (sents, d1, h3) \<leftarrow> update_picture_obj L rest p (d\<lparr>members := m\<rparr>) h2;
                                  Some (case sent of None \<Rightarrow> sents | Some s \<Rightarrow> s # sents, d1, h3) })
                      | IMAGE_TAG_TYPE_NONE \<Rightarrow> do { h2 \<leftarrow> lib_unref L q h1; update_picture_obj L rest p d h2 }
                      | IMAGE_TAG_TYPE_URI \<Rightarrow> do { h2 \<leftarrow> lib_unref L q h1; update_picture_obj L rest p d h2 }) }"

text \<open>\<open>emit_tags__unlocked()\<close>: the tags that are sent, if any, and the variants nobody gives up.\<close>
definition emit_tags_obj ::
  "('h, md_object) object_lib \<Rightarrow> stream_id \<Rightarrow> int \<Rightarrow> stream_id \<Rightarrow> stream_data_obj \<Rightarrow> throttled_update
     \<Rightarrow> 'h \<Rightarrow> (string_pairs option \<times> obj list \<times> throttled_update \<times> 'h) option" where
  "emit_tags_obj L invalid now sid d u h =
     do { tgs \<leftarrow> get_tag_list L d h;
          let meta_data = tag_list_to_g_variant tgs (extra_tag_list (members d));
          let (v, h1) = lib_new L (VariantObj meta_data) h;
          let (ok, u1) = try_emit_for_stream_id invalid sid u;
          if ok then do { h2 \<leftarrow> lib_unref L v h1; Some (Some meta_data, [], emitted_tags_timed now u1, h2) }
          else Some (None, [v], u1, h1) }"

text \<open>\<open>handle_tag()\<close> with a current stream.\<close>
definition handle_tag_obj ::
  "('h, md_object) object_lib \<Rightarrow> tag_env \<Rightarrow> stream_id \<Rightarrow> int \<Rightarrow> tag_list \<Rightarrow> stream_id \<Rightarrow> stream_data_obj \<Rightarrow> throttled_update
     \<Rightarrow> 'h \<Rightarrow> (stream_data_obj \<times> (stream_key \<times> 8 word \<times> nat \<times> nat) list \<times> string_pairs option
          \<times> obj list \<times> throttled_update \<times> 'h) option" where
  "handle_tag_obj L T invalid now tags sid d u h =
     (case lib_new L (TagListObj tags) h of (p, h1) \<Rightarrow>
        do { (images, d1, h2) \<leftarrow> update_picture_obj L image_tags p d h1;
             (d2, h3) \<leftarrow> merge_tag_list_obj L T (Some p) d1 h2;
             h4 \<leftarrow> lib_unref L p h3;
             case try_emit_tags now u of (allowed, timer, u1) \<Rightarrow>
               if allowed
               then do { (sent, lost, u2, h5) \<leftarrow> emit_tags_obj L invalid now sid d2 u1 h4;
                         Some (d2, images, sent, lost, u2, h5) }
               else Some (d2, images, None, [], u1, h4) })"

text \<open>\<open>emit_now_playing()\<close>: the variant is always passed on.\<close>
definition emit_now_playing_obj ::
  "('h, md_object) object_lib \<Rightarrow> stream_data_obj \<Rightarrow> 'h \<Rightarrow> (string_pairs \<times> 'h) option" where
  "emit_now_playing_obj L d h =
     do { tgs \<leftarrow> get_tag_list L d h;
          let meta_data = tag_list_to_g_variant tgs (extra_tag_list (members d));
          let (v, h1) = lib_new L (VariantObj meta_data) h;
          h2 \<leftarrow> lib_unref L v h1;
          Some (meta_data, h2) }"

text \<open>The part of \<open>push_item()\<close> that makes the tag list of a new item, and the item's meta data.\<close>
definition new_item_data ::
  "('h, md_object) object_lib \<Rightarrow> tag_env \<Rightarrow> string_pairs \<Rightarrow> stream_key \<Rightarrow> 'h
     \<Rightarrow> stream_data_obj \<times> 'h" where
  "new_item_data L T md key h =
     (case g_variant_to_tag_list T md of (list, cover, extra) \<Rightarrow>
        case list of
          None \<Rightarrow> (stream_data_new None cover extra key, h)
        | Some tgs \<Rightarrow>
            (case lib_new L (TagListObj tgs) h of (p, h1) \<Rightarrow> (stream_data_new (Some p) cover extra key, h1)))"

section \<open>What the pointers amount to\<close>

definition data_owned :: "stream_data_obj \<Rightarrow> obj multiset" where
  "data_owned d = owned (tag_list_ptr d) + owned (preset_ptr d)"

definition data_typed :: "('h, md_object) object_lib \<Rightarrow> 'h \<Rightarrow> stream_data_obj \<Rightarrow> bool" where
  "data_typed L h d \<longleftrightarrow> (\<forall>p \<in># data_owned d. tags_at L h p \<noteq> None)"

definition tags_value :: "('h, md_object) object_lib \<Rightarrow> 'h \<Rightarrow> obj option \<Rightarrow> tag_list option" where
  "tags_value L h p = (case p of None \<Rightarrow> None | Some q \<Rightarrow> tags_at L h q)"

definition data_value :: "('h, md_object) object_lib \<Rightarrow> 'h \<Rightarrow> stream_data_obj \<Rightarrow> stream_data" where
  "data_value L h d = (members d)\<lparr>sd_tag_list := tags_value L h (tag_list_ptr d),
     preset_tag_list := tags_value L h (preset_ptr d)\<rparr>"

lemma keeps_tags: "keeps L M h h' \<Longrightarrow> q \<in># M \<Longrightarrow> tags_at L h' q = tags_at L h q"
  by (simp add: keeps_def tags_at_def)

lemma keeps_data:
  assumes "keeps L M h h'" "data_owned d \<subseteq># M"
  shows "data_typed L h' d = data_typed L h d" "data_value L h' d = data_value L h d"
proof -
  have "tags_at L h' q = tags_at L h q" if "q \<in># data_owned d" for q
    using keeps_tags [OF assms(1) mset_subset_eqD [OF assms(2) that]] .
  then show "data_typed L h' d = data_typed L h d" "data_value L h' d = data_value L h d"
    by (auto simp: data_typed_def data_value_def data_owned_def tags_value_def split: option.splits)
qed

section \<open>Each operation\<close>

locale md_objects = counted_objects L for L :: "('h, md_object) object_lib"
begin

lemma tags_at_new: "lib_read L h p = Some (TagListObj tgs) \<Longrightarrow> tags_at L h p = Some tgs"
  by (simp add: tags_at_def)

lemma delete_ok:
  assumes "lib_refs L h = count (data_owned d + M)"
  shows "\<exists>h'. stream_data_delete L d h = Some h' \<and> lib_refs L h' = count M \<and> keeps L M h h'"
proof -
  obtain h1 where h1: "unref_if L (tag_list_ptr d) h = Some h1" "lib_refs L h1 = count (owned (preset_ptr d) + M)"
    "keeps L (owned (preset_ptr d) + M) h h1"
    using counted_unref_if [of h "tag_list_ptr d" "owned (preset_ptr d) + M"] assms
    by (auto simp: data_owned_def ac_simps)
  obtain h2 where "unref_if L (preset_ptr d) h1 = Some h2" "lib_refs L h2 = count M" "keeps L M h1 h2"
    using counted_unref_if [OF h1(2)] by blast
  then show ?thesis
    using h1 keeps_trans [OF keeps_mono [OF h1(3)]] by (auto simp: stream_data_delete_def)
qed

lemma clear_ok:
  assumes "lib_refs L h = count (data_owned d + M)" "data_typed L h d"
  shows "\<exists>d' h'. clear_meta_data_obj L d h = Some (d', h') \<and> lib_refs L h' = count (data_owned d' + M) \<and>
    keeps L M h h' \<and> data_typed L h' d' \<and> data_value L h' d' = clear_meta_data (data_value L h d)"
proof -
  let ?N = "owned (preset_ptr d) + M"
  obtain h1 where h1: "unref_if L (tag_list_ptr d) h = Some h1" "lib_refs L h1 = count ?N" "keeps L ?N h h1"
    using counted_unref_if [of h "tag_list_ptr d" ?N] assms(1) by (auto simp: data_owned_def ac_simps)
  have preset: "tags_value L h1 (preset_ptr d) = tags_value L h (preset_ptr d)"
    "preset_ptr d \<noteq> None \<Longrightarrow> tags_value L h (preset_ptr d) \<noteq> None"
    using keeps_tags [OF h1(3)] assms(2)
    by (auto simp: tags_value_def data_typed_def data_owned_def split: option.splits)
  define tgs where "tgs = (case tags_value L h (preset_ptr d) of None \<Rightarrow> [] | Some t \<Rightarrow> t)"
  obtain p h2 where new: "lib_new L (TagListObj tgs) h1 = (p, h2)" by force
  note h2 = counted_new [OF h1(2) new]
  have preset2: "tags_value L h2 (preset_ptr d) = tags_value L h (preset_ptr d)"
    using preset(1) keeps_tags [OF h2(2)] by (auto simp: tags_value_def split: option.splits)
  have "(case preset_ptr d of Some q \<Rightarrow> tags_at L h1 q | None \<Rightarrow> Some []) = Some tgs"
    using preset by (auto simp: tgs_def tags_value_def split: option.splits)
  then have eq: "clear_meta_data_obj L d h = Some (d\<lparr>tag_list_ptr := Some p,
      members := (members d)\<lparr>big_image := image_sent_init, preview_image := image_sent_init\<rparr>\<rparr>, h2)"
    using h1(1) new by (simp add: clear_meta_data_obj_def)
  show ?thesis
    unfolding eq
    using h2 preset2 preset(2) keeps_trans [OF keeps_mono [OF h1(3), of M] keeps_mono [OF h2(2), of M]]
    by (auto simp: data_owned_def data_typed_def data_value_def clear_meta_data_def tgs_def tags_at_new
        tags_value_def ac_simps split: option.splits)
qed

lemma merge_ok:
  assumes "lib_refs L h = count (data_owned d + M)" "data_typed L h d" "q \<in># M" "tags_at L h q = Some b"
  shows "\<exists>d' h'. merge_tag_list_obj L T (Some q) d h = Some (d', h') \<and>
    lib_refs L h' = count (data_owned d' + M) \<and> keeps L M h h' \<and> data_typed L h' d' \<and>
    data_value L h' d' = merge_tag_list T (Some b) (data_value L h d)"
proof (cases "tag_list_ptr d")
  case None
  obtain h1 where h1: "lib_ref L q h = Some h1" "lib_refs L h1 = count (add_mset q (data_owned d + M))" "lib_read L h1 = lib_read L h"
    using counted_ref [OF assms(1), of q] assms(3) by auto
  then have "tags_at L h1 = tags_at L h" by (simp add: tags_at_def fun_eq_iff)
  then show ?thesis
    using None h1 assms(2,4)
    by (auto simp: merge_tag_list_obj_def merge_tag_list_def data_owned_def data_typed_def data_value_def
        tags_value_def keeps_def ac_simps split: option.splits)
next
  case (Some p)
  let ?N = "owned (preset_ptr d) + M"
  obtain a where a: "tags_at L h p = Some a"
    using assms(2) Some by (auto simp: data_typed_def data_owned_def)
  obtain m h1 where new: "lib_new L (TagListObj (tag_merge_prepend T a b)) h = (m, h1)" by force
  note h1 = counted_new [OF assms(1) new]
  obtain h2 where h2: "lib_unref L p h1 = Some h2" "lib_refs L h2 = count (add_mset m ?N)" "keeps L (add_mset m ?N) h1 h2"
    using counted_unref [of h1 p "add_mset m ?N"] h1(1) Some by (auto simp: data_owned_def ac_simps add_mset_commute)
  have k: "keeps L ?N h h2"
    using keeps_trans [OF keeps_mono [OF h1(2)] keeps_mono [OF h2(3)], of ?N] by (simp add: data_owned_def)
  have m: "tags_at L h2 m = Some (tag_merge_prepend T a b)"
    using keeps_tags [OF h2(3), of m] tags_at_new [OF h1(3)] by simp
  have preset: "tags_at L h2 x = tags_at L h x" if "x \<in># owned (preset_ptr d)" for x
    using keeps_tags [OF k] that by simp
  have eq: "merge_tag_list_obj L T (Some q) d h = Some (d\<lparr>tag_list_ptr := Some m\<rparr>, h2)"
    using Some a assms(4) new h2(1) by (simp add: merge_tag_list_obj_def)
  show ?thesis
    unfolding eq
    using h2(2) keeps_mono [OF k, of M] m preset assms(2) Some a
    by (auto simp: merge_tag_list_def data_owned_def data_typed_def data_value_def tags_value_def ac_simps
        split: option.splits)
qed

text \<open>The images, with the tag list that is looked through owned by the caller.\<close>
lemma update_picture_ok:
  assumes "lib_refs L h = count N" "p \<in># N" "tags_at L h p = Some tgs"
  shows "\<exists>images m h'. update_picture_obj L its p d h = Some (images, d\<lparr>members := m\<rparr>, h') \<and>
    update_picture_loop its (Some tgs) (members d) = (images, m) \<and> lib_refs L h' = count N \<and> keeps L N h h'"
  using assms
proof (induction its arbitrary: d h)
  case Nil
  then show ?case by (auto intro: exI [of _ "members d"])
next
  case (Cons x its)
  obtain tag prio is_big where x: "x = (tag, prio, is_big)" by (cases x)
  show ?case
  proof (cases "get_sample (Some tgs) tag")
    case None
    then show ?thesis using Cons.IH [OF Cons.prems, of d] Cons.prems(3) by (auto simp: x)
  next
    case (Some sample)
    obtain q h1 where new: "lib_new L (SampleObj sample) h = (q, h1)" by force
    obtain h2 where h2: "lib_unref L q h1 = Some h2" "lib_refs L h2 = count N" "keeps L N h h2"
      using counted_temporary [OF Cons.prems(1) new] by blast
    then have tgs: "tags_at L h2 p = Some tgs" using keeps_tags [OF h2(3) Cons.prems(2)] Cons.prems(3) by simp
    note IH = Cons.IH [OF h2(2) Cons.prems(2) tgs]
    show ?thesis
    proof (cases "get_image_tag_type (s_caps sample)")
      case IMAGE_TAG_TYPE_RAW_DATA
      then have caps: "s_caps sample \<noteq> None" by (cases "s_caps sample") (simp_all add: get_image_tag_type_def)
      obtain sent m where sent: "send_image_data_to_cover_art_cache sample is_big prio (members d) = (sent, m)" by force
      show ?thesis
        using IH [of "d\<lparr>members := m\<rparr>"] Cons.prems(3) Some new h2 IMAGE_TAG_TYPE_RAW_DATA caps sent keeps_trans [OF h2(3)]
        by (auto simp: x split: option.splits)
    next
      case IMAGE_TAG_TYPE_NONE
      then show ?thesis
        using IH [of d] Cons.prems(3) Some new h2 keeps_trans [OF h2(3)] by (auto simp: x)
    next
      case IMAGE_TAG_TYPE_URI
      then show ?thesis
        using IH [of d] Cons.prems(3) Some new h2 keeps_trans [OF h2(3)] by (auto simp: x)
    qed
  qed
qed

lemma send_image_tags:
  "send_image_data_to_cover_art_cache s b n (sd\<lparr>sd_tag_list := x, preset_tag_list := y\<rparr>)
     = apsnd (\<lambda>m. m\<lparr>sd_tag_list := x, preset_tag_list := y\<rparr>) (send_image_data_to_cover_art_cache s b n sd)"
  by (simp add: send_image_data_to_cover_art_cache_def get_image_sent_data_def put_image_sent_data_def Let_def
      split: option.split prod.split)

lemma update_picture_tags:
  "update_picture_loop its tags (sd\<lparr>sd_tag_list := x, preset_tag_list := y\<rparr>)
     = apsnd (\<lambda>m. m\<lparr>sd_tag_list := x, preset_tag_list := y\<rparr>) (update_picture_loop its tags sd)"
proof (induction its arbitrary: sd)
  case (Cons i its)
  obtain tag prio is_big where i: "i = (tag, prio, is_big)" by (cases i)
  show ?case
    using Cons.IH by (simp add: i send_image_tags split: option.split image_tag_type.split prod.split)
qed simp

lemma get_tag_list_value: "data_typed L h d \<Longrightarrow> get_tag_list L d h = Some (sd_tag_list (data_value L h d))"
  by (auto simp: get_tag_list_def data_typed_def data_owned_def data_value_def tags_value_def split: option.splits)

lemma members_data_value [simp]:
  "extra_tag_list (data_value L h d) = extra_tag_list (members d)"
  "cover_art_url (data_value L h d) = cover_art_url (members d)" "stream_key (data_value L h d) = stream_key (members d)"
  by (simp_all add: data_value_def)

end

section \<open>Handlers\<close>

definition emit_tags_value ::
  "stream_id \<Rightarrow> int \<Rightarrow> stream_id \<Rightarrow> stream_data \<Rightarrow> throttled_update \<Rightarrow> string_pairs option \<times> throttled_update" where
  "emit_tags_value invalid now sid sd u =
     (case try_emit_for_stream_id invalid sid u of (ok, u1) \<Rightarrow>
        if ok then (Some (tag_list_to_g_variant (sd_tag_list sd) (extra_tag_list sd)), emitted_tags_timed now u1)
        else (None, u1))"

definition handle_tag_value ::
  "tag_env \<Rightarrow> stream_id \<Rightarrow> int \<Rightarrow> tag_list \<Rightarrow> stream_id \<Rightarrow> stream_data \<Rightarrow> throttled_update
     \<Rightarrow> stream_data \<times> (stream_key \<times> 8 word \<times> nat \<times> nat) list \<times> string_pairs option \<times> throttled_update" where
  "handle_tag_value T invalid now tags sid sd u =
     (case update_picture_for_item (Some tags) sd of (images, sd1) \<Rightarrow>
      case try_emit_tags now u of (allowed, timer, u1) \<Rightarrow>
        let sd2 = merge_tag_list T (Some tags) sd1
        in if allowed then (sd2, images, emit_tags_value invalid now sid sd2 u1) else (sd2, images, None, u1))"

context md_objects
begin

lemma emit_ok:
  assumes "lib_refs L h = count N" "data_typed L h d" "emit_tags_value invalid now sid (data_value L h d) u = (sent, u')"
  shows "\<exists>lost h'. emit_tags_obj L invalid now sid d u h = Some (sent, lost, u', h') \<and>
    lib_refs L h' = count (mset lost + N) \<and> keeps L N h h' \<and> (lost = [] \<longleftrightarrow> sent \<noteq> None)"
proof -
  define md where "md = tag_list_to_g_variant (sd_tag_list (data_value L h d)) (extra_tag_list (members d))"
  obtain v h1 where new: "lib_new L (VariantObj md) h = (v, h1)" by force
  note h1 = counted_new [OF assms(1) new]
  obtain h2 where "lib_unref L v h1 = Some h2" "lib_refs L h2 = count N" "keeps L N h h2"
    using counted_temporary [OF assms(1) new] by blast
  then show ?thesis
    using assms(2,3) new h1
    by (auto simp: emit_tags_obj_def emit_tags_value_def get_tag_list_value md_def Let_def split: prod.splits if_splits)
qed

lemma now_playing_ok:
  assumes "lib_refs L h = count N" "data_typed L h d"
  shows "\<exists>h'. emit_now_playing_obj L d h = Some (tag_list_to_g_variant (sd_tag_list (data_value L h d))
      (extra_tag_list (data_value L h d)), h') \<and> lib_refs L h' = count N \<and> keeps L N h h'"
proof -
  define md where "md = tag_list_to_g_variant (sd_tag_list (data_value L h d)) (extra_tag_list (members d))"
  obtain v h1 where new: "lib_new L (VariantObj md) h = (v, h1)" by force
  then show ?thesis
    using counted_temporary [OF assms(1) new] assms(2)
    by (auto simp: emit_now_playing_obj_def get_tag_list_value md_def)
qed

lemma handle_tag_ok:
  assumes "lib_refs L h = count (data_owned d + M)" "data_typed L h d"
  shows "\<exists>d' images sent lost u' h'. handle_tag_obj L T invalid now tags sid d u h = Some (d', images, sent, lost, u', h') \<and>
    handle_tag_value T invalid now tags sid (data_value L h d) u = (data_value L h' d', images, sent, u') \<and>
    lib_refs L h' = count (data_owned d' + (mset lost + M)) \<and> keeps L M h h' \<and> data_typed L h' d'"
proof -
  let ?N = "data_owned d + M"
  obtain p h1 where new: "lib_new L (TagListObj tags) h = (p, h1)" by force
  note h1 = counted_new [OF assms(1) new]
  obtain images m h2 where h2: "update_picture_obj L image_tags p d h1 = Some (images, d\<lparr>members := m\<rparr>, h2)"
    "update_picture_loop image_tags (Some tags) (members d) = (images, m)"
    "lib_refs L h2 = count (add_mset p ?N)" "keeps L (add_mset p ?N) h1 h2"
    using update_picture_ok [OF h1(1) _ tags_at_new [OF h1(3)], of image_tags d] by auto
  let ?d = "d\<lparr>members := m\<rparr>"
  have k2: "keeps L ?N h h2" using keeps_trans [OF h1(2) keeps_mono [OF h2(4)]] by simp
  have tags: "tags_at L h2 p = Some tags" using keeps_tags [OF h2(4), of p] tags_at_new [OF h1(3)] by simp
  have owned: "data_owned ?d = data_owned d" by (simp add: data_owned_def)
  have d: "data_typed L h2 ?d"
    using keeps_data(1) [OF k2, of d] assms(2) by (simp add: data_typed_def data_owned_def)
  have v: "update_picture_for_item (Some tags) (data_value L h d) = (images, data_value L h2 ?d)"
    using keeps_data(2) [OF k2, of ?d] owned h2(2)
    by (simp add: update_picture_for_item_def data_value_def update_picture_tags)
  obtain d3 h3 where h3: "merge_tag_list_obj L T (Some p) ?d h2 = Some (d3, h3)"
    "lib_refs L h3 = count (data_owned d3 + add_mset p M)" "keeps L (add_mset p M) h2 h3" "data_typed L h3 d3"
    "data_value L h3 d3 = merge_tag_list T (Some tags) (data_value L h2 ?d)"
    using merge_ok [of h2 ?d "add_mset p M" p tags T] h2(3) owned d tags by auto
  obtain h4 where h4: "lib_unref L p h3 = Some h4" "lib_refs L h4 = count (data_owned d3 + M)" "keeps L (data_owned d3 + M) h3 h4"
    using counted_unref [of h3 p "data_owned d3 + M"] h3(2) by auto
  have k4: "keeps L M h h4"
    using keeps_trans [OF keeps_trans [OF keeps_mono [OF k2] keeps_mono [OF h3(3)]] keeps_mono [OF h4(3)], of M] by simp
  have d4: "data_typed L h4 d3" "data_value L h4 d3 = data_value L h3 d3"
    using keeps_data [OF h4(3), of d3] h3(4) by simp_all
  obtain allowed timer u1 where allowed: "try_emit_tags now u = (allowed, timer, u1)" by (cases "try_emit_tags now u")
  show ?thesis
  proof (cases allowed)
    case False
    then show ?thesis
      using new h2(1) h3(1,5) h4(1,2) k4 d4 v allowed by (simp add: handle_tag_obj_def handle_tag_value_def Let_def)
  next
    case True
    obtain sent u2 where e: "emit_tags_value invalid now sid (data_value L h4 d3) u1 = (sent, u2)" by force
    obtain lost h5 where h5: "emit_tags_obj L invalid now sid d3 u1 h4 = Some (sent, lost, u2, h5)"
      "lib_refs L h5 = count (mset lost + (data_owned d3 + M))" "keeps L (data_owned d3 + M) h4 h5"
      using emit_ok [OF h4(2) d4(1) e] by blast
    then show ?thesis
      using True new h2(1) h3(1,5) h4(1) keeps_trans [OF k4 keeps_mono [OF h5(3), of M]]
        keeps_data [OF h5(3), of d3] d4 v allowed e
      by (simp add: handle_tag_obj_def handle_tag_value_def Let_def ac_simps)
  qed
qed

end

section \<open>All items\<close>

text \<open>
  The meta data of all items there have been; deleted ones leave \<open>None\<close>.  What is sent and what is
  lost is recorded.
\<close>
record 'h meta_data_state =
  md_heap :: "'h"
  md_items :: "(stream_id \<times> stream_data_obj) option list"
  md_throttle :: throttled_update
  md_images :: "(stream_key \<times> 8 word \<times> nat \<times> nat) list"
  md_sent :: "(stream_id \<times> string_pairs) list"
  md_lost :: "obj list"

datatype md_op =
    ItemPushed stream_id string_pairs stream_key | TagMessage nat tag_list int | TagTimerFires nat int
  | StreamStarts nat int | ItemDeleted nat

definition item_at :: "'a option list \<Rightarrow> nat \<Rightarrow> 'a option" where
  "item_at xs i = (if i < length xs then xs ! i else None)"

fun md_apply ::
  "('h, md_object) object_lib \<Rightarrow> tag_env \<Rightarrow> stream_id \<Rightarrow> md_op \<Rightarrow> 'h meta_data_state \<Rightarrow> 'h meta_data_state option" where
  "md_apply L T invalid (ItemPushed sid md key) s =
     (case new_item_data L T md key (md_heap s) of (d, h) \<Rightarrow>
        Some (s\<lparr>md_heap := h, md_items := md_items s @ [Some (sid, d)]\<rparr>))"
| "md_apply L T invalid (TagMessage i tags now) s =
     do { (sid, d) \<leftarrow> item_at (md_items s) i;
          (d1, images, sent, lost, u, h) \<leftarrow> handle_tag_obj L T invalid now tags sid d (md_throttle s) (md_heap s);
          Some (s\<lparr>md_heap := h, md_items := (md_items s)[i := Some (sid, d1)], md_throttle := u,
            md_images := md_images s @ images,
            md_sent := md_sent s @ (case sent of None \<Rightarrow> [] | Some md \<Rightarrow> [(sid, md)]),
            md_lost := md_lost s @ lost\<rparr>) }"
| "md_apply L T invalid (TagTimerFires i now) s =
     do { (sid, d) \<leftarrow> item_at (md_items s) i;
          case timer_activated (md_throttle s) of (active, u) \<Rightarrow>
            if active
            then do { (sent, lost, u1, h) \<leftarrow> emit_tags_obj L invalid now sid d u (md_heap s);
                      Some (s\<lparr>md_heap := h, md_throttle := u1,
                        md_sent := md_sent s @ (case sent of None \<Rightarrow> [] | Some md \<Rightarrow> [(sid, md)]),
                        md_lost := md_lost s @ lost\<rparr>) }
            else Some (s\<lparr>md_throttle := u\<rparr>) }"
| "md_apply L T invalid (StreamStarts i now) s =
     do { (sid, d) \<leftarrow> item_at (md_items s) i;
          (d1, h1) \<leftarrow> clear_meta_data_obj L d (md_heap s);
          (md, h2) \<leftarrow> emit_now_playing_obj L d1 h1;
          Some (s\<lparr>md_heap := h2, md_items := (md_items s)[i := Some (sid, d1)],
            md_throttle := emitted_tags_now_playing now sid (md_throttle s),
            md_sent := md_sent s @ [(sid, md)]\<rparr>) }"
| "md_apply L T invalid (ItemDeleted i) s =
     do { (sid, d) \<leftarrow> item_at (md_items s) i;
          h \<leftarrow> stream_data_delete L d (md_heap s);
          Some (s\<lparr>md_heap := h, md_items := (md_items s)[i := None]\<rparr>) }"

text \<open>The item an operation works on exists.\<close>
fun md_enabled :: "md_op \<Rightarrow> 'h meta_data_state \<Rightarrow> bool" where
  "md_enabled (ItemPushed sid md key) s = True"
| "md_enabled (TagMessage i tags now) s = (item_at (md_items s) i \<noteq> None)"
| "md_enabled (TagTimerFires i now) s = (item_at (md_items s) i \<noteq> None)"
| "md_enabled (StreamStarts i now) s = (item_at (md_items s) i \<noteq> None)"
| "md_enabled (ItemDeleted i) s = (item_at (md_items s) i \<noteq> None)"

definition md_step ::
  "('h, md_object) object_lib \<Rightarrow> tag_env \<Rightarrow> stream_id \<Rightarrow> 'h meta_data_state \<Rightarrow> md_op \<Rightarrow> 'h meta_data_state \<Rightarrow> bool" where
  "md_step L T invalid s op s' \<longleftrightarrow> md_apply L T invalid op s = Some s'"

definition md_initial :: "('h, md_object) object_lib \<Rightarrow> 'h meta_data_state \<Rightarrow> bool" where
  "md_initial L s \<longleftrightarrow> lib_refs L (md_heap s) = (\<lambda>_. 0) \<and> md_items s = [] \<and> md_images s = [] \<and> md_sent s = [] \<and> md_lost s = []"

text \<open>The same with tag lists as values.\<close>
record meta_data_values =
  mv_items :: "(stream_id \<times> stream_data) option list"
  mv_throttle :: throttled_update
  mv_images :: "(stream_key \<times> 8 word \<times> nat \<times> nat) list"
  mv_sent :: "(stream_id \<times> string_pairs) list"

fun mv_apply :: "tag_env \<Rightarrow> stream_id \<Rightarrow> md_op \<Rightarrow> meta_data_values \<Rightarrow> meta_data_values option" where
  "mv_apply T invalid (ItemPushed sid md key) v =
     (case g_variant_to_tag_list T md of (list, cover, extra) \<Rightarrow>
        Some (v\<lparr>mv_items := mv_items v @ [Some (sid, stream_data_init list cover extra key)]\<rparr>))"
| "mv_apply T invalid (TagMessage i tags now) v =
     do { (sid, sd) \<leftarrow> item_at (mv_items v) i;
          case handle_tag_value T invalid now tags sid sd (mv_throttle v) of (sd1, images, sent, u) \<Rightarrow>
            Some (v\<lparr>mv_items := (mv_items v)[i := Some (sid, sd1)], mv_throttle := u,
              mv_images := mv_images v @ images,
              mv_sent := mv_sent v @ (case sent of None \<Rightarrow> [] | Some md \<Rightarrow> [(sid, md)])\<rparr>) }"
| "mv_apply T invalid (TagTimerFires i now) v =
     do { (sid, sd) \<leftarrow> item_at (mv_items v) i;
          case timer_activated (mv_throttle v) of (active, u) \<Rightarrow>
            if active
            then case emit_tags_value invalid now sid sd u of (sent, u1) \<Rightarrow>
              Some (v\<lparr>mv_throttle := u1,
                mv_sent := mv_sent v @ (case sent of None \<Rightarrow> [] | Some md \<Rightarrow> [(sid, md)])\<rparr>)
            else Some (v\<lparr>mv_throttle := u\<rparr>) }"
| "mv_apply T invalid (StreamStarts i now) v =
     do { (sid, sd) \<leftarrow> item_at (mv_items v) i;
          let sd1 = clear_meta_data sd;
          Some (v\<lparr>mv_items := (mv_items v)[i := Some (sid, sd1)],
            mv_throttle := emitted_tags_now_playing now sid (mv_throttle v),
            mv_sent := mv_sent v @ [(sid, tag_list_to_g_variant (sd_tag_list sd1) (extra_tag_list sd1))]\<rparr>) }"
| "mv_apply T invalid (ItemDeleted i) v =
     do { _ \<leftarrow> item_at (mv_items v) i; Some (v\<lparr>mv_items := (mv_items v)[i := None]\<rparr>) }"

definition mv_step :: "tag_env \<Rightarrow> stream_id \<Rightarrow> meta_data_values \<Rightarrow> md_op \<Rightarrow> meta_data_values \<Rightarrow> bool" where
  "mv_step T invalid v op v' \<longleftrightarrow> mv_apply T invalid op v = Some v'"

definition mv_initial :: "meta_data_values \<Rightarrow> bool" where
  "mv_initial v \<longleftrightarrow> mv_items v = [] \<and> mv_images v = [] \<and> mv_sent v = []"

definition md_values :: "('h, md_object) object_lib \<Rightarrow> 'h meta_data_state \<Rightarrow> meta_data_values" where
  "md_values L s =
     \<lparr>mv_items = map (map_option (apsnd (data_value L (md_heap s)))) (md_items s), mv_throttle = md_throttle s,
      mv_images = md_images s, mv_sent = md_sent s\<rparr>"

definition item_owned :: "('b \<times> stream_data_obj) option \<Rightarrow> obj multiset" where
  "item_owned x = (case x of None \<Rightarrow> {#} | Some (_, d) \<Rightarrow> data_owned d)"

definition items_owned :: "('b \<times> stream_data_obj) option list \<Rightarrow> obj multiset" where
  "items_owned xs = sum_list (map item_owned xs)"

definition heap_ok :: "('h, md_object) object_lib \<Rightarrow> 'h \<Rightarrow> (stream_id \<times> stream_data_obj) option list \<Rightarrow> obj list \<Rightarrow> bool" where
  "heap_ok L h xs lost \<longleftrightarrow> lib_refs L h = count (items_owned xs + mset lost) \<and>
     (\<forall>sid d. Some (sid, d) \<in> set xs \<longrightarrow> data_typed L h d)"

definition md_inv :: "('h, md_object) object_lib \<Rightarrow> 'h meta_data_state \<Rightarrow> bool" where
  "md_inv L s \<longleftrightarrow> heap_ok L (md_heap s) (md_items s) (md_lost s)"

section \<open>Every step is a step of the values\<close>

lemma item_at_value: "item_at (map (map_option f) xs) i = map_option f (item_at xs i)"
  by (simp add: item_at_def)

lemma item_owned_simps [simp]: "item_owned None = {#}" "item_owned (Some (sid, d)) = data_owned d"
  by (simp_all add: item_owned_def)

lemma items_owned_mem: "x \<in> set xs \<Longrightarrow> item_owned x \<subseteq># items_owned xs"
  unfolding items_owned_def by (rule owned_by_one)

lemma values_cong:
  "(\<And>sid d. Some (sid, d) \<in> set xs \<Longrightarrow> data_value L h' d = data_value L h d) \<Longrightarrow>
     map (map_option (apsnd (data_value L h'))) xs = map (map_option (apsnd (data_value L h))) xs"
  by (induction xs) (auto simp: map_option_case split: option.split)

text \<open>Replacing one item leaves what the other ones own.\<close>
lemma replace_item:
  assumes ok: "heap_ok L h xs lost" and i: "item_at xs i = Some (sid, d)"
  obtains M where "lib_refs L h = count (data_owned d + M)" "data_typed L h d"
    "\<And>h' y lost'. \<lbrakk>lib_refs L h' = count (item_owned y + (mset lost' + M)); keeps L M h h';
       \<And>sid' d'. y = Some (sid', d') \<Longrightarrow> data_typed L h' d'\<rbrakk> \<Longrightarrow>
       heap_ok L h' (xs[i := y]) (lost @ lost') \<and>
       map (map_option (apsnd (data_value L h'))) (xs[i := y])
         = (map (map_option (apsnd (data_value L h))) xs)[i := map_option (apsnd (data_value L h')) y]"
proof -
  let ?ys = "take i xs" and ?zs = "drop (Suc i) xs"
  let ?M = "items_owned (?ys @ ?zs) + mset lost"
  have l: "i < length xs" "xs = ?ys @ Some (sid, d) # ?zs"
    using i id_take_nth_drop [of i xs] by (auto simp: item_at_def split: if_splits)
  have upd: "xs[i := y] = ?ys @ y # ?zs" for y
    using l(1) by (simp add: upd_conv_take_nth_drop)
  have "items_owned xs = data_owned d + items_owned (?ys @ ?zs)"
    by (subst l(2)) (simp add: items_owned_def ac_simps)
  then have "lib_refs L h = count (data_owned d + ?M)" using ok by (simp add: heap_ok_def ac_simps)
  moreover have "data_typed L h d" using ok l by (metis heap_ok_def in_set_conv_decomp)
  moreover have "heap_ok L h' (xs[i := y]) (lost @ lost') \<and>
      map (map_option (apsnd (data_value L h'))) (xs[i := y])
        = (map (map_option (apsnd (data_value L h))) xs)[i := map_option (apsnd (data_value L h')) y]"
    if h': "lib_refs L h' = count (item_owned y + (mset lost' + ?M))" "keeps L ?M h h'"
      "\<And>sid' d'. y = Some (sid', d') \<Longrightarrow> data_typed L h' d'" for h' y lost'
  proof -
    have others: "data_typed L h' d' = data_typed L h d' \<and> data_value L h' d' = data_value L h d'"
      if "Some (sid', d') \<in> set (?ys @ ?zs)" for sid' d'
      using keeps_data [OF h'(2), of d'] items_owned_mem [OF that] by (simp add: subset_mset.add_increasing2)
    have "data_typed L h d'" if "Some (sid', d') \<in> set (?ys @ ?zs)" for sid' d'
      using ok that l(2) unfolding heap_ok_def by (metis Un_iff in_set_takeD in_set_dropD set_append)
    then have "heap_ok L h' (xs[i := y]) (lost @ lost')"
      using h'(1,3) others by (auto simp: heap_ok_def upd items_owned_def ac_simps)
    moreover have "map (map_option (apsnd (data_value L h'))) (?ys @ ?zs) = map (map_option (apsnd (data_value L h))) (?ys @ ?zs)"
      using others by (intro values_cong) blast
    then have "map (map_option (apsnd (data_value L h'))) (xs[i := y])
        = (map (map_option (apsnd (data_value L h))) xs)[i := map_option (apsnd (data_value L h')) y]"
      using l(1) by (simp add: upd upd_conv_take_nth_drop take_map drop_map)
    ultimately show ?thesis by blast
  qed
  ultimately show ?thesis using that by blast
qed

context md_objects
begin

lemma step_push:
  assumes "md_inv L s"
  shows "\<exists>s'. md_apply L T invalid (ItemPushed sid md key) s = Some s' \<and> md_inv L s' \<and>
    mv_apply T invalid (ItemPushed sid md key) (md_values L s) = Some (md_values L s')"
proof -
  let ?N = "items_owned (md_items s) + mset (md_lost s)"
  obtain list cover extra where g: "g_variant_to_tag_list T md = (list, cover, extra)" by (cases "g_variant_to_tag_list T md")
  obtain d h where new: "new_item_data L T md key (md_heap s) = (d, h)" by force
  have inv: "lib_refs L (md_heap s) = count ?N" "\<And>sid d. Some (sid, d) \<in> set (md_items s) \<Longrightarrow> data_typed L (md_heap s) d"
    using assms by (auto simp: md_inv_def heap_ok_def)
  have d: "lib_refs L h = count (data_owned d + ?N) \<and> keeps L ?N (md_heap s) h \<and> data_typed L h d \<and>
      data_value L h d = stream_data_init list cover extra key"
  proof (cases list)
    case None
    then show ?thesis
      using new g inv(1)
      by (auto simp: new_item_data_def stream_data_new_def data_owned_def data_typed_def data_value_def tags_value_def
          stream_data_init_def)
  next
    case (Some tgs)
    obtain p where p: "lib_new L (TagListObj tgs) (md_heap s) = (p, h)" "d = stream_data_new (Some p) cover extra key"
      using new g Some by (auto simp: new_item_data_def split: prod.splits)
    show ?thesis
      using counted_new [OF inv(1) p(1)] Some p(2)
      by (auto simp: stream_data_new_def data_owned_def data_typed_def data_value_def tags_value_def tags_at_new
          stream_data_init_def)
  qed
  have others: "data_typed L h d' = data_typed L (md_heap s) d' \<and> data_value L h d' = data_value L (md_heap s) d'"
    if "Some (sid', d') \<in> set (md_items s)" for sid' d'
    using keeps_data [of L ?N "md_heap s" h d'] d items_owned_mem [OF that] by (simp add: subset_mset.add_increasing2)
  have "map (map_option (apsnd (data_value L h))) (md_items s)
      = map (map_option (apsnd (data_value L (md_heap s)))) (md_items s)"
    using others by (intro values_cong) blast
  moreover have "md_inv L (s\<lparr>md_heap := h, md_items := md_items s @ [Some (sid, d)]\<rparr>)"
    using d inv(2) others by (auto simp: md_inv_def heap_ok_def items_owned_def ac_simps)
  ultimately show ?thesis
    using new g d by (simp add: md_values_def)
qed

lemma step_item:
  assumes "md_inv L s" "md_enabled op s" "\<And>sid md key. op \<noteq> ItemPushed sid md key"
  shows "\<exists>s'. md_apply L T invalid op s = Some s' \<and> md_inv L s' \<and>
    mv_apply T invalid op (md_values L s) = Some (md_values L s')"
proof -
  let ?h = "md_heap s" and ?xs = "md_items s" and ?u = "md_throttle s"
  obtain i sid d where i: "item_at ?xs i = Some (sid, d)"
    "(\<exists>tags now. op = TagMessage i tags now) \<or> (\<exists>now. op = TagTimerFires i now) \<or> (\<exists>now. op = StreamStarts i now) \<or>
     op = ItemDeleted i"
    using assms(2,3) by (cases op) auto
  obtain M where m: "lib_refs L ?h = count (data_owned d + M)" "data_typed L ?h d"
    "\<And>h' y lost'. \<lbrakk>lib_refs L h' = count (item_owned y + (mset lost' + M)); keeps L M ?h h';
       \<And>sid' d'. y = Some (sid', d') \<Longrightarrow> data_typed L h' d'\<rbrakk> \<Longrightarrow>
       heap_ok L h' (?xs[i := y]) (md_lost s @ lost') \<and>
       map (map_option (apsnd (data_value L h'))) (?xs[i := y])
         = (map (map_option (apsnd (data_value L ?h))) ?xs)[i := map_option (apsnd (data_value L h')) y]"
    using assms(1) i(1) unfolding md_inv_def by (rule replace_item) blast
  have v: "item_at (mv_items (md_values L s)) i = Some (sid, data_value L ?h d)"
    using i(1) by (simp add: md_values_def item_at_value)
  from i(2) consider tags now where "op = TagMessage i tags now" | now where "op = TagTimerFires i now"
    | now where "op = StreamStarts i now" | "op = ItemDeleted i" by blast
  then show ?thesis
  proof cases
    case 1
    obtain d' images sent lost u' h' where h': "handle_tag_obj L T invalid now tags sid d ?u ?h = Some (d', images, sent, lost, u', h')"
      "handle_tag_value T invalid now tags sid (data_value L ?h d) ?u = (data_value L h' d', images, sent, u')"
      "lib_refs L h' = count (data_owned d' + (mset lost + M))" "keeps L M ?h h'" "data_typed L h' d'"
      using handle_tag_ok [OF m(1,2)] by blast
    show ?thesis
      using m(3) [of h' "Some (sid, d')" lost] h' i(1) v 1 by (simp add: md_inv_def md_values_def)
  next
    case 2
    obtain active u where t: "timer_activated ?u = (active, u)" by force
    show ?thesis
    proof (cases active)
      case False
      then show ?thesis using 2 t i(1) v assms(1) by (simp add: md_inv_def md_values_def)
    next
      case True
      obtain sent u' where e: "emit_tags_value invalid now sid (data_value L ?h d) u = (sent, u')" by force
      obtain lost h' where h': "emit_tags_obj L invalid now sid d u ?h = Some (sent, lost, u', h')"
        "lib_refs L h' = count (mset lost + (data_owned d + M))" "keeps L (data_owned d + M) ?h h'"
        using emit_ok [OF m(1,2) e] by blast
      have xs: "?xs[i := Some (sid, d)] = ?xs"
        using i(1) by (simp add: item_at_def list_update_same_conv split: if_splits)
      have d: "data_typed L h' d" "data_value L h' d = data_value L ?h d"
        using keeps_data [OF h'(3), of d] m(2) by simp_all
      have "(map (map_option (apsnd (data_value L ?h))) ?xs)[i := Some (sid, data_value L ?h d)]
          = map (map_option (apsnd (data_value L ?h))) ?xs"
        using i(1) by (simp add: item_at_def list_update_same_conv split: if_splits)
      moreover have "lib_refs L h' = count (data_owned d + (mset lost + M))" using h'(2) by (simp add: ac_simps)
      ultimately have "heap_ok L h' ?xs (md_lost s @ lost) \<and>
          map (map_option (apsnd (data_value L h'))) ?xs = map (map_option (apsnd (data_value L ?h))) ?xs"
        using m(3) [of h' "Some (sid, d)" lost] xs d keeps_mono [OF h'(3), of M] by simp
      then show ?thesis
        using h'(1) i(1) v 2 t True e by (simp add: md_inv_def md_values_def)
    qed
  next
    case 3
    obtain d1 h1 where h1: "clear_meta_data_obj L d ?h = Some (d1, h1)" "lib_refs L h1 = count (data_owned d1 + M)"
      "keeps L M ?h h1" "data_typed L h1 d1" "data_value L h1 d1 = clear_meta_data (data_value L ?h d)"
      using clear_ok [OF m(1,2)] by blast
    obtain h2 where h2: "emit_now_playing_obj L d1 h1 = Some (tag_list_to_g_variant (sd_tag_list (data_value L h1 d1))
        (extra_tag_list (data_value L h1 d1)), h2)" "lib_refs L h2 = count (data_owned d1 + M)" "keeps L (data_owned d1 + M) h1 h2"
      using now_playing_ok [OF h1(2,4)] by blast
    have "keeps L M ?h h2" by (rule keeps_trans [OF h1(3) keeps_mono [OF h2(3)]]) simp
    moreover have "data_typed L h2 d1" "data_value L h2 d1 = data_value L h1 d1"
      using keeps_data [OF h2(3), of d1] h1(4) by simp_all
    ultimately show ?thesis
      using m(3) [of h2 "Some (sid, d1)" "[]"] h1(1,5) h2(1,2) i(1) v 3
      by (simp add: md_inv_def md_values_def Let_def del: members_data_value)
  next
    case 4
    obtain h' where "stream_data_delete L d ?h = Some h'" "lib_refs L h' = count M" "keeps L M ?h h'"
      using delete_ok [OF m(1)] by blast
    then show ?thesis
      using m(3) [of h' None "[]"] i(1) v 4 by (simp add: md_inv_def md_values_def)
  qed
qed

lemma step_ok:
  assumes "md_inv L s" "md_enabled op s"
  shows "\<exists>s'. md_apply L T invalid op s = Some s' \<and> md_inv L s' \<and>
    mv_apply T invalid op (md_values L s) = Some (md_values L s')"
proof (cases op)
  case ItemPushed
  then show ?thesis using step_push [OF assms(1)] by simp
qed (rule step_item [OF assms]; simp)+

lemma step_enabled: "md_apply L T invalid op s = Some s' \<Longrightarrow> md_enabled op s"
  by (cases op) (auto simp: bind_eq_Some_conv)

lemma md_inv_initial: "md_initial L s \<Longrightarrow> md_inv L s"
  by (simp add: md_initial_def md_inv_def heap_ok_def items_owned_def fun_eq_iff)

lemma meta_data_refinement:
  "refinement (md_initial L) (md_step L T invalid) (md_inv L) mv_initial (mv_step T invalid) (md_values L) id"
proof (unfold_locales, goal_cases)
  case (1 s)
  then show ?case by (rule md_inv_initial)
next
  case (2 s l s')
  then show ?case using step_ok [of s l T invalid] step_enabled by (fastforce simp: md_step_def)
next
  case (3 s)
  then show ?case by (simp add: md_initial_def mv_initial_def md_values_def)
next
  case (4 s l s')
  then show ?case using step_ok [of s l T invalid] step_enabled by (fastforce simp: md_step_def mv_step_def)
qed

lemma md_reachable_inv: "reachable (md_initial L) (md_step L T invalid) s \<Longrightarrow> md_inv L s"
  by (rule machine.reachable_inv [OF refinement.axioms(1) [OF meta_data_refinement]])

end

interpretation heap_objects: md_objects "heap_lib A" ..

interpretation meta_data: refinement "md_initial (heap_lib A)" "md_step (heap_lib A) T invalid" "md_inv (heap_lib A)"
  mv_initial "mv_step T invalid" "md_values (heap_lib A)" id
  by (rule heap_objects.meta_data_refinement)

lemma no_items_owned: "set xs \<subseteq> {None} \<Longrightarrow> items_owned xs = {#}"
  by (induction xs) (simp_all add: items_owned_def)

section \<open>Sample runs\<close>

fun md_run :: "('h, md_object) object_lib \<Rightarrow> tag_env \<Rightarrow> stream_id \<Rightarrow> md_op list \<Rightarrow> 'h meta_data_state \<Rightarrow> 'h meta_data_state option" where
  "md_run L T invalid [] s = Some s"
| "md_run L T invalid (op # ops) s = md_apply L T invalid op s \<bind> md_run L T invalid ops"

lemma md_run_reachable:
  "md_run L T invalid ops s = Some s' \<Longrightarrow> reachable (md_initial L) (md_step L T invalid) s
     \<Longrightarrow> reachable (md_initial L) (md_step L T invalid) s'"
proof (induction ops arbitrary: s)
  case (Cons op ops)
  then obtain s1 where "md_apply L T invalid op s = Some s1" "md_run L T invalid ops s1 = Some s'"
    by (auto simp: bind_eq_Some_conv)
  then show ?case
    using Cons.IH reach_step [OF Cons.prems(2), of op s1] by (simp add: md_step_def)
qed simp

definition sample_tags :: tag_env where
  "sample_tags = \<lparr>tag_merge_prepend = (\<lambda>a b. b @ a), tag_add_keep = (\<lambda>l t v. l @ [(t, [VString v])])\<rparr>"

definition md_start :: "md_object heap meta_data_state" where
  "md_start = \<lparr>md_heap = [], md_items = [], md_throttle = throttled_update_init 0, md_images = [], md_sent = [], md_lost = []\<rparr>"

lemma md_start_reachable: "reachable (md_initial (heap_lib A)) (md_step (heap_lib A) T invalid) md_start"
  by (rule reach_init) (simp add: md_start_def md_initial_def heap_lib_sel lookup_obj_def fun_eq_iff)

text \<open>A stream is pushed and starts, its tags are updated, and it is deleted.\<close>
definition sample_life :: "md_op list" where
  "sample_life = [ItemPushed 257 [(''title'', ''a'')] ''key'', StreamStarts 0 0,
     TagMessage 0 [(''artist'', [VString ''b''])] 1000000000, ItemDeleted 0]"

lemma sample_life_run:
  "case md_run (heap_lib first_fit) sample_tags 0 sample_life md_start of None \<Rightarrow> False
   | Some s \<Rightarrow> md_items s = [None] \<and> md_lost s = [] \<and>
       md_sent s = [(257, [(''title'', ''a'')]), (257, [(''artist'', ''b''), (''title'', ''a'')])]"
  by code_simp

text \<open>The tags of a stream that comes before the start of the stream was announced are not sent, and
  the variant made for them is lost: \<open>emit_tags__unlocked()\<close> makes it before it asks whether it may
  be sent.\<close>
lemma early_tags_are_lost:
  "case md_run (heap_lib first_fit) sample_tags 0 [ItemPushed 257 [] ''key'', TagMessage 0 [(''artist'', [VString ''b''])] 0,
       ItemDeleted 0] md_start of None \<Rightarrow> False
   | Some s \<Rightarrow> md_items s = [None] \<and> md_sent s = [] \<and> length (md_lost s) = 1 \<and>
       lib_read (heap_lib first_fit) (md_heap s) (hd (md_lost s)) = Some (VariantObj [(''artist'', ''b'')])"
  by code_simp

section \<open>Properties\<close>

text \<open>C22. The objects of the meta data are used properly, with any library that counts references as documented: whatever happens
  to the streams, in any order, nothing that is gone is read, given a reference or given up; each
  object has as many references as there are pointers to it, plus one for each lost variant; so once
  all items are deleted, nothing is left in memory but the lost variants.\<close>
theorem meta_data_memory_safe:
  assumes "counted_objects L" "reachable (md_initial L) (md_step L T invalid) s"
  shows "(\<forall>op. md_enabled op s \<longrightarrow> md_apply L T invalid op s \<noteq> None) \<and>
    (\<forall>p. lib_refs L (md_heap s) p = count (items_owned (md_items s)) p + count_list (md_lost s) p) \<and>
    (set (md_items s) \<subseteq> {None} \<longrightarrow> (\<forall>p. lib_read L (md_heap s) p \<noteq> None \<longleftrightarrow> p \<in> set (md_lost s)))"
proof -
  note lib = md_objects.intro [OF assms(1)]
  have inv: "md_inv L s" by (rule md_objects.md_reachable_inv [OF lib assms(2)])
  then have refs: "lib_refs L (md_heap s) = count (items_owned (md_items s) + mset (md_lost s))"
    by (simp add: md_inv_def heap_ok_def)
  have "items_owned (md_items s) = {#}" if "set (md_items s) \<subseteq> {None}"
    using that by (rule no_items_owned)
  then have "lib_read L (md_heap s) p \<noteq> None \<longleftrightarrow> p \<in> set (md_lost s)" if "set (md_items s) \<subseteq> {None}" for p
    using that counted_objects.owned_read [OF assms(1) refs, of p] by simp
  moreover have "md_enabled op s \<Longrightarrow> md_apply L T invalid op s \<noteq> None" for op
    using md_objects.step_ok [OF lib inv, of op T invalid] by auto
  ultimately show ?thesis
    using refs by (simp add: count_mset)
qed

lemma meta_data_memory_safe_witness:
  "\<exists>s. md_run (heap_lib first_fit) sample_tags 0 sample_life md_start = Some s \<and> (\<forall>p. lib_read (heap_lib first_fit) (md_heap s) p = None)"
  using sample_life_run meta_data_memory_safe [OF objects.counted_objects_axioms md_run_reachable [OF _ md_start_reachable]]
  by (fastforce split: option.splits)

text \<open>C21. Class \<open>StreamData\<close>, with its pointers to shared and counted tag lists, behaves as if it held the tag
  lists themselves, with any library that counts references as documented: in every reachable state, the values behind the
  pointers are those of a run of the operations on values, and either side can make exactly the steps
  of the other one, with the same tags and images sent.\<close>
theorem meta_data_refines_values:
  assumes "counted_objects L" "reachable (md_initial L) (md_step L T invalid) s"
  shows "reachable mv_initial (mv_step T invalid) (md_values L s) \<and>
    mv_apply T invalid op (md_values L s) = map_option (md_values L) (md_apply L T invalid op s)"
proof
  note lib = md_objects.intro [OF assms(1)]
  have inv: "md_inv L s" by (rule md_objects.md_reachable_inv [OF lib assms(2)])
  show "reachable mv_initial (mv_step T invalid) (md_values L s)"
    by (rule refinement.reachable_abs [OF md_objects.meta_data_refinement [OF lib] assms(2)])
  show "mv_apply T invalid op (md_values L s) = map_option (md_values L) (md_apply L T invalid op s)"
  proof (cases "md_enabled op s")
    case True
    then show ?thesis using md_objects.step_ok [OF lib inv True, of T invalid] by auto
  next
    case False
    then have "md_apply L T invalid op s = None" using md_objects.step_enabled [OF lib] by fastforce
    moreover have "mv_apply T invalid op (md_values L s) = None"
      using False by (cases op) (simp_all add: md_values_def item_at_value del: not_None_eq)
    ultimately show ?thesis by simp
  qed
qed

lemma meta_data_refines_values_witness:
  "\<exists>s. md_run (heap_lib first_fit) sample_tags 0 [ItemPushed 257 [(''title'', ''a'')] ''key''] md_start = Some s \<and>
    mv_apply sample_tags 0 (StreamStarts 0 0) (md_values (heap_lib first_fit) s) = map_option (md_values (heap_lib first_fit)) (md_apply (heap_lib first_fit) sample_tags 0 (StreamStarts 0 0) s)"
proof -
  obtain s where s: "md_run (heap_lib first_fit) sample_tags 0 [ItemPushed 257 [(''title'', ''a'')] ''key''] md_start = Some s"
    by (cases "md_run (heap_lib first_fit) sample_tags 0 [ItemPushed 257 [(''title'', ''a'')] ''key''] md_start")
      (simp_all add: split: prod.splits)
  then show ?thesis
    using meta_data_refines_values [OF objects.counted_objects_axioms md_run_reachable [OF s md_start_reachable]] by blast
qed

end
