(* ===== verification/Streamer_Objects.thy ===== *)
theory Streamer_Objects
  imports Object_Heap Meta_Data_Refs Streamer_Handlers
begin

text \<open>
  The objects held by \<^verbatim>\<open>src/streamer.cc\<close> itself: the pipeline, which is replaced now and then, the
  clock, the main loop, and the objects that an injected failure keeps alive until it is posted by an
  idle function.  In the meantime the pipeline may have been replaced.  The idle function recognises
  its pipeline by the address, and an address may be used again once its object is gone.

  \<open>gst_element_factory_make()\<close>, \<open>gst_system_clock_obtain()\<close>, \<open>g_object_get()\<close> and
  \<open>gst_message_new_error()\<close> give references to be given up; \<open>gst_element_post_message()\<close> takes over its
  caller's reference to the message, which then waits on the bus until it is dispatched.  It is assumed
  that a pipeline has an audio sink when a failure is injected.

  At the end, the streamer's handling of tags is related to that of theory \<open>Meta_Data_Refs\<close>.
\<close>

section \<open>The state\<close>

text \<open>A pipeline has a number, which no other pipeline has; an error message carries the number of the
  pipeline it was made for.\<close>
datatype gst_obj = PipelineObj nat | ErrorMessage nat string nat | SinkObj | ClockObj | LoopObj

text \<open>\<open>PipelineCallbackData\<close>: the expected pipeline and the message.\<close>
type_synonym callback_data = "obj \<times> obj option"

record 'h streamer_objects =
  so_heap :: "'h"
  so_loop :: obj
  so_pipeline :: "obj option"
  so_clock :: "obj option"
  so_callbacks :: "callback_data list"
  so_bus :: "obj list"
  so_made :: nat
  so_posted :: "(nat \<times> gst_obj) list"
  so_lost :: "obj list"

section \<open>Operations\<close>

definition callback_data_new :: "('h, gst_obj) object_lib \<Rightarrow> obj \<Rightarrow> obj option \<Rightarrow> 'h \<Rightarrow> (callback_data \<times> 'h) option" where
  "callback_data_new L expected_pipeline msg h =
     do { h1 \<leftarrow> lib_ref L expected_pipeline h;
          h2 \<leftarrow> (case msg of None \<Rightarrow> Some h1 | Some m \<Rightarrow> lib_ref L m h1);
          Some ((expected_pipeline, msg), h2) }"

definition callback_data_delete :: "('h, gst_obj) object_lib \<Rightarrow> callback_data \<Rightarrow> 'h \<Rightarrow> 'h option" where
  "callback_data_delete L cb h = (case cb of (expected_pipeline, msg) \<Rightarrow>
     do { h1 \<leftarrow> lib_unref L expected_pipeline h; unref_if L msg h1 })"

definition teardown_playbin_obj :: "('h, gst_obj) object_lib \<Rightarrow> 'h streamer_objects \<Rightarrow> 'h streamer_objects option" where
  "teardown_playbin_obj L s =
     (case so_pipeline s of
        None \<Rightarrow> Some s
      | Some p \<Rightarrow> do { h \<leftarrow> lib_unref L p (so_heap s); Some (s\<lparr>so_heap := h, so_pipeline := None\<rparr>) })"

text \<open>Making the element may fail.\<close>
definition create_playbin_obj :: "('h, gst_obj) object_lib \<Rightarrow> bool \<Rightarrow> 'h streamer_objects \<Rightarrow> 'h streamer_objects" where
  "create_playbin_obj L made s =
     (if made
      then case lib_new L (PipelineObj (so_made s)) (so_heap s) of (p, h) \<Rightarrow>
        s\<lparr>so_heap := h, so_pipeline := Some p, so_made := Suc (so_made s)\<rparr>
      else s\<lparr>so_pipeline := None\<rparr>)"

definition rebuild_playbin_obj :: "('h, gst_obj) object_lib \<Rightarrow> bool \<Rightarrow> 'h streamer_objects \<Rightarrow> 'h streamer_objects option" where
  "rebuild_playbin_obj L made s = map_option (create_playbin_obj L made) (teardown_playbin_obj L s)"

text \<open>\<open>setup()\<close> takes its references only after the pipeline could be made.\<close>
definition setup_obj :: "('h, gst_obj) object_lib \<Rightarrow> bool \<Rightarrow> 'h streamer_objects \<Rightarrow> 'h streamer_objects option" where
  "setup_obj L made s =
     (let s1 = create_playbin_obj L made s
      in if so_pipeline s1 = None then Some s1
         else case lib_new L ClockObj (so_heap s1) of (c, h) \<Rightarrow>
           do { h1 \<leftarrow> lib_ref L (so_loop s1) h; Some (s1\<lparr>so_heap := h1, so_clock := Some c\<rparr>) })"

text \<open>\<open>shutdown()\<close> with a main loop; a clock that was never obtained is a null pointer.\<close>
definition shutdown_obj :: "('h, gst_obj) object_lib \<Rightarrow> 'h streamer_objects \<Rightarrow> 'h streamer_objects option" where
  "shutdown_obj L s =
     do { h \<leftarrow> lib_unref L (so_loop s) (so_heap s);
          s1 \<leftarrow> teardown_playbin_obj L (s\<lparr>so_heap := h\<rparr>);
          c \<leftarrow> so_clock s1;
          h1 \<leftarrow> lib_unref L c (so_heap s1);
          Some (s1\<lparr>so_heap := h1, so_clock := None\<rparr>) }"

definition pipeline_number :: "('h, gst_obj) object_lib \<Rightarrow> 'h \<Rightarrow> obj \<Rightarrow> nat option" where
  "pipeline_number L h p = (case lib_read L h p of Some (PipelineObj n) \<Rightarrow> Some n | _ \<Rightarrow> None)"

definition inject_stream_failure_obj ::
  "('h, gst_obj) object_lib \<Rightarrow> string \<Rightarrow> nat \<Rightarrow> 'h streamer_objects \<Rightarrow> 'h streamer_objects option" where
  "inject_stream_failure_obj L domain code s =
     (if domain \<notin> {''core'', ''library'', ''resource'', ''stream''} then Some s
      else case so_pipeline s of
             None \<Rightarrow> Some s
           | Some p \<Rightarrow>
               do { n \<leftarrow> pipeline_number L (so_heap s) p;
                    let (failing_element, h1) = lib_new L SinkObj (so_heap s);
                    let (msg, h2) = lib_new L (ErrorMessage n domain code) h1;
                    h3 \<leftarrow> lib_unref L failing_element h2;
                    (cb, h4) \<leftarrow> callback_data_new L p (Some msg) h3;
                    Some (s\<lparr>so_heap := h4, so_callbacks := so_callbacks s @ [cb]\<rparr>) })"

text \<open>The idle function; it looks at its pipeline to see whether it is one.  The message is lost if it is
  not posted, as its first reference is with nobody.\<close>
definition post_injected_failure_obj :: "('h, gst_obj) object_lib \<Rightarrow> callback_data \<Rightarrow> 'h streamer_objects \<Rightarrow> 'h streamer_objects option" where
  "post_injected_failure_obj L cb s =
     (case cb of
        (expected, None) \<Rightarrow> None
      | (expected, Some msg) \<Rightarrow>
          do { n \<leftarrow> pipeline_number L (so_heap s) expected;
               m \<leftarrow> lib_read L (so_heap s) msg;
               let s1 = (if so_pipeline s \<noteq> Some expected then s\<lparr>so_lost := so_lost s @ [msg]\<rparr>
                         else s\<lparr>so_bus := so_bus s @ [msg], so_posted := so_posted s @ [(n, m)]\<rparr>);
               h \<leftarrow> callback_data_delete L cb (so_heap s1);
               Some (s1\<lparr>so_heap := h\<rparr>) })"

section \<open>The machine\<close>

datatype so_op =
    Setup bool | Rebuild bool | Inject string nat | RunIdle nat | Dispatch nat | Shutdown

definition remove_at :: "nat \<Rightarrow> 'a list \<Rightarrow> 'a list" where
  "remove_at i xs = take i xs @ drop (Suc i) xs"

text \<open>Idle functions are run once, in any order, and messages are dispatched in any order.\<close>
fun so_apply :: "('h, gst_obj) object_lib \<Rightarrow> so_op \<Rightarrow> 'h streamer_objects \<Rightarrow> 'h streamer_objects option" where
  "so_apply L (Setup made) s = setup_obj L made s"
| "so_apply L (Rebuild made) s = rebuild_playbin_obj L made s"
| "so_apply L (Inject domain code) s = inject_stream_failure_obj L domain code s"
| "so_apply L (RunIdle i) s =
     post_injected_failure_obj L (so_callbacks s ! i) (s\<lparr>so_callbacks := remove_at i (so_callbacks s)\<rparr>)"
| "so_apply L (Dispatch i) s =
     do { h \<leftarrow> lib_unref L (so_bus s ! i) (so_heap s);
          Some (s\<lparr>so_heap := h, so_bus := remove_at i (so_bus s)\<rparr>) }"
| "so_apply L Shutdown s = shutdown_obj L s"

text \<open>Setup comes first and once; what is only done by a streamer that was set up; and lists have
  the elements that are used.\<close>
fun so_enabled :: "so_op \<Rightarrow> 'h streamer_objects \<Rightarrow> bool" where
  "so_enabled (Setup made) s = (so_pipeline s = None \<and> so_clock s = None \<and> so_made s = 0)"
| "so_enabled (Rebuild made) s = (so_clock s \<noteq> None)"
| "so_enabled (Inject domain code) s = True"
| "so_enabled (RunIdle i) s = (i < length (so_callbacks s))"
| "so_enabled (Dispatch i) s = (i < length (so_bus s))"
| "so_enabled Shutdown s = (so_clock s \<noteq> None)"

definition so_step :: "('h, gst_obj) object_lib \<Rightarrow> 'h streamer_objects \<Rightarrow> so_op \<Rightarrow> 'h streamer_objects \<Rightarrow> bool" where
  "so_step L s op s' \<longleftrightarrow> so_enabled op s \<and> so_apply L op s = Some s'"

text \<open>\<open>main()\<close> has made the main loop, the only object.\<close>
definition so_initial :: "('h, gst_obj) object_lib \<Rightarrow> 'h streamer_objects \<Rightarrow> bool" where
  "so_initial L s \<longleftrightarrow> lib_refs L (so_heap s) = (\<lambda>_. 0)(so_loop s := 1) \<and> so_pipeline s = None \<and> so_clock s = None \<and>
     so_callbacks s = [] \<and> so_bus s = [] \<and> so_made s = 0 \<and> so_posted s = [] \<and> so_lost s = []"

section \<open>The invariant\<close>

definition callback_owned :: "callback_data \<Rightarrow> obj multiset" where
  "callback_owned cb = add_mset (fst cb) (owned (snd cb) + owned (snd cb))"

text \<open>The main loop is owned by \<open>main()\<close>, and by the streamer as long as it has its clock.\<close>
definition so_owned :: "'h streamer_objects \<Rightarrow> obj multiset" where
  "so_owned s =
     owned (so_pipeline s) + owned (so_clock s) + (if so_clock s = None then {#} else {#so_loop s#})
       + add_mset (so_loop s) (sum_list (map callback_owned (so_callbacks s)) + mset (so_bus s))"

text \<open>The references that hold an object in memory: those of the owners, and those that were lost.\<close>
definition so_held :: "'h streamer_objects \<Rightarrow> obj multiset" where
  "so_held s =
     owned (so_pipeline s) + owned (so_clock s) + (if so_clock s = None then {#} else {#so_loop s#})
       + add_mset (so_loop s) (sum_list (map callback_owned (so_callbacks s)) + mset (so_bus s) + mset (so_lost s))"

lemma so_held_owned: "so_held s = so_owned s + mset (so_lost s)"
  by (simp add: so_held_def so_owned_def)

definition callback_ok :: "('h, gst_obj) object_lib \<Rightarrow> 'h \<Rightarrow> callback_data \<Rightarrow> bool" where
  "callback_ok L h cb \<longleftrightarrow> (\<exists>n m d c. snd cb = Some m \<and> lib_read L h (fst cb) = Some (PipelineObj n) \<and>
     lib_read L h m = Some (ErrorMessage n d c))"

definition post_ok :: "nat \<times> gst_obj \<Rightarrow> bool" where
  "post_ok x \<longleftrightarrow> (\<exists>d c. snd x = ErrorMessage (fst x) d c)"

definition so_inv :: "('h, gst_obj) object_lib \<Rightarrow> 'h streamer_objects \<Rightarrow> bool" where
  "so_inv L s \<longleftrightarrow> lib_refs L (so_heap s) = count (so_held s) \<and>
     (\<forall>p. so_pipeline s = Some p \<longrightarrow> pipeline_number L (so_heap s) p \<noteq> None) \<and>
     list_all (callback_ok L (so_heap s)) (so_callbacks s) \<and> list_all post_ok (so_posted s)"

section \<open>Each operation keeps it\<close>

text \<open>What is held besides the pipeline, the clock and the streamer's reference to the loop.\<close>
definition rest_held :: "'h streamer_objects \<Rightarrow> obj multiset" where
  "rest_held s = add_mset (so_loop s)
     (sum_list (map callback_owned (so_callbacks s)) + mset (so_bus s) + mset (so_lost s))"

lemma so_held_rest: "so_held s =
    owned (so_pipeline s) + (owned (so_clock s) + (if so_clock s = None then {#} else {#so_loop s#}) + rest_held s)"
  by (simp add: so_held_def rest_held_def)

locale gst_objects = counted_objects L for L :: "('h, gst_obj) object_lib"
begin

lemma keeps_pipeline: "keeps L N h h' \<Longrightarrow> p \<in># N \<Longrightarrow> pipeline_number L h' p = pipeline_number L h p"
  by (simp add: keeps_def pipeline_number_def)

lemma keeps_callback:
  assumes "callback_ok L h cb" "keeps L N h h'" "callback_owned cb \<subseteq># N"
  shows "callback_ok L h' cb"
proof -
  have "p \<in># N" if "p \<in># callback_owned cb" for p by (rule mset_subset_eqD [OF assms(3) that])
  then have "lib_read L h' p = lib_read L h p" if "p \<in># callback_owned cb" for p using assms(2) that by (simp add: keeps_def)
  then show ?thesis using assms(1) by (auto simp: callback_ok_def callback_owned_def)
qed

lemma keeps_callbacks:
  assumes "list_all (callback_ok L h) cbs" "keeps L N h h'" "sum_list (map callback_owned cbs) \<subseteq># N"
  shows "list_all (callback_ok L h') cbs"
  unfolding list_all_iff
proof
  fix cb assume cb: "cb \<in> set cbs"
  have "callback_owned cb \<subseteq># N"
    by (rule subset_mset.order_trans [OF owned_by_one [OF cb] assms(3)])
  then show "callback_ok L h' cb"
    using keeps_callback [OF _ assms(2)] assms(1) cb by (simp add: list_all_iff)
qed

lemma teardown_ok:
  assumes "lib_refs L (so_heap s) = count (owned (so_pipeline s) + N)"
  shows "\<exists>h. teardown_playbin_obj L s = Some (s\<lparr>so_heap := h, so_pipeline := None\<rparr>) \<and> lib_refs L h = count N \<and>
    keeps L N (so_heap s) h"
proof (cases "so_pipeline s")
  case None
  then show ?thesis
    using assms by (auto simp: teardown_playbin_obj_def intro!: exI [of _ "so_heap s"])
next
  case (Some p)
  then show ?thesis
    using assms counted_unref [of "so_heap s" p N] by (auto simp: teardown_playbin_obj_def)
qed

lemma create_ok:
  assumes "lib_refs L (so_heap s) = count N" "so_pipeline s = None" "create_playbin_obj L made s = s'"
  shows "lib_refs L (so_heap s') = count (owned (so_pipeline s') + N) \<and> keeps L N (so_heap s) (so_heap s') \<and>
    (\<forall>p. so_pipeline s' = Some p \<longrightarrow> pipeline_number L (so_heap s') p \<noteq> None) \<and>
    so_loop s' = so_loop s \<and> so_clock s' = so_clock s \<and> so_callbacks s' = so_callbacks s \<and> so_bus s' = so_bus s \<and>
    so_posted s' = so_posted s \<and> so_lost s' = so_lost s"
proof (cases made)
  case True
  obtain p h where new: "lib_new L (PipelineObj (so_made s)) (so_heap s) = (p, h)" by force
  then have "s' = s\<lparr>so_heap := h, so_pipeline := Some p, so_made := Suc (so_made s)\<rparr>"
    using assms(3) True by (simp add: create_playbin_obj_def)
  then show ?thesis using counted_new [OF assms(1) new] by (simp add: pipeline_number_def)
next
  case False
  then show ?thesis using assms by (auto simp: create_playbin_obj_def)
qed

lemma inv_facts:
  assumes "so_inv L s"
  shows "lib_refs L (so_heap s) = count (so_held s)" "list_all (callback_ok L (so_heap s)) (so_callbacks s)"
    "list_all post_ok (so_posted s)" "so_pipeline s = Some p \<Longrightarrow> pipeline_number L (so_heap s) p \<noteq> None"
  using assms by (simp_all add: so_inv_def)

lemma callbacks_in_rest: "sum_list (map callback_owned (so_callbacks s)) \<subseteq># rest_held s"
proof -
  have "rest_held s = sum_list (map callback_owned (so_callbacks s)) + add_mset (so_loop s) (mset (so_bus s) + mset (so_lost s))"
    by (simp add: rest_held_def)
  then show ?thesis by simp
qed

lemma callbacks_owned: "sum_list (map callback_owned (so_callbacks s)) \<subseteq># so_held s"
proof -
  have "rest_held s \<subseteq># so_held s" by (simp add: so_held_rest)
  then show ?thesis by (rule subset_mset.order_trans [OF callbacks_in_rest])
qed

lemma setup_inv:
  assumes "so_inv L s" "so_enabled (Setup made) s"
  shows "\<exists>s'. setup_obj L made s = Some s' \<and> so_inv L s'"
proof -
  have own: "lib_refs L (so_heap s) = count (rest_held s)"
    using inv_facts(1) [OF assms(1)] assms(2) by (simp add: so_held_rest)
  obtain s1 where s1: "create_playbin_obj L made s = s1" by simp
  note c = create_ok [OF own _ s1]
  show ?thesis
  proof (cases "so_pipeline s1")
    case None
    have "so_inv L s1"
      using c assms(2) None inv_facts(3) [OF assms(1)] keeps_callbacks [OF inv_facts(2) [OF assms(1)] _ callbacks_in_rest]
      by (simp add: so_inv_def so_held_rest rest_held_def)
    then show ?thesis using s1 None by (simp add: setup_obj_def)
  next
    case (Some p)
    let ?N = "add_mset p (rest_held s)"
    have r: "lib_refs L (so_heap s1) = count ?N" "keeps L (rest_held s) (so_heap s) (so_heap s1)"
      using c assms(2) Some by simp_all
    obtain cl h where new: "lib_new L ClockObj (so_heap s1) = (cl, h)" by force
    note h = counted_new [OF r(1) new]
    obtain h1 where h1: "lib_ref L (so_loop s1) h = Some h1" "lib_refs L h1 = count (add_mset (so_loop s1) (add_mset cl ?N))" "lib_read L h1 = lib_read L h"
      using counted_ref [OF h(1), of "so_loop s1"] c assms(2) by (auto simp: rest_held_def)
    have k: "keeps L ?N (so_heap s1) h1" using h(2) h1(3) by (simp add: keeps_def)
    have "keeps L (rest_held s) (so_heap s) h1"
      using keeps_trans [OF r(2) keeps_mono [OF k]] by simp
    then have cbs: "list_all (callback_ok L h1) (so_callbacks s)"
      by (rule keeps_callbacks [OF inv_facts(2) [OF assms(1)] _ callbacks_in_rest])
    have "pipeline_number L h1 p \<noteq> None" using keeps_pipeline [OF k, of p] c assms(2) Some by simp
    then show ?thesis
      using Some s1 new h1(1,2) cbs c assms(2) inv_facts(3) [OF assms(1)]
      by (simp add: setup_obj_def Let_def so_inv_def so_held_rest rest_held_def add_mset_commute)
  qed
qed

lemma rebuild_inv:
  assumes "so_inv L s"
  shows "\<exists>s'. rebuild_playbin_obj L made s = Some s' \<and> so_inv L s'"
proof -
  let ?N = "owned (so_clock s) + (if so_clock s = None then {#} else {#so_loop s#}) + rest_held s"
  obtain h where h: "teardown_playbin_obj L s = Some (s\<lparr>so_heap := h, so_pipeline := None\<rparr>)" "lib_refs L h = count ?N"
    "keeps L ?N (so_heap s) h"
    using teardown_ok [of s ?N] inv_facts(1) [OF assms] by (auto simp: so_held_rest)
  define s' where "s' = create_playbin_obj L made (s\<lparr>so_heap := h, so_pipeline := None\<rparr>)"
  have c: "lib_refs L (so_heap s') = count (owned (so_pipeline s') + ?N) \<and> keeps L ?N h (so_heap s') \<and>
    (\<forall>p. so_pipeline s' = Some p \<longrightarrow> pipeline_number L (so_heap s') p \<noteq> None) \<and>
    so_loop s' = so_loop s \<and> so_clock s' = so_clock s \<and> so_callbacks s' = so_callbacks s \<and> so_bus s' = so_bus s \<and>
    so_posted s' = so_posted s \<and> so_lost s' = so_lost s"
    using create_ok [of "s\<lparr>so_heap := h, so_pipeline := None\<rparr>" ?N made s'] h(2) by (simp add: s'_def)
  have "keeps L ?N (so_heap s) (so_heap s')" using keeps_trans [OF h(3)] c by blast
  then have cbs: "list_all (callback_ok L (so_heap s')) (so_callbacks s)"
    by (rule keeps_callbacks [OF inv_facts(2) [OF assms]]) (simp add: callbacks_in_rest subset_mset.add_increasing)
  have "so_held s' = owned (so_pipeline s') + ?N" using c by (simp add: so_held_rest rest_held_def)
  then have "so_inv L s'" using c cbs inv_facts(3) [OF assms] by (simp add: so_inv_def)
  then show ?thesis using h(1) by (simp add: rebuild_playbin_obj_def s'_def)
qed

lemma inject_inv:
  assumes "so_inv L s"
  shows "\<exists>s'. inject_stream_failure_obj L domain code s = Some s' \<and> so_inv L s'"
proof (cases "domain \<in> {''core'', ''library'', ''resource'', ''stream''} \<and> so_pipeline s \<noteq> None")
  case False
  then show ?thesis using assms by (auto simp: inject_stream_failure_obj_def split: option.split)
next
  case True
  let ?N = "so_held s"
  obtain p where p: "so_pipeline s = Some p" using True by auto
  obtain n where n: "pipeline_number L (so_heap s) p = Some n" using inv_facts(4) [OF assms p] by auto
  have in_N: "p \<in># ?N" by (simp add: so_held_rest p)
  obtain e h1 where e: "lib_new L SinkObj (so_heap s) = (e, h1)" by force
  note h1 = counted_new [OF inv_facts(1) [OF assms] e]
  obtain m h2 where m: "lib_new L (ErrorMessage n domain code) h1 = (m, h2)" by force
  note h2 = counted_new [OF h1(1) m]
  obtain h3 where h3: "lib_unref L e h2 = Some h3" "lib_refs L h3 = count (add_mset m ?N)" "keeps L (add_mset m ?N) h2 h3"
    using counted_unref [of h2 e "add_mset m ?N"] h2(1) by (auto simp: add_mset_commute)
  obtain h4 where h4: "lib_ref L p h3 = Some h4" "lib_refs L h4 = count (add_mset p (add_mset m ?N))" "lib_read L h4 = lib_read L h3"
    using counted_ref [OF h3(2), of p] in_N by auto
  obtain h5 where h5: "lib_ref L m h4 = Some h5" "lib_refs L h5 = count (add_mset m (add_mset p (add_mset m ?N)))" "lib_read L h5 = lib_read L h4"
    using counted_ref [OF h4(2), of m] by auto
  have k: "keeps L ?N (so_heap s) h5"
    using keeps_trans [OF keeps_trans [OF h1(2) keeps_mono [OF h2(2)]] keeps_mono [OF h3(3)]] h4(3) h5(3)
    by (simp add: keeps_def)
  define s' where "s' = s\<lparr>so_heap := h5, so_callbacks := so_callbacks s @ [(p, Some m)]\<rparr>"
  have "lib_read L h5 m = Some (ErrorMessage n domain code)"
    using h2(3) h3(3) h4(3) h5(3) by (simp add: keeps_def)
  moreover have "pipeline_number L h5 p = Some n" using keeps_pipeline [OF k in_N] n by simp
  then have "lib_read L h5 p = Some (PipelineObj n)" by (auto simp: pipeline_number_def split: option.splits gst_obj.splits)
  ultimately have "callback_ok L h5 (p, Some m)" by (auto simp: callback_ok_def)
  moreover have "list_all (callback_ok L h5) (so_callbacks s)"
    by (rule keeps_callbacks [OF inv_facts(2) [OF assms] k callbacks_owned])
  moreover have "so_held s' = add_mset m (add_mset p (add_mset m ?N))"
    by (simp add: s'_def so_held_def callback_owned_def)
  ultimately have "so_inv L s'"
    using h5(2) inv_facts(3) [OF assms] keeps_pipeline [OF k in_N] n p by (simp add: so_inv_def s'_def)
  then show ?thesis
    using True p n e m h3(1) h4(1) h5(1)
    by (simp add: inject_stream_failure_obj_def callback_data_new_def Let_def s'_def)
qed

lemma remove_at_split: "i < length xs \<Longrightarrow> \<exists>ys zs. xs = ys @ xs ! i # zs \<and> remove_at i xs = ys @ zs"
  using id_take_nth_drop [of i xs] by (auto simp: remove_at_def)

lemma idle_inv:
  assumes "so_inv L s" "i < length (so_callbacks s)"
  shows "\<exists>s'. so_apply L (RunIdle i) s = Some s' \<and> so_inv L s'"
proof -
  obtain ys zs where cbs: "so_callbacks s = ys @ so_callbacks s ! i # zs" "remove_at i (so_callbacks s) = ys @ zs"
    using remove_at_split [OF assms(2)] by blast
  have all: "list_all (callback_ok L (so_heap s)) (ys @ so_callbacks s ! i # zs)"
    using inv_facts(2) [OF assms(1)] cbs(1) by simp
  then obtain p m n d c where cb: "so_callbacks s ! i = (p, Some m)" "lib_read L (so_heap s) p = Some (PipelineObj n)"
    "lib_read L (so_heap s) m = Some (ErrorMessage n d c)"
    by (cases "so_callbacks s ! i") (auto simp: callback_ok_def)
  have sum: "sum_list (map callback_owned (so_callbacks s)) = {#p, m, m#} + sum_list (map callback_owned (ys @ zs))"
    by (subst cbs(1)) (simp add: cb callback_owned_def)
  define t where "t = (if so_pipeline s \<noteq> Some p then s\<lparr>so_callbacks := ys @ zs, so_lost := so_lost s @ [m]\<rparr>
      else s\<lparr>so_callbacks := ys @ zs, so_bus := so_bus s @ [m], so_posted := so_posted s @ [(n, ErrorMessage n d c)]\<rparr>)"
  have t_cbs: "so_callbacks t = ys @ zs" by (simp add: t_def)
  have own: "so_held s = add_mset p (add_mset m (so_held t))"
    by (simp add: so_held_def sum t_def)
  obtain h1 where h1: "lib_unref L p (so_heap s) = Some h1" "lib_refs L h1 = count (add_mset m (so_held t))"
    "keeps L (add_mset m (so_held t)) (so_heap s) h1"
    using counted_unref [of "so_heap s" p] inv_facts(1) [OF assms(1)] own by auto
  obtain h2 where h2: "lib_unref L m h1 = Some h2" "lib_refs L h2 = count (so_held t)" "keeps L (so_held t) h1 h2"
    using counted_unref [OF h1(2)] by blast
  have k: "keeps L (so_held t) (so_heap s) h2" by (rule keeps_trans [OF keeps_mono [OF h1(3)] h2(3)]) simp
  have "list_all (callback_ok L h2) (ys @ zs)"
    using keeps_callbacks [OF _ k, of "ys @ zs"] callbacks_owned [of t] t_cbs all by simp
  moreover have "pipeline_number L h2 q \<noteq> None" if "so_pipeline s = Some q" for q
    using keeps_pipeline [OF k, of q] inv_facts(4) [OF assms(1) that] that by (simp add: t_def so_held_rest)
  moreover have "so_held (t\<lparr>so_heap := h2\<rparr>) = so_held t" by (simp add: so_held_def)
  ultimately have "so_inv L (t\<lparr>so_heap := h2\<rparr>)"
    using h2(2) inv_facts(3) [OF assms(1)] by (simp add: so_inv_def t_def post_ok_def)
  moreover have "so_apply L (RunIdle i) s = Some (t\<lparr>so_heap := h2\<rparr>)"
    using cb cbs(2) h1(1) h2(1) unfolding t_def
    by (cases "so_pipeline s = Some p")
      (simp_all add: post_injected_failure_obj_def pipeline_number_def callback_data_delete_def unref_if_def)
  ultimately show ?thesis by blast
qed

lemma dispatch_inv:
  assumes "so_inv L s" "i < length (so_bus s)"
  shows "\<exists>s'. so_apply L (Dispatch i) s = Some s' \<and> so_inv L s'"
proof -
  obtain ys zs where bus: "so_bus s = ys @ so_bus s ! i # zs" "remove_at i (so_bus s) = ys @ zs"
    using remove_at_split [OF assms(2)] by blast
  define t where "t = s\<lparr>so_bus := ys @ zs\<rparr>"
  have "mset (so_bus s) = add_mset (so_bus s ! i) (mset (ys @ zs))" by (subst bus(1)) simp
  then have own: "so_held s = add_mset (so_bus s ! i) (so_held t)" by (simp add: so_held_def t_def)
  obtain h where h: "lib_unref L (so_bus s ! i) (so_heap s) = Some h" "lib_refs L h = count (so_held t)" "keeps L (so_held t) (so_heap s) h"
    using counted_unref [of "so_heap s"] inv_facts(1) [OF assms(1)] own by auto
  have "list_all (callback_ok L h) (so_callbacks s)"
    using keeps_callbacks [OF inv_facts(2) [OF assms(1)] h(3)] callbacks_owned [of t] by (simp add: t_def)
  moreover have "pipeline_number L h q \<noteq> None" if "so_pipeline s = Some q" for q
    using keeps_pipeline [OF h(3), of q] inv_facts(4) [OF assms(1) that] that by (simp add: t_def so_held_rest)
  moreover have "so_held (s\<lparr>so_heap := h, so_bus := ys @ zs\<rparr>) = so_held t" by (simp add: so_held_def t_def)
  ultimately have "so_inv L (s\<lparr>so_heap := h, so_bus := ys @ zs\<rparr>)"
    using h(2) inv_facts(3) [OF assms(1)] by (simp add: so_inv_def)
  then show ?thesis using h(1) bus(2) by (simp add: t_def)
qed

lemma shutdown_inv:
  assumes "so_inv L s" "so_clock s \<noteq> None"
  shows "\<exists>s'. shutdown_obj L s = Some s' \<and> so_inv L s' \<and> so_pipeline s' = None \<and> so_clock s' = None"
proof -
  obtain c where c: "so_clock s = Some c" using assms(2) by auto
  have "so_held s = add_mset (so_loop s) (owned (so_pipeline s) + add_mset c (rest_held s))"
    by (simp add: so_held_rest c)
  then obtain h where h: "lib_unref L (so_loop s) (so_heap s) = Some h" "lib_refs L h = count (owned (so_pipeline s) + add_mset c (rest_held s))"
    "keeps L (owned (so_pipeline s) + add_mset c (rest_held s)) (so_heap s) h"
    using counted_unref [of "so_heap s" "so_loop s"] inv_facts(1) [OF assms(1)] by auto
  obtain h1 where h1: "teardown_playbin_obj L (s\<lparr>so_heap := h\<rparr>) = Some (s\<lparr>so_heap := h1, so_pipeline := None\<rparr>)"
    "lib_refs L h1 = count (add_mset c (rest_held s))" "keeps L (add_mset c (rest_held s)) h h1"
    using teardown_ok [of "s\<lparr>so_heap := h\<rparr>" "add_mset c (rest_held s)"] h(2) by auto
  obtain h2 where h2: "lib_unref L c h1 = Some h2" "lib_refs L h2 = count (rest_held s)" "keeps L (rest_held s) h1 h2"
    using counted_unref [OF h1(2)] by blast
  have "keeps L (rest_held s) (so_heap s) h2"
    using keeps_trans [OF keeps_trans [OF keeps_mono [OF h(3)] keeps_mono [OF h1(3)]] h2(3)] by simp
  then have "list_all (callback_ok L h2) (so_callbacks s)"
    by (rule keeps_callbacks [OF inv_facts(2) [OF assms(1)] _ callbacks_in_rest])
  then have "so_inv L (s\<lparr>so_pipeline := None, so_heap := h2, so_clock := None\<rparr>)"
    using h2(2) inv_facts(3) [OF assms(1)] by (simp add: so_inv_def so_held_rest rest_held_def)
  then show ?thesis using h(1) h1(1) h2(1) c by (simp add: shutdown_obj_def)
qed

lemma so_step_ok: "so_inv L s \<Longrightarrow> so_enabled op s \<Longrightarrow> \<exists>s'. so_apply L op s = Some s' \<and> so_inv L s'"
proof (induction op)
  case (Setup made)
  then show ?case unfolding so_apply.simps by (rule setup_inv)
next
  case (Shutdown)
  then show ?case using shutdown_inv [of s] by auto
qed (simp_all only: so_apply.simps(2,3) so_enabled.simps rebuild_inv inject_inv idle_inv dispatch_inv)

lemma so_inv_start: "so_initial L s \<Longrightarrow> so_inv L s"
  by (auto simp: so_initial_def so_inv_def so_held_def fun_eq_iff)

lemma so_machine: "machine (so_initial L) (so_step L) (so_inv L)"
proof
  show "so_inv L s" if "so_initial L s" for s using that by (rule so_inv_start)
  show "so_inv L s'" if "so_inv L s" "so_step L s op s'" for s op s'
    using that so_step_ok [of s op] by (auto simp: so_step_def)
qed

end

interpretation heap_gst_objects: gst_objects "heap_lib A" ..

interpretation streamer_objects: machine "so_initial (heap_lib A)" "so_step (heap_lib A)" "so_inv (heap_lib A)"
  by (rule heap_gst_objects.so_machine)

section \<open>A failure that comes too late\<close>

fun so_run :: "('h, gst_obj) object_lib \<Rightarrow> so_op list \<Rightarrow> 'h streamer_objects \<Rightarrow> 'h streamer_objects option" where
  "so_run L [] s = Some s"
| "so_run L (op # ops) s = (if so_enabled op s then so_apply L op s \<bind> so_run L ops else None)"

lemma so_run_reachable:
  "so_run L ops s = Some s' \<Longrightarrow> reachable (so_initial L) (so_step L) s \<Longrightarrow> reachable (so_initial L) (so_step L) s'"
proof (induction ops arbitrary: s)
  case (Cons op ops)
  then obtain s1 where "so_step L s op s1" "so_run L ops s1 = Some s'"
    by (auto simp: so_step_def bind_eq_Some_conv split: if_splits)
  then show ?case using Cons.IH reach_step [OF Cons.prems(2), of op s1] by simp
qed simp

definition so_start :: "gst_obj heap streamer_objects" where
  "so_start = \<lparr>so_heap = [Some (LoopObj, 0)], so_loop = 0, so_pipeline = None, so_clock = None, so_callbacks = [],
     so_bus = [], so_made = 0, so_posted = [], so_lost = []\<rparr>"

lemma so_start_reachable: "reachable (so_initial (heap_lib A)) (so_step (heap_lib A)) so_start"
  by (rule reach_init) (auto simp: so_initial_def so_start_def heap_lib_sel lookup_obj_def fun_eq_iff)

text \<open>A failure is injected, and the pipeline is replaced before the idle function runs; another failure
  is posted.\<close>
definition sample_failures :: "so_op list" where
  "sample_failures = [Setup True, Inject ''core'' 1, Rebuild True, RunIdle 0, Inject ''stream'' 2, RunIdle 0, Dispatch 0]"

lemma sample_failures_run:
  "case so_run (heap_lib first_fit) sample_failures so_start of None \<Rightarrow> False
   | Some s \<Rightarrow> so_posted s = [(1, ErrorMessage 1 ''stream'' 2)] \<and> so_callbacks s = [] \<and> so_bus s = [] \<and>
       length (so_lost s) = 1 \<and> lib_read (heap_lib first_fit) (so_heap s) (hd (so_lost s)) = Some (ErrorMessage 0 ''core'' 1)"
  by code_simp

text \<open>The message that could not be posted is never freed: \<open>post_injected_failure()\<close> returns without
  giving up the reference it was to pass on.\<close>
lemma late_failure_is_lost:
  "case so_run (heap_lib first_fit) (sample_failures @ [Shutdown]) so_start of None \<Rightarrow> False
   | Some s \<Rightarrow> so_lost s \<noteq> [] \<and> lib_refs (heap_lib first_fit) (so_heap s) (hd (so_lost s)) = 1 \<and>
       list_all (\<lambda>p. lib_read (heap_lib first_fit) (so_heap s) p \<noteq> None \<longrightarrow> p \<in> set (so_loop s # so_lost s)) [0..<length (so_heap s)]"
  by code_simp

section \<open>Tags in the streamer\<close>

text \<open>\<open>handle_tag()\<close> of the streamer's model does to the current item's meta data, and to the throttle,
  what the handler with reference counted objects does.\<close>
lemma emit_tags_as_values:
  assumes "current_stream (pl s) = Some it"
    "emit_tags_value (STREAM_ID_SOURCE_INVALID E) (gst_clock_get_time E (world s)) (item_id it)
       (item_stream_data it) (md_update (pr s)) = (sent, u)"
  shows "\<exists>s'. emit_tags_unlocked E s = Some s' \<and> current_stream (pl s') = Some it \<and> md_update (pr s') = u \<and>
    trace s' = trace s @ (case sent of None \<Rightarrow> [] | Some md \<Rightarrow> [MetaDataChanged (item_id it) md])"
  using assms by (auto simp: emit_tags_unlocked_def emit_tags_value_def emit_def Let_def split: prod.splits if_splits)

lemma handle_tag_as_values:
  assumes it: "current_stream (pl s) = Some it"
    and v: "handle_tag_value (tags_env E) (STREAM_ID_SOURCE_INVALID E) (gst_clock_get_time E (world s)) tags (item_id it)
       (item_stream_data it) (md_update (pr s)) = (sd, images, sent, u)"
  shows "\<exists>s'. handle_tag E tags s = Some s' \<and> current_stream (pl s') = Some (it\<lparr>item_stream_data := sd\<rparr>) \<and>
    md_update (pr s') = u"
proof -
  obtain sd1 where p: "update_picture_for_item (Some tags) (item_stream_data it) = (images, sd1)"
    using v by (auto simp: handle_tag_value_def Let_def split: prod.splits if_splits)
  obtain allowed timer u1 where t: "try_emit_tags (gst_clock_get_time E (world s)) (md_update (pr s)) = (allowed, timer, u1)"
    by (cases "try_emit_tags (gst_clock_get_time E (world s)) (md_update (pr s))")
  define s1 where "s1 = put_item CurrentItem (it\<lparr>item_stream_data := merge_tag_list (tags_env E) (Some tags) sd1\<rparr>)
    (s\<lparr>trace := trace s @ map (\<lambda>(k, p, a, n). AddImageByData k p a n) images\<rparr>)"
  have s1: "world s1 = world s" "md_update (pr s1) = md_update (pr s)"
    "current_stream (pl s1) = Some (it\<lparr>item_stream_data := merge_tag_list (tags_env E) (Some tags) sd1\<rparr>)"
    using it by (simp_all add: s1_def put_item_def world_def)
  define s3 where "s3 = (case timer of None \<Rightarrow> s1\<lparr>pr := (pr s1)\<lparr>md_update := u1\<rparr>\<rparr>
    | Some ms \<Rightarrow> emit (TagTimer ms) (s1\<lparr>pr := (pr s1)\<lparr>md_update := u1\<rparr>\<rparr>))"
  have s3: "world s3 = world s1" "md_update (pr s3) = u1" "current_stream (pl s3) = current_stream (pl s1)"
    by (simp_all add: s3_def world_def emit_def split: option.split)
  have eq: "handle_tag E tags s = (if allowed then emit_tags_unlocked E s3 else Some s3)"
    unfolding handle_tag_def it option.case p prod.case s1_def [symmetric] Let_def s1 t s3_def ..
  have sd: "sd = merge_tag_list (tags_env E) (Some tags) sd1"
    using v p t by (simp add: handle_tag_value_def Let_def split: if_splits)
  show ?thesis
  proof (cases allowed)
    case False
    then show ?thesis using eq s3 s1 sd v p t by (simp add: handle_tag_value_def Let_def)
  next
    case True
    then have e: "emit_tags_value (STREAM_ID_SOURCE_INVALID E) (gst_clock_get_time E (world s3)) (item_id it) sd u1 = (sent, u)"
      using v p t sd s1 s3 by (simp add: handle_tag_value_def Let_def)
    then show ?thesis
      using emit_tags_as_values [of s3 "it\<lparr>item_stream_data := sd\<rparr>" E sent u] s1 s3 sd eq True by auto
  qed
qed

section \<open>Property\<close>

text \<open>C23. An injected failure reaches the pipeline it was made for or none: however pipelines are replaced,
  idle functions delayed and addresses used again, no operation touches an object that is gone, and each
  message that was posted was posted to the pipeline it was made for.  Every object in memory is
  owned by the streamer, a pending idle function, the bus or \<open>main()\<close>, or it is a message that was
  lost because its pipeline had been replaced when it was to be posted: an object has as many
  references as it has owners, and one more for having been lost.\<close>
theorem injected_failures_safe:
  assumes "counted_objects L" "reachable (so_initial L) (so_step L) s"
  shows "(\<forall>op. so_enabled op s \<longrightarrow> so_apply L op s \<noteq> None) \<and>
    (\<forall>(n, msg) \<in> set (so_posted s). \<exists>domain code. msg = ErrorMessage n domain code) \<and>
    (\<forall>p. lib_read L (so_heap s) p \<noteq> None \<longleftrightarrow> p \<in># so_owned s \<or> p \<in> set (so_lost s)) \<and>
    (\<forall>p. lib_refs L (so_heap s) p = count (so_owned s) p + count_list (so_lost s) p)"
proof -
  note lib = gst_objects.intro [OF assms(1)]
  have inv: "so_inv L s" by (rule machine.reachable_inv [OF gst_objects.so_machine [OF lib] assms(2)])
  have "so_enabled op s \<Longrightarrow> so_apply L op s \<noteq> None" for op using gst_objects.so_step_ok [OF lib inv] by blast
  moreover have "\<forall>(n, msg) \<in> set (so_posted s). \<exists>domain code. msg = ErrorMessage n domain code"
    using inv by (auto simp: so_inv_def list_all_iff post_ok_def)
  moreover have "lib_read L (so_heap s) p \<noteq> None \<longleftrightarrow> p \<in># so_owned s \<or> p \<in> set (so_lost s)" for p
    using counted_objects.owned_read [OF assms(1), of "so_heap s" "so_held s" p] inv
    by (simp add: so_inv_def so_held_owned)
  moreover have "lib_refs L (so_heap s) p = count (so_owned s) p + count_list (so_lost s) p" for p
    using inv by (simp add: so_inv_def so_held_owned count_mset)
  ultimately show ?thesis by blast
qed

lemma injected_failures_safe_witness:
  "\<exists>s. so_run (heap_lib first_fit) sample_failures so_start = Some s \<and> so_apply (heap_lib first_fit) (Inject ''core'' 3) s \<noteq> None"
proof (cases "so_run (heap_lib first_fit) sample_failures so_start")
  case None
  then show ?thesis using sample_failures_run by simp
next
  case (Some s)
  then show ?thesis
    using injected_failures_safe [OF objects.counted_objects_axioms so_run_reachable [OF Some so_start_reachable]] by (metis so_enabled.simps(3))
qed

end
