(* ===== verification/Dbus_Connection.thy ===== *)
theory Dbus_Connection
  imports Streamer_Machine
begin

text \<open>
  How the player is connected to D-Bus (\<^verbatim>\<open>src/dbus.cc\<close>): the interfaces it exports with the
  handler of each method, the services it watches, and what it does once a proxy of a service is
  connected.

  The D-Bus wrapper library (namespace \<open>TDBus\<close>) is not part of the sources.  What is used of it is
  what its calls say: a method handler that was connected is called for its method once the
  interface was added to the bus, a watcher is called when its service appears or vanishes, the
  function given to \<open>connect_proxy()\<close> is called with the result, at most once for each call of
  \<open>connect_proxy()\<close>, and a handler of a signal is called only after it was connected.  The events of
  the library are the steps of the machine \<open>dbus_step\<close>.  The program connects the handlers of the
  signals of a service again each time that a proxy of the service was connected, and the model
  records every such call.  How often the library then runs a handler for one signal on the bus is
  not in the sources, and nothing is said about it: a \<open>signal_call\<close> is one call of a handler by the
  library, not one signal on the bus.  The default handlers of the logging interfaces belong to the
  library, too; they do not touch the player.
\<close>

section \<open>The connection\<close>

datatype dbus_iface = IfacePlayback | IfaceURLFIFO | IfaceLogging | IfacePlayer

datatype dbus_method =
    PlaybackStart | PlaybackStop | PlaybackPause | PlaybackSeek | PlaybackSetSpeed
  | PlaybackInjectStreamFailure | URLFIFOClear | URLFIFONext | URLFIFOPush
  | PlayerActivate | PlayerDeactivate | LoggingDebugLevel

datatype dbus_handler =
    Hplayback_start | Hplayback_stop | Hplayback_pause | Hplayback_seek | Hplayback_set_speed
  | Hplayback_inject_failure | Hfifo_clear | Hfifo_next | Hfifo_push
  | Haudiopath_player_activate | Haudiopath_player_deactivate | Hdefault_logging

text \<open>The peers, with their bus names.\<close>
datatype dbus_peer = PeerDcpd | PeerTapSwitch | PeerMounTA | PeerTuneInBroker

fun peer_name :: "dbus_peer \<Rightarrow> string" where
  "peer_name PeerDcpd = ''de.tahifi.Dcpd''"
| "peer_name PeerTapSwitch = ''de.tahifi.TAPSwitch''"
| "peer_name PeerMounTA = ''de.tahifi.MounTA''"
| "peer_name PeerTuneInBroker = ''de.tahifi.TuneInBroker''"

datatype dbus_signal =
    GlobalDebugLevelChanged | DeviceWillBeRemoved | AirableDataAvailable | AirableDataError

text \<open>
  \<open>proxy_pending\<close> has an entry for each call of \<open>connect_proxy()\<close> whose result is not known yet,
  \<open>signal_connects\<close> one for each call that connected a handler to a signal, in the order of the
  calls; \<open>registered\<close> counts the calls of the audio path manager's method \<open>RegisterPlayer\<close>.
\<close>
record dbus_bus =
  iface_handlers :: "dbus_iface \<Rightarrow> (dbus_method \<rightharpoonup> dbus_handler)"
  exported :: "dbus_iface set"
  watched :: "dbus_peer set"
  proxy_pending :: "dbus_peer list"
  signal_connects :: "dbus_signal list"
  registered :: nat
  bus_connected :: bool

definition dbus_bus_init :: dbus_bus where
  "dbus_bus_init =
     \<lparr>iface_handlers = (\<lambda>_. Map.empty), exported = {}, watched = {}, proxy_pending = [],
      signal_connects = [], registered = 0, bus_connected = False\<rparr>"

definition export_iface :: "dbus_iface \<Rightarrow> (dbus_method \<times> dbus_handler) list \<Rightarrow> dbus_bus \<Rightarrow> dbus_bus" where
  "export_iface i hs b =
     b\<lparr>iface_handlers := (iface_handlers b)(i := iface_handlers b i ++ map_of hs),
       exported := insert i (exported b)\<rparr>"

definition add_watcher :: "dbus_peer \<Rightarrow> dbus_bus \<Rightarrow> dbus_bus" where
  "add_watcher p b = b\<lparr>watched := insert p (watched b)\<rparr>"

section \<open>Setting up\<close>

definition player_ifaces :: "dbus_bus \<Rightarrow> dbus_bus" where
  "player_ifaces b =
     export_iface IfaceURLFIFO
       [(URLFIFOClear, Hfifo_clear), (URLFIFONext, Hfifo_next), (URLFIFOPush, Hfifo_push)]
       (export_iface IfacePlayback
         [(PlaybackStart, Hplayback_start), (PlaybackStop, Hplayback_stop), (PlaybackPause, Hplayback_pause),
          (PlaybackSeek, Hplayback_seek), (PlaybackSetSpeed, Hplayback_set_speed),
          (PlaybackInjectStreamFailure, Hplayback_inject_failure)] b)"

definition debugging_and_logging :: "dbus_bus \<Rightarrow> dbus_bus" where
  "debugging_and_logging b =
     add_watcher PeerDcpd (export_iface IfaceLogging [(LoggingDebugLevel, Hdefault_logging)] b)"

definition audio_player :: "dbus_bus \<Rightarrow> dbus_bus" where
  "audio_player b =
     add_watcher PeerTapSwitch
       (export_iface IfacePlayer
         [(PlayerActivate, Haudiopath_player_activate), (PlayerDeactivate, Haudiopath_player_deactivate)] b)"

definition mounta_watch :: "dbus_bus \<Rightarrow> dbus_bus" where
  "mounta_watch b = add_watcher PeerMounTA b"

definition airable_list_broker :: "dbus_bus \<Rightarrow> dbus_bus" where
  "airable_list_broker b = add_watcher PeerTuneInBroker b"

definition dbus_setup :: "dbus_bus \<Rightarrow> dbus_bus" where
  "dbus_setup b =
     (airable_list_broker (mounta_watch (audio_player (debugging_and_logging (player_ifaces b)))))
       \<lparr>bus_connected := True\<rparr>"

section \<open>Peers come and go\<close>

text \<open>The watchers of all services connect a proxy when the service appears; they do nothing but log
  when it vanishes.\<close>
definition name_appeared :: "dbus_peer \<Rightarrow> dbus_bus \<Rightarrow> dbus_bus" where
  "name_appeared p b =
     (if p \<in> watched b then b\<lparr>proxy_pending := p # proxy_pending b\<rparr> else b)"

definition name_vanished :: "dbus_peer \<Rightarrow> dbus_bus \<Rightarrow> dbus_bus" where
  "name_vanished p b = b"

definition connect_signal :: "dbus_signal \<Rightarrow> dbus_bus \<Rightarrow> dbus_bus" where
  "connect_signal sig b = b\<lparr>signal_connects := signal_connects b @ [sig]\<rparr>"

text \<open>The functions given to \<open>connect_proxy()\<close> for the four peers.\<close>
definition dcpd_proxy :: "bool \<Rightarrow> dbus_bus \<Rightarrow> dbus_bus" where
  "dcpd_proxy succeeded b = (if succeeded then connect_signal GlobalDebugLevelChanged b else b)"

definition tapswitch_proxy :: "bool \<Rightarrow> dbus_bus \<Rightarrow> dbus_bus" where
  "tapswitch_proxy succeeded b = (if \<not> succeeded then b else b\<lparr>registered := Suc (registered b)\<rparr>)"

definition mounta_proxy :: "bool \<Rightarrow> dbus_bus \<Rightarrow> dbus_bus" where
  "mounta_proxy succeeded b = (if succeeded then connect_signal DeviceWillBeRemoved b else b)"

definition airable_proxy :: "bool \<Rightarrow> dbus_bus \<Rightarrow> dbus_bus" where
  "airable_proxy succeeded b =
     (if succeeded then connect_signal AirableDataError (connect_signal AirableDataAvailable b) else b)"

definition proxy_connected :: "dbus_peer \<Rightarrow> bool \<Rightarrow> dbus_bus \<Rightarrow> dbus_bus" where
  "proxy_connected p succeeded b =
     (case p of PeerDcpd \<Rightarrow> dcpd_proxy | PeerTapSwitch \<Rightarrow> tapswitch_proxy
              | PeerMounTA \<Rightarrow> mounta_proxy | PeerTuneInBroker \<Rightarrow> airable_proxy)
       succeeded (b\<lparr>proxy_pending := remove1 p (proxy_pending b)\<rparr>)"

lemmas proxy_defs = proxy_connected_def dcpd_proxy_def tapswitch_proxy_def mounta_proxy_def airable_proxy_def
  connect_signal_def

section \<open>Methods and signals\<close>

datatype method_call =
    CallStart string | CallStop string | CallPause string | CallSeek int string | CallSetSpeed
  | CallInject string nat | CallClear int | CallNext
  | CallPush nat stream_id "(string \<times> bool) list" stream_key int string_pairs
  | CallActivate | CallDeactivate | CallDebugLevel string

fun called_method :: "method_call \<Rightarrow> dbus_iface \<times> dbus_method" where
  "called_method (CallStart r) = (IfacePlayback, PlaybackStart)"
| "called_method (CallStop r) = (IfacePlayback, PlaybackStop)"
| "called_method (CallPause r) = (IfacePlayback, PlaybackPause)"
| "called_method (CallSeek pos u) = (IfacePlayback, PlaybackSeek)"
| "called_method CallSetSpeed = (IfacePlayback, PlaybackSetSpeed)"
| "called_method (CallInject d c) = (IfacePlayback, PlaybackInjectStreamFailure)"
| "called_method (CallClear n) = (IfaceURLFIFO, URLFIFOClear)"
| "called_method CallNext = (IfaceURLFIFO, URLFIFONext)"
| "called_method (CallPush smax sid v k keep md) = (IfaceURLFIFO, URLFIFOPush)"
| "called_method CallActivate = (IfacePlayer, PlayerActivate)"
| "called_method CallDeactivate = (IfacePlayer, PlayerDeactivate)"
| "called_method (CallDebugLevel l) = (IfaceLogging, LoggingDebugLevel)"

text \<open>What a handler makes of the arguments of a call; \<open>None\<close> if they are not those of its method.
  The methods \<open>SetSpeed\<close> and \<open>DebugLevel\<close> do nothing to the player.\<close>
definition handler_ops :: "dbus_handler \<Rightarrow> method_call \<Rightarrow> 'w streamer_op list option" where
  "handler_ops h c =
     (case c of
        CallStart r \<Rightarrow> if h = Hplayback_start then Some [OpStart] else None
      | CallStop r \<Rightarrow> if h = Hplayback_stop then Some [OpStop] else None
      | CallPause r \<Rightarrow> if h = Hplayback_pause then Some [OpPause] else None
      | CallSeek pos u \<Rightarrow> if h = Hplayback_seek then Some [OpSeek pos u] else None
      | CallSetSpeed \<Rightarrow> if h = Hplayback_set_speed then Some [] else None
      | CallInject d code \<Rightarrow> if h = Hplayback_inject_failure then Some [OpInject d code] else None
      | CallClear n \<Rightarrow> if h = Hfifo_clear then Some [OpFifoClear n] else None
      | CallNext \<Rightarrow> if h = Hfifo_next then Some [OpFifoNext] else None
      | CallPush smax sid v k keep md \<Rightarrow>
          if h = Hfifo_push then Some [OpFifoPush smax sid v k keep md] else None
      | CallActivate \<Rightarrow> if h = Haudiopath_player_activate then Some [OpActivate] else None
      | CallDeactivate \<Rightarrow> if h = Haudiopath_player_deactivate then Some [OpDeactivate] else None
      | CallDebugLevel l \<Rightarrow> if h = Hdefault_logging then Some [] else None)"

text \<open>\<open>None\<close> if the interface is not exported, or the method is not handled, or by the handler of
  another method.\<close>
definition dispatch_method :: "dbus_bus \<Rightarrow> method_call \<Rightarrow> 'w streamer_op list option" where
  "dispatch_method b c =
     (case called_method c of (i, m) \<Rightarrow>
        if bus_connected b \<and> i \<in> exported b
        then do { h \<leftarrow> iface_handlers b i m; handler_ops h c } else None)"

datatype signal_call =
    SigDebugLevel string | SigDeviceRemoved string | SigDataAvailable "cookie list"
  | SigDataError "(cookie \<times> list_error) list"

fun signal_of :: "signal_call \<Rightarrow> dbus_signal" where
  "signal_of (SigDebugLevel l) = GlobalDebugLevelChanged"
| "signal_of (SigDeviceRemoved root) = DeviceWillBeRemoved"
| "signal_of (SigDataAvailable cks) = AirableDataAvailable"
| "signal_of (SigDataError errors) = AirableDataError"

fun signal_ops :: "signal_call \<Rightarrow> 'w streamer_op list" where
  "signal_ops (SigDebugLevel l) = []"
| "signal_ops (SigDeviceRemoved root) = [OpRemoveRoot root]"
| "signal_ops (SigDataAvailable cks) = [OpDataAvailable cks]"
| "signal_ops (SigDataError errors) = [OpDataError errors]"

text \<open>One call of the handler of a signal by the library, which needs the handler to be connected.\<close>
definition dispatch_signal :: "dbus_bus \<Rightarrow> signal_call \<Rightarrow> 'w streamer_op list" where
  "dispatch_signal b c = (if signal_of c \<in> set (signal_connects b) then signal_ops c else [])"

text \<open>The service that sends a signal.\<close>
fun sender :: "dbus_signal \<Rightarrow> dbus_peer" where
  "sender GlobalDebugLevelChanged = PeerDcpd"
| "sender DeviceWillBeRemoved = PeerMounTA"
| "sender AirableDataAvailable = PeerTuneInBroker"
| "sender AirableDataError = PeerTuneInBroker"

section \<open>The machine\<close>

datatype dbus_event = NameAppeared dbus_peer | NameVanished dbus_peer | ProxyConnected dbus_peer bool

inductive dbus_step :: "dbus_bus \<Rightarrow> dbus_event \<Rightarrow> dbus_bus \<Rightarrow> bool" where
  "dbus_step b (NameAppeared p) (name_appeared p b)"
| "dbus_step b (NameVanished p) (name_vanished p b)"
| "p \<in> set (proxy_pending b) \<Longrightarrow> dbus_step b (ProxyConnected p ok) (proxy_connected p ok b)"

inductive_simps dbus_step_iff [simp]:
  "dbus_step b (NameAppeared p) b'" "dbus_step b (NameVanished p) b'" "dbus_step b (ProxyConnected p ok) b'"

definition dbus_initial :: "dbus_bus \<Rightarrow> bool" where
  "dbus_initial b \<longleftrightarrow> b = dbus_setup dbus_bus_init"

text \<open>The methods stay as they were set up.\<close>
definition dbus_inv :: "dbus_bus \<Rightarrow> bool" where
  "dbus_inv b \<longleftrightarrow> iface_handlers b = iface_handlers (dbus_setup dbus_bus_init) \<and>
     exported b = exported (dbus_setup dbus_bus_init) \<and> watched b = UNIV \<and> bus_connected b"

lemmas dbus_setup_defs = dbus_setup_def airable_list_broker_def mounta_watch_def audio_player_def
  debugging_and_logging_def player_ifaces_def add_watcher_def export_iface_def dbus_bus_init_def

lemma all_watched: "watched (dbus_setup dbus_bus_init) = UNIV"
proof -
  have "p \<in> watched (dbus_setup dbus_bus_init)" for p
    by (cases p) (simp_all add: dbus_setup_defs)
  then show ?thesis by auto
qed

interpretation dbus_machine: machine dbus_initial dbus_step dbus_inv
proof
  show "dbus_inv b" if "dbus_initial b" for b
    using that all_watched by (simp add: dbus_initial_def dbus_inv_def dbus_setup_def)
  show "dbus_inv b'" if "dbus_inv b" "dbus_step b l b'" for b l b'
    using that
    by (cases l)
      (auto simp: dbus_inv_def name_appeared_def name_vanished_def proxy_defs
        split: dbus_peer.splits)
qed

text \<open>The number of times that a proxy was connected, in a list of events.\<close>
definition connections :: "dbus_peer \<Rightarrow> dbus_event list \<Rightarrow> nat" where
  "connections p es = count_list es (ProxyConnected p True)"

lemma connections_simps [simp]:
  "connections p [] = 0"
  "connections p (e # es) = (if e = ProxyConnected p True then Suc (connections p es) else connections p es)"
  by (simp_all add: connections_def)

lemma sender_simps [simp]:
  "sender sig = PeerDcpd \<longleftrightarrow> sig = GlobalDebugLevelChanged" "sender sig = PeerMounTA \<longleftrightarrow> sig = DeviceWillBeRemoved"
  "sender sig = PeerTuneInBroker \<longleftrightarrow> sig \<in> {AirableDataAvailable, AirableDataError}"
  "sender sig \<noteq> PeerTapSwitch"
  by (cases sig; simp)+

text \<open>The number of times that the service of a peer appeared.\<close>
definition appearances :: "dbus_peer \<Rightarrow> dbus_event list \<Rightarrow> nat" where
  "appearances p es = count_list es (NameAppeared p)"

lemma appearances_simps [simp]:
  "appearances p [] = 0"
  "appearances p (e # es) = (if e = NameAppeared p then Suc (appearances p es) else appearances p es)"
  by (simp_all add: appearances_def)

lemma count_list_remove1:
  "x \<in> set xs \<Longrightarrow> Suc (count_list (remove1 x xs) y) = (if x = y then count_list xs y else Suc (count_list xs y))"
  by (induction xs) (auto simp: count_list_0_iff)

lemma dbus_step_effect:
  assumes "dbus_step b e b'" "watched b = UNIV"
  shows "watched b' = UNIV \<and> registered b' = registered b + connections PeerTapSwitch [e] \<and>
    (\<forall>sig. count_list (signal_connects b') sig = count_list (signal_connects b) sig + connections (sender sig) [e]) \<and>
    (\<forall>p. count_list (proxy_pending b') p + connections p [e] \<le> count_list (proxy_pending b) p + appearances p [e])"
  using assms
proof cases
  case (1 p)
  then show ?thesis using assms(2) by (simp add: name_appeared_def)
next
  case (2 p)
  then show ?thesis using assms(2) by (simp add: name_vanished_def)
next
  case (3 p ok)
  have "count_list (remove1 p (proxy_pending b)) q + connections q [e] \<le> count_list (proxy_pending b) q" for q
    using count_list_remove1 [OF 3(3), of q] 3(1) by (auto split: if_splits)
  moreover have "proxy_pending b' = remove1 p (proxy_pending b)"
    by (cases p; cases ok) (simp_all add: 3(2) proxy_defs)
  moreover have "watched b' = UNIV \<and> registered b' = registered b + connections PeerTapSwitch [e] \<and>
      (\<forall>sig. count_list (signal_connects b') sig = count_list (signal_connects b) sig + connections (sender sig) [e])"
    using 3(1,2) assms(2)
    by (cases p; cases ok)
      (auto simp: proxy_defs eq_commute [of _ "sender sig" for sig])
  ultimately show ?thesis by (simp add: trans_le_add1)
qed

lemma dbus_run:
  "run_of dbus_step b es bs \<Longrightarrow> watched b = UNIV \<Longrightarrow>
     registered (last (b # bs)) = registered b + connections PeerTapSwitch es \<and>
     (\<forall>sig. count_list (signal_connects (last (b # bs))) sig =
        count_list (signal_connects b) sig + connections (sender sig) es) \<and>
     (\<forall>p. connections p es \<le> count_list (proxy_pending b) p + appearances p es)"
proof (induction rule: run_of.induct)
  case (run_Nil b)
  then show ?case by simp
next
  case (run_Cons b e b' es bs)
  note step = dbus_step_effect [OF run_Cons.hyps(1) run_Cons.prems]
  let ?final = "last (b' # bs)"
  have IH: "registered ?final = registered b' + connections PeerTapSwitch es"
      "count_list (signal_connects ?final) sig = count_list (signal_connects b') sig + connections (sender sig) es"
      "connections p es \<le> count_list (proxy_pending b') p + appearances p es" for sig p
    using run_Cons.IH step by blast+
  have split: "last (b # b' # bs) = ?final" "connections p (e # es) = connections p [e] + connections p es"
      "appearances p (e # es) = appearances p [e] + appearances p es" for p
    by simp_all
  have "connections p [e] + connections p es \<le> count_list (proxy_pending b) p + (appearances p [e] + appearances p es)" for p
    using IH(3) [of p] step [THEN conjunct2, THEN conjunct2, THEN conjunct2, rule_format, of p] by linarith
  then show ?case
    unfolding split using IH(1,2) step by (simp only: add.assoc) simp
qed

section \<open>Properties\<close>

text \<open>Each D-Bus method reaches its own operation of the player: once \<open>setup()\<close> has run, and
  whichever services come and go, a call of a method of the three player interfaces runs exactly
  the operation of that name with the arguments of the call; before \<open>setup()\<close> nothing is called.\<close>
lemma methods_are_dispatched:
  assumes "reachable dbus_initial dbus_step b"
  shows "dispatch_method b c = Some (case c of
      CallStart r \<Rightarrow> [OpStart] | CallStop r \<Rightarrow> [OpStop] | CallPause r \<Rightarrow> [OpPause]
    | CallSeek pos u \<Rightarrow> [OpSeek pos u] | CallSetSpeed \<Rightarrow> [] | CallInject d code \<Rightarrow> [OpInject d code]
    | CallClear n \<Rightarrow> [OpFifoClear n] | CallNext \<Rightarrow> [OpFifoNext]
    | CallPush smax sid v k keep md \<Rightarrow> [OpFifoPush smax sid v k keep md]
    | CallActivate \<Rightarrow> [OpActivate] | CallDeactivate \<Rightarrow> [OpDeactivate] | CallDebugLevel l \<Rightarrow> [])
    \<and> dispatch_method dbus_bus_init c = None"
proof -
  have "iface_handlers b = iface_handlers (dbus_setup dbus_bus_init)" "bus_connected b"
      "exported b = exported (dbus_setup dbus_bus_init)"
    using dbus_machine.reachable_inv [OF assms] by (simp_all add: dbus_inv_def)
  then show ?thesis
    by (cases c) (simp_all add: dispatch_method_def handler_ops_def dbus_setup_defs)
qed

lemma dbus_setup_reachable: "reachable dbus_initial dbus_step (dbus_setup dbus_bus_init)"
  by (rule reach_init) (simp add: dbus_initial_def)

lemma methods_are_dispatched_witness:
  "dispatch_method (dbus_setup dbus_bus_init) (CallSeek 5 ''s'') = Some [OpSeek 5 ''s'']"
  by (rule methods_are_dispatched [OF dbus_setup_reachable, of "CallSeek 5 ''s''", unfolded method_call.case,
        THEN conjunct1])

text \<open>C19. Handlers of signals are connected, and the player is registered with the audio path manager,
  once for each proxy that was connected: after any sequence of events, the handler of a signal was
  connected exactly as often as a proxy of the service that sends it was connected with success,
  which is not more often than the service appeared; the player was registered exactly as often as
  a proxy of the audio path manager was connected; and a call of the handler of a signal runs the
  operation of this signal if a proxy of its service was ever connected, and nothing before.\<close>
theorem signals_need_connection:
  assumes "run_of dbus_step (dbus_setup dbus_bus_init) es bs"
    and "b = last (dbus_setup dbus_bus_init # bs)"
  shows "count_list (signal_connects b) sig = connections (sender sig) es \<and>
    connections p es \<le> appearances p es \<and>
    registered b = connections PeerTapSwitch es \<and>
    dispatch_signal b c = (if 0 < connections (sender (signal_of c)) es then signal_ops c else [])"
proof -
  have init: "signal_connects (dbus_setup dbus_bus_init) = []" "registered (dbus_setup dbus_bus_init) = 0"
      "proxy_pending (dbus_setup dbus_bus_init) = []"
    by (simp_all add: dbus_setup_defs)
  note run = dbus_run [OF assms(1) all_watched, folded assms(2), unfolded init]
  have "signal_of c \<in> set (signal_connects b) \<longleftrightarrow> 0 < connections (sender (signal_of c)) es"
    using run count_list_0_iff [of "signal_connects b" "signal_of c"] by (metis neq0_conv add_0 count_list.simps(1))
  then show ?thesis
    using run by (simp add: dispatch_signal_def)
qed

lemma signals_need_connection_witness:
  "\<exists>bs. run_of dbus_step (dbus_setup dbus_bus_init)
        [NameAppeared PeerMounTA, ProxyConnected PeerMounTA True, NameVanished PeerMounTA,
         NameAppeared PeerMounTA, ProxyConnected PeerMounTA True] bs \<and>
     count_list (signal_connects (last (dbus_setup dbus_bus_init # bs))) DeviceWillBeRemoved = 2 \<and>
     dispatch_signal (last (dbus_setup dbus_bus_init # bs)) (SigDeviceRemoved ''/mnt'') = [OpRemoveRoot ''/mnt'']"
proof -
  let ?b1 = "name_appeared PeerMounTA (dbus_setup dbus_bus_init)"
  let ?b2 = "proxy_connected PeerMounTA True ?b1"
  let ?b3 = "name_vanished PeerMounTA ?b2"
  let ?b4 = "name_appeared PeerMounTA ?b3"
  let ?b5 = "proxy_connected PeerMounTA True ?b4"
  have w: "watched ?b3 = UNIV"
    using all_watched by (simp add: name_vanished_def name_appeared_def proxy_defs)
  have "PeerMounTA \<in> set (proxy_pending ?b1)" "PeerMounTA \<in> set (proxy_pending ?b4)"
    by (simp add: name_appeared_def all_watched, simp add: name_appeared_def [of _ ?b3] w)
  then have run: "run_of dbus_step (dbus_setup dbus_bus_init)
      [NameAppeared PeerMounTA, ProxyConnected PeerMounTA True, NameVanished PeerMounTA,
       NameAppeared PeerMounTA, ProxyConnected PeerMounTA True] [?b1, ?b2, ?b3, ?b4, ?b5]"
    by (intro run_of.intros) simp_all
  define b where "b = last (dbus_setup dbus_bus_init # [?b1, ?b2, ?b3, ?b4, ?b5])"
  note end_state = signals_need_connection [OF run b_def, of DeviceWillBeRemoved PeerMounTA "SigDeviceRemoved ''/mnt''"]
  have "dispatch_signal b (SigDeviceRemoved ''/mnt'') = [OpRemoveRoot ''/mnt'']"
    by (subst end_state [THEN conjunct2, THEN conjunct2, THEN conjunct2]) simp
  moreover have "count_list (signal_connects b) DeviceWillBeRemoved = 2"
    using end_state [THEN conjunct1] by simp
  ultimately show ?thesis
    using run unfolding b_def by blast
qed

end
