(* ===== verification/Player_System.thy ===== *)
theory Player_System
  imports Dbus_Connection Streamer_Order Streamer_Props
begin

text \<open>
  The running program between \<open>setup()\<close> and \<open>shutdown()\<close>: the D-Bus connection and the streamer, as
  one machine.  The streamer is reached over D-Bus only by what is connected there, everything
  else that happens to it comes from GStreamer and from timers.  The system implements the abstract
  player, for which the calls of \<open>Push\<close> are the only source of streams.
\<close>

section \<open>The system\<close>

record 'w player_system =
  sys_bus :: dbus_bus
  sys_streamer :: "'w streamer"

datatype 'w system_event =
    BusEvent dbus_event | MethodCall method_call | SignalCall signal_call | Internal "'w streamer_op"

text \<open>The callbacks of GStreamer and GLib, and changes of the world.\<close>
fun internal_op :: "'w streamer_op \<Rightarrow> bool" where
  "internal_op (OpBus src msg) = True"
| "internal_op (OpAboutToFinish p) = True"
| "internal_op OpTagTimer = True"
| "internal_op OpProgressTimer = True"
| "internal_op OpRestart = True"
| "internal_op (OpStreamStatus self obj st name) = True"
| "internal_op (OpWorld w) = True"
| "internal_op _ = False"

fun dbus_apply :: "dbus_event \<Rightarrow> dbus_bus \<Rightarrow> dbus_bus" where
  "dbus_apply (NameAppeared p) b = name_appeared p b"
| "dbus_apply (NameVanished p) b = name_vanished p b"
| "dbus_apply (ProxyConnected p ok) b = (if p \<in> set (proxy_pending b) then proxy_connected p ok b else b)"

text \<open>
  What an event makes the streamer do; calls that nobody handles are answered by the library.  A
  \<open>SignalCall\<close> is one call of a handler by the library: if it calls a handler that was connected
  twice two times for one signal, these are two events.
\<close>
fun event_ops :: "dbus_bus \<Rightarrow> 'w system_event \<Rightarrow> 'w streamer_op list" where
  "event_ops b (BusEvent e) = []"
| "event_ops b (MethodCall c) = (case dispatch_method b c of None \<Rightarrow> [] | Some ops \<Rightarrow> ops)"
| "event_ops b (SignalCall c) = dispatch_signal b c"
| "event_ops b (Internal l) = (if internal_op l then [l] else [])"

definition system_apply ::
  "('w, 'z) streamer_env_scheme \<Rightarrow> bool \<Rightarrow> 'w system_event \<Rightarrow> 'w player_system \<Rightarrow> 'w player_system option" where
  "system_apply E ne ev y =
     do { ss \<leftarrow> streamer_run E ne (event_ops (sys_bus y) ev) (sys_streamer y);
          Some \<lparr>sys_bus = (case ev of BusEvent e \<Rightarrow> dbus_apply e (sys_bus y) | _ \<Rightarrow> sys_bus y),
                sys_streamer = last (sys_streamer y # ss)\<rparr> }"

fun system_run ::
  "('w, 'z) streamer_env_scheme \<Rightarrow> bool \<Rightarrow> 'w system_event list \<Rightarrow> 'w player_system \<Rightarrow> 'w player_system list option" where
  "system_run E ne [] y = Some []"
| "system_run E ne (ev # evs) y =
     do { y' \<leftarrow> system_apply E ne ev y; ys \<leftarrow> system_run E ne evs y'; Some (y' # ys) }"

inductive system_step ::
  "('w, 'z) streamer_env_scheme \<Rightarrow> bool \<Rightarrow> 'w player_system \<Rightarrow> 'w system_event \<Rightarrow> 'w player_system \<Rightarrow> bool"
  for E :: "('w, 'z) streamer_env_scheme" and ne :: bool where
  "system_apply E ne ev y = Some y' \<Longrightarrow> system_step E ne y ev y'"

inductive_simps system_step_iff: "system_step E ne y ev y'"

lemma run_of_system_run: "system_run E ne evs y = Some ys \<Longrightarrow> run_of (system_step E ne) y evs ys"
  by (induction evs arbitrary: y ys) (auto simp: bind_eq_Some_conv intro!: run_of.intros system_step.intros)

text \<open>The main loop starts when \<open>setup()\<close> of the streamer and of D-Bus have run.\<close>
definition system_initial :: "('w, 'z) streamer_env_scheme \<Rightarrow> 'w player_system \<Rightarrow> bool" where
  "system_initial E y \<longleftrightarrow> sys_bus y = dbus_setup dbus_bus_init \<and>
     (\<exists>s bs bt dev. streamer_initial E s \<and> streamer_setup E False bs bt dev s = Some (True, sys_streamer y))"

definition system_inv :: "bool \<Rightarrow> 'w player_system \<Rightarrow> bool" where
  "system_inv ne y \<longleftrightarrow> dbus_inv (sys_bus y) \<and> streamer_ok ne (sys_streamer y)"

section \<open>It keeps the invariants and implements the player\<close>

lemma dbus_apply_step: "dbus_step b e (dbus_apply e b) \<or> dbus_apply e b = b"
  by (cases e) auto

lemma dbus_inv_apply: "dbus_inv b \<Longrightarrow> dbus_inv (dbus_apply e b)"
  using dbus_apply_step [of b e] dbus_machine.inv_step by metis

text \<open>What the calls and signals of a well-connected bus are for the streamer.\<close>
fun call_ops :: "method_call \<Rightarrow> 'w streamer_op list" where
  "call_ops (CallStart r) = [OpStart]"
| "call_ops (CallStop r) = [OpStop]"
| "call_ops (CallPause r) = [OpPause]"
| "call_ops (CallSeek pos u) = [OpSeek pos u]"
| "call_ops CallSetSpeed = []"
| "call_ops (CallInject d code) = [OpInject d code]"
| "call_ops (CallClear n) = [OpFifoClear n]"
| "call_ops CallNext = [OpFifoNext]"
| "call_ops (CallPush smax sid v k keep md) = [OpFifoPush smax sid v k keep md]"
| "call_ops CallActivate = [OpActivate]"
| "call_ops CallDeactivate = [OpDeactivate]"
| "call_ops (CallDebugLevel l) = []"

lemma dispatch_call_ops: "dbus_inv b \<Longrightarrow> dispatch_method b c = Some (call_ops c)"
  by (cases c) (simp_all add: dbus_inv_def dispatch_method_def handler_ops_def dbus_setup_defs)

fun system_pushed :: "'w system_event \<Rightarrow> stream_id list" where
  "system_pushed (MethodCall (CallPush smax sid v k keep md)) = [sid]"
| "system_pushed _ = []"

lemma event_ops_cases:
  assumes "dbus_inv b"
  obtains "event_ops b ev = []" "system_pushed ev = []"
    | l where "event_ops b ev = [l]" "pushed l = system_pushed ev"
proof -
  have "event_ops b ev = [] \<and> system_pushed ev = [] \<or> (\<exists>l. event_ops b ev = [l] \<and> pushed l = system_pushed ev)"
  proof (cases ev)
    case (MethodCall c)
    then show ?thesis by (cases c) (simp_all add: dispatch_call_ops [OF assms])
  next
    case (SignalCall c)
    then show ?thesis by (cases c) (auto simp: dispatch_signal_def)
  next
    case (Internal l)
    then show ?thesis by (cases l) auto
  qed simp
  then show thesis using that by blast
qed

lemma system_step_cases:
  assumes "system_step E ne y ev y'" "dbus_inv (sys_bus y)"
  obtains (idle) "sys_streamer y' = sys_streamer y" "system_pushed ev = []"
    | (step) l where "streamer_step E ne (sys_streamer y) l (sys_streamer y')" "pushed l = system_pushed ev"
  using assms(2)
proof (cases rule: event_ops_cases [of "sys_bus y" ev])
  case 1
  then show thesis using assms(1) idle by (auto simp: system_step_iff system_apply_def)
next
  case (2 l)
  then have "streamer_step E ne (sys_streamer y) l (sys_streamer y')"
    using assms(1)
    by (auto simp: system_step_iff system_apply_def bind_eq_Some_conv intro!: streamer_step.intros split: if_splits)
  then show thesis using 2(2) by (rule step)
qed

lemma system_bus: "system_step E ne y ev y' \<Longrightarrow> dbus_inv (sys_bus y) \<Longrightarrow> dbus_inv (sys_bus y')"
  by (auto simp: system_step_iff system_apply_def bind_eq_Some_conv dbus_inv_apply split: system_event.splits)

lemma setup_player:
  assumes "streamer_initial E s" "streamer_setup E False bs bt dev s = Some (ok, s')"
  shows "reachable (streamer_initial E) (streamer_step E ne) s'"
proof (rule reach_step [where l = "OpSetup bs bt dev"])
  show "reachable (streamer_initial E) (streamer_step E ne) s" by (rule reach_init) (rule assms(1))
  show "streamer_step E ne s (OpSetup bs bt dev) s'"
    using assms by (auto simp: streamer_step_iff streamer_initial_def streamer_init_def pipeline_data_init_def)
qed


lemma player_stutter: "player_step p [] p"
proof (cases p)
  case (fields i q)
  then show ?thesis using player_keep [of q p "[]"] by simp
qed

lemma setup_keeps_player: "streamer_setup E False bs bt dev s = Some (ok, s') \<Longrightarrow> player_of s' = player_of s"
  by (auto simp: streamer_setup_def bind_eq_Some_conv player_of_def dest!: create_playbin_frame split: if_splits)

interpretation system_player: refinement "system_initial E" "system_step E ne" "system_inv ne"
  player_initial player_step "\<lambda>y. player_of (sys_streamer y)" system_pushed
proof
  fix y :: "'a player_system"
  assume "system_initial E y"
  then obtain s bs bt dev where y: "sys_bus y = dbus_setup dbus_bus_init" "streamer_initial E s"
      "streamer_setup E False bs bt dev s = Some (True, sys_streamer y)"
    by (auto simp: system_initial_def)
  have "streamer_ok ne (sys_streamer y)"
    by (rule streamer_machine.reachable_inv [OF setup_player [OF y(2,3)]])
  moreover have "dbus_inv (sys_bus y)"
    by (rule dbus_machine.inv_init) (simp add: dbus_initial_def y(1))
  ultimately show "system_inv ne y" by (simp add: system_inv_def)
  have "player_of (sys_streamer y) = player_of s"
    using y(3) by (rule setup_keeps_player)
  then show "player_initial (player_of (sys_streamer y))"
    using streamer_player.abs_init [OF y(2)] by simp
next
  fix y y' :: "'a player_system" and ev
  assume inv: "system_inv ne y" and st: "system_step E ne y ev y'"
  then have b: "dbus_inv (sys_bus y)" "streamer_ok ne (sys_streamer y)" by (simp_all add: system_inv_def)
  show "system_inv ne y'"
    using system_step_cases [OF st b(1)] system_bus [OF st b(1)] b(2) streamer_machine.inv_step
    unfolding system_inv_def by metis
  show "player_step (player_of (sys_streamer y)) (system_pushed ev) (player_of (sys_streamer y'))"
    using st b(1)
  proof (cases rule: system_step_cases)
    case idle
    then show ?thesis using player_stutter by simp
  next
    case (step l)
    then show ?thesis using streamer_player.abs_step [OF b(2) step(1)] by simp
  qed
qed


section \<open>Properties\<close>

text \<open>Calls with which the streamer can cope: all of them, but pushes with a URL, and seeking in a
  current stream to a position that fits 64 bits.\<close>
fun safe_call :: "('w, 'z) streamer_env_scheme \<Rightarrow> method_call \<Rightarrow> 'w streamer \<Rightarrow> bool" where
  "safe_call E (CallSeek pos u) s = safe_method E (OpSeek pos u) s"
| "safe_call E (CallPush smax sid v k keep md) s = safe_method E (OpFifoPush smax sid v k keep md) s"
| "safe_call E c s = True"


text \<open>
  Calls that read the state of the pipeline without checking that there is one.  There is none once
  GStreamer has failed to make a new one in \<open>rebuild_playbin()\<close>.
\<close>
fun needs_pipeline :: "method_call \<Rightarrow> 'w streamer \<Rightarrow> bool" where
  "needs_pipeline (CallStart r) s = is_player_activated (ctl s)"
| "needs_pipeline CallNext s = is_player_activated (ctl s)"
| "needs_pipeline CallDeactivate s = is_player_activated (ctl s)"
| "needs_pipeline (CallPush smax sid v k keep md) s = (keep \<noteq> -2 \<or> is_player_activated (ctl s))"
| "needs_pipeline c s = False"



text \<open>Without a pipeline these calls do crash, \<open>Push\<close> at least if it is not to skip to the new stream.\<close>
lemma missing_pipeline_crashes:
  assumes ok: "streamer_core (any_order True) s" and p: "pipeline (pl s) = None" and c: "safe_call E c s"
    "needs_pipeline c s" "l \<in> set (call_ops c)" "\<forall>smax sid v k md. c \<noteq> CallPush smax sid v k (-2) md"
  shows "streamer_apply E l s = None"
proof (cases c)
  case (CallPush smax sid v k keep md)
  then obtain su w where su: "stream_urls_of_variant E v (world s) = Some (su, w)" "urls su \<noteq> []"
    using c(1) by (auto split: option.splits)
  obtain b d1 d2 s1 where
      "push_item E sid k su md (keep_items smax keep) (set_world w s) = Some (b, d1, d2, s1) \<and> pipeline (pl s1) = None"
    using push_item_defined [OF _ stream_urls_ok_of_variant [OF su(1)] su(2), of "set_world w s" E sid k md "keep_items smax keep"] ok p
    by auto
  then show ?thesis
    using CallPush c(3,4) su(1) by (auto simp: fifo_push_def is_playing_def pipeline_state_def)
qed (use p c(2,3) in \<open>auto simp: playback_start_def start_def audiopath_player_deactivate_def deactivate_def
    fifo_next_def next_stream_def pipeline_state_def Let_def\<close>)


text \<open>C2. Streams are played in the order in which the clients pushed them over D-Bus: in every run
  of the system, the streams that were current, one after the other, followed by those that are
  queued at the end, are among the streams of the \<open>Push\<close> calls, in the order of these calls.
  Nothing else that happens to the system adds, repeats or reorders a stream.\<close>
theorem system_plays_in_order:
  assumes "system_initial E y" "run_of (system_step E ne) y evs ys"
  shows "subseq (played (map (\<lambda>y. player_of (sys_streamer y)) (y # ys))
      @ map item_id (queue (fifo (sys_streamer (last (y # ys)))))) (concat (map system_pushed evs))"
proof -
  let ?abs = "\<lambda>y. player_of (sys_streamer y)"
  have "run_of player_step (?abs y) (map system_pushed evs) (map ?abs ys)"
    by (rule system_player.run_abs [OF assms(2) system_player.inv_init [OF assms(1)]])
  moreover have "shown (?abs y) = []" "upcoming (?abs y) = []"
    using system_player.abs_init [OF assms(1)] by (simp_all add: player_initial_def)
  moreover have "upcoming (last (map ?abs (y # ys))) = map item_id (queue (fifo (sys_streamer (last (y # ys)))))"
    by (subst last_map) (simp_all add: player_of_def)
  ultimately show ?thesis
    using played_in_order [of "?abs y" "map system_pushed evs" "map ?abs ys"] by simp
qed

text \<open>The sample player with its bus, two streams pushed over D-Bus, and the start.\<close>
definition sample_system :: "gst_state player_system" where
  "sample_system = \<lparr>sys_bus = dbus_setup dbus_bus_init, sys_streamer = sample_streamer\<lparr>ctl := control_init\<rparr>\<rparr>"

lemma sample_system_initial: "system_initial sample_env sample_system"
proof -
  obtain ok where ok: "streamer_setup sample_env False 0 True [] sample_init = Some (ok, sample_streamer\<lparr>ctl := control_init\<rparr>)"
    using sample_setup by (auto simp: map_option_eq_Some)
  have "map_option fst (streamer_setup sample_env False 0 True [] sample_init) = Some True" by code_simp
  then show ?thesis
    using ok sample_initial by (auto simp: system_initial_def sample_system_def)
qed


definition sample_events :: "gst_state system_event list" where
  "sample_events =
     [BusEvent (NameAppeared PeerTapSwitch), BusEvent (ProxyConnected PeerTapSwitch True), MethodCall CallActivate,
      MethodCall (CallPush 99 257 [(''http://a'', False)] ''k'' (- 1) []),
      MethodCall (CallPush 99 258 [(''http://b'', False)] ''k'' (- 1) []), MethodCall (CallStart ''play''),
      Internal (OpBus (SrcPipeline 1) MsgStreamStart), Internal (OpAboutToFinish 1),
      Internal (OpBus (SrcPipeline 1) MsgStreamStart)]"

lemma sample_system_run:
  "map_option (\<lambda>ys. map (\<lambda>y. player_of (sys_streamer y)) (sample_system # ys)) (system_run sample_env True sample_events sample_system)
     = Some (replicate 4 \<lparr>playing = None, upcoming = []\<rparr> @
         [\<lparr>playing = None, upcoming = [257]\<rparr>, \<lparr>playing = None, upcoming = [257, 258]\<rparr>,
          \<lparr>playing = Some 257, upcoming = [258]\<rparr>, \<lparr>playing = Some 257, upcoming = [258]\<rparr>,
          \<lparr>playing = Some 257, upcoming = [258]\<rparr>, \<lparr>playing = Some 258, upcoming = []\<rparr>])"
  by code_simp

lemma system_plays_in_order_witness:
  "\<exists>ys. run_of (system_step sample_env True) sample_system sample_events ys \<and>
     played (map (\<lambda>y. player_of (sys_streamer y)) (sample_system # ys)) = [257, 258] \<and>
     subseq [257, 258] (concat (map system_pushed sample_events))"
proof -
  let ?abs = "\<lambda>y. player_of (sys_streamer y)"
  obtain ys where ys: "system_run sample_env True sample_events sample_system = Some ys"
      "map ?abs (sample_system # ys) = replicate 4 \<lparr>playing = None, upcoming = []\<rparr> @
         [\<lparr>playing = None, upcoming = [257]\<rparr>, \<lparr>playing = None, upcoming = [257, 258]\<rparr>,
          \<lparr>playing = Some 257, upcoming = [258]\<rparr>, \<lparr>playing = Some 257, upcoming = [258]\<rparr>,
          \<lparr>playing = Some 257, upcoming = [258]\<rparr>, \<lparr>playing = Some 258, upcoming = []\<rparr>]"
    using sample_system_run unfolding map_option_eq_Some by blast
  have run: "run_of (system_step sample_env True) sample_system sample_events ys"
    by (rule run_of_system_run [OF ys(1)])
  have played: "played (map ?abs (sample_system # ys)) = [257, 258]"
    unfolding ys(2) by (simp add: played_def numeral_eq_Suc)
  have "upcoming (last (map ?abs (sample_system # ys))) = []" unfolding ys(2) by simp
  then have "map item_id (queue (fifo (sys_streamer (last (sample_system # ys))))) = []"
    by (subst (asm) last_map) (simp_all add: player_of_def)
  then show ?thesis
    using system_plays_in_order [OF sample_system_initial run] run played by (intro exI conjI) auto
qed

end
