(* ===== verification/Program_Entry.thy ===== *)
theory Program_Entry
  imports Player_System
begin

text \<open>
  The program (\<^verbatim>\<open>src/streamplayer.cc\<close>): the command line, and \<open>main()\<close>, which sets up the
  streamer, connects it to D-Bus, runs the main loop and shuts the streamer down.

  The parser of GLib is a parameter: it gives an error message or the values of the options that
  are present.  So are the names and numbers of the verbosity levels, which belong to the message
  library, and whether the operating system lets the program become a daemon and GLib makes a main
  loop.  What happens while the main loop runs is a list of D-Bus calls, signals and callbacks of
  GStreamer and GLib.
\<close>

section \<open>The command line\<close>

record option_values =
  opt_version :: bool
  opt_fg :: bool
  opt_verbose :: "string option"
  opt_quiet :: bool
  opt_system_dbus :: bool
  opt_soup_blocksize :: "int option"
  opt_disable_realtime :: bool
  opt_force_alsa_device :: "string option"

record program_env =
  parse_options :: "string list \<Rightarrow> string + option_values"
  msg_verbose_level_name_to_level :: "string \<Rightarrow> nat"
  msg_verbose_level_names :: "string list"
  MESSAGE_LEVEL_NORMAL :: nat
  MESSAGE_LEVEL_QUIET :: nat
  MESSAGE_LEVEL_IMPOSSIBLE :: nat
  daemon_fails :: bool
  main_loop_fails :: bool

record parameters =
  par_verbose_level :: nat
  par_run_in_foreground :: bool
  par_connect_to_system_dbus :: bool
  par_soup_http_blocksize_kb :: int
  par_disable_boost :: bool
  par_force_alsa_device :: string

definition default_parameters :: "program_env \<Rightarrow> parameters" where
  "default_parameters P =
     \<lparr>par_verbose_level = MESSAGE_LEVEL_NORMAL P, par_run_in_foreground = False,
      par_connect_to_system_dbus = False, par_soup_http_blocksize_kb = 0, par_disable_boost = False,
      par_force_alsa_device = []\<rparr>"

text \<open>What the parser writes through the pointers in its table of options.\<close>
definition parsed_parameters :: "option_values \<Rightarrow> parameters \<Rightarrow> parameters" where
  "parsed_parameters v par =
     par\<lparr>par_run_in_foreground := opt_fg v, par_connect_to_system_dbus := opt_system_dbus v,
         par_soup_http_blocksize_kb :=
           (case opt_soup_blocksize v of None \<Rightarrow> par_soup_http_blocksize_kb par | Some n \<Rightarrow> n),
         par_disable_boost := opt_disable_realtime v\<rparr>"

text \<open>The lines printed to \<open>stderr\<close> or logged as errors, with their arguments.\<close>
datatype error_line = ParseError string | InvalidVerbosity string | ValidLevel string | InvalidBlockSize int

text \<open>
  The result (-1, 0, or 1 for a request to show the version), the parameters, and the error
  messages.
\<close>
definition process_command_line ::
  "program_env \<Rightarrow> string list \<Rightarrow> int \<times> parameters \<times> error_line list" where
  "process_command_line P argv =
     (let par0 = default_parameters P
      in case parse_options P argv of
           Inl message \<Rightarrow> (-1, par0, [ParseError message])
         | Inr v \<Rightarrow>
             (let par1 = parsed_parameters v par0
              in if opt_version v then (1, par1, [])
                 else
                   let par2 = (case opt_verbose v of
                         None \<Rightarrow> par1
                       | Some name \<Rightarrow> par1\<lparr>par_verbose_level := msg_verbose_level_name_to_level P name\<rparr>)
                   in if opt_verbose v \<noteq> None \<and> par_verbose_level par2 = MESSAGE_LEVEL_IMPOSSIBLE P
                      then (-1, par2, InvalidVerbosity (the (opt_verbose v))
                                        # map ValidLevel (msg_verbose_level_names P))
                      else
                        let par3 = (case opt_force_alsa_device v of
                              None \<Rightarrow> par2 | Some dev \<Rightarrow> par2\<lparr>par_force_alsa_device := dev\<rparr>)
                        in if par_soup_http_blocksize_kb par3 < 0
                           then (-1, par3, [InvalidBlockSize (par_soup_http_blocksize_kb par3)])
                           else if opt_quiet v
                                then (0, par3\<lparr>par_verbose_level := MESSAGE_LEVEL_QUIET P\<rparr>, [])
                                else (0, par3, [])))"

section \<open>The program\<close>

text \<open>\<open>parameters.soup_http_blocksize_kb * 1024U\<close> is computed with 32 bits, without sign.\<close>
definition soup_block_size :: "parameters \<Rightarrow> nat" where
  "soup_block_size par = unat (word_of_int (par_soup_http_blocksize_kb par) * 1024 :: 32 word)"

datatype program_event =
    ShowVersionInfo | BecomeDaemon | LogVersionInfo | BufferParameter string int
  | DefaultBufferParameter string | StreamerSetup | DbusSetup | MainLoopRun | StreamerShutdown

text \<open>\<open>setup()\<close>: whether it fails, and what it does.\<close>
definition program_setup :: "program_env \<Rightarrow> parameters \<Rightarrow> bool \<times> program_event list" where
  "program_setup P par =
     (if \<not> par_run_in_foreground par
      then if daemon_fails P then (True, [BecomeDaemon]) else (False, [BecomeDaemon, LogVersionInfo])
      else (False, [LogVersionInfo]))"

definition show_buffer_parameter :: "string \<Rightarrow> int \<Rightarrow> program_event" where
  "show_buffer_parameter what amount =
     (if amount > 0 then BufferParameter what amount else DefaultBufferParameter what)"

definition EXIT_SUCCESS :: int where "EXIT_SUCCESS = 0"
definition EXIT_FAILURE :: int where "EXIT_FAILURE = 1"

text \<open>
  \<open>main()\<close>: the exit status, the events, and the state of the streamer; \<open>None\<close> if the streamer
  crashes.  \<open>evs\<close> is what happens until \<open>SIGINT\<close> or \<open>SIGTERM\<close> ends the main loop.
\<close>
definition program_main ::
  "('w, 'z) streamer_env_scheme \<Rightarrow> program_env \<Rightarrow> string list \<Rightarrow> 'w system_event list \<Rightarrow> 'w streamer
     \<Rightarrow> (int \<times> program_event list \<times> 'w streamer) option" where
  "program_main E P argv evs s =
     (case process_command_line P argv of (ret, par, _) \<Rightarrow>
        if ret = -1 then Some (EXIT_FAILURE, [], s)
        else if ret = 1 then Some (EXIT_SUCCESS, [ShowVersionInfo], s)
        else case program_setup P par of (failed, ev) \<Rightarrow>
          if failed then Some (EXIT_FAILURE, ev, s)
          else if main_loop_fails P then Some (-1, ev, s)
          else do {
            let ev1 = ev @ [show_buffer_parameter ''SOUP block size '' (par_soup_http_blocksize_kb par), StreamerSetup];
            (ok, s1) \<leftarrow> streamer_setup E False (soup_block_size par) (\<not> par_disable_boost par)
              (par_force_alsa_device par) s;
            if \<not> ok then Some (EXIT_FAILURE, ev1, s1)
            else do {
              let y = \<lparr>sys_bus = dbus_setup dbus_bus_init, sys_streamer = s1\<rparr>;
              ys \<leftarrow> system_run E False evs y;
              Some (EXIT_SUCCESS, ev1 @ [DbusSetup, MainLoopRun, StreamerShutdown],
                    streamer_shutdown E (sys_streamer (last (y # ys)))) } })"

section \<open>Lemmas\<close>

lemma shutdown_frame:
  "pipeline_wf (pipeline (pl s)) (signal_handler_ids (pl s)) \<Longrightarrow>
     pipeline (pl (streamer_shutdown E s)) = None \<and> signal_handler_ids (pl (streamer_shutdown E s)) = [] \<and>
     current_stream (pl (streamer_shutdown E s)) = None"
  using disconnected [of s E] by (simp add: streamer_shutdown_def Let_def)

section \<open>Properties\<close>

text \<open>C37. What the command line means.  It is refused exactly if the parser refuses it or, unless the
  version is asked for, the name of a verbosity level is unknown or the block size is negative; then an
  error is printed, that of the parser if it was the parser, and the program ends with \<open>EXIT_FAILURE\<close>
  without having touched the streamer.  A request for the version is answered, whatever the other
  options are, and the program ends with \<open>EXIT_SUCCESS\<close>.  All others are accepted without an error
  message; then the block size is not negative and is the one given, or 0; \<open>--quiet\<close> wins over
  \<open>--verbose\<close>; and the other parameters are those given.\<close>
theorem command_line_checked:
  assumes "process_command_line P argv = (ret, par, errors)"
  shows "ret = (case parse_options P argv of
       Inl message \<Rightarrow> -1
     | Inr v \<Rightarrow>
         if opt_version v then 1
         else if (\<exists>name. opt_verbose v = Some name \<and> msg_verbose_level_name_to_level P name = MESSAGE_LEVEL_IMPOSSIBLE P)
           \<or> (\<exists>n. opt_soup_blocksize v = Some n \<and> n < 0) then -1 else 0)
    \<and> (\<forall>message. parse_options P argv = Inl message \<longrightarrow> errors = [ParseError message])
    \<and> (ret = -1 \<longleftrightarrow> errors \<noteq> [])
    \<and> (ret = -1 \<longrightarrow> program_main E P argv evs s = Some (EXIT_FAILURE, [], s))
    \<and> (ret = 1 \<longrightarrow> program_main E P argv evs s = Some (EXIT_SUCCESS, [ShowVersionInfo], s))
    \<and> (\<forall>v. ret = 0 \<longrightarrow> parse_options P argv = Inr v \<longrightarrow>
         0 \<le> par_soup_http_blocksize_kb par \<and>
         par = \<lparr>par_verbose_level =
                  (if opt_quiet v then MESSAGE_LEVEL_QUIET P
                   else case opt_verbose v of None \<Rightarrow> MESSAGE_LEVEL_NORMAL P
                     | Some name \<Rightarrow> msg_verbose_level_name_to_level P name),
                par_run_in_foreground = opt_fg v, par_connect_to_system_dbus = opt_system_dbus v,
                par_soup_http_blocksize_kb = (case opt_soup_blocksize v of None \<Rightarrow> 0 | Some n \<Rightarrow> n),
                par_disable_boost = opt_disable_realtime v,
                par_force_alsa_device = (case opt_force_alsa_device v of None \<Rightarrow> [] | Some dev \<Rightarrow> dev)\<rparr>)"
proof (cases "parse_options P argv")
  case (Inl message)
  then show ?thesis
    using assms by (auto simp: process_command_line_def program_main_def)
next
  case (Inr v)
  note body = assms [unfolded process_command_line_def, simplified Inr Let_def sum.case]
  have main: "ret = -1 \<Longrightarrow> program_main E P argv evs s = Some (EXIT_FAILURE, [], s)"
      "ret = 1 \<Longrightarrow> program_main E P argv evs s = Some (EXIT_SUCCESS, [ShowVersionInfo], s)"
    by (simp_all add: program_main_def assms)
  show ?thesis
    using Inr body main
    by (auto simp: parsed_parameters_def default_parameters_def split: option.splits if_splits)
qed

definition sample_options :: option_values where
  "sample_options =
     \<lparr>opt_version = False, opt_fg = True, opt_verbose = Some ''loud'', opt_quiet = False, opt_system_dbus = False,
      opt_soup_blocksize = Some 64, opt_disable_realtime = False, opt_force_alsa_device = None\<rparr>"

definition sample_program :: program_env where
  "sample_program =
     \<lparr>parse_options = (\<lambda>argv. if argv = [''-f''] then Inr (sample_options\<lparr>opt_verbose := None, opt_soup_blocksize := None\<rparr>) else Inr sample_options),
      msg_verbose_level_name_to_level = (\<lambda>n. 9), msg_verbose_level_names = [''normal''],
      MESSAGE_LEVEL_NORMAL = 2, MESSAGE_LEVEL_QUIET = 0, MESSAGE_LEVEL_IMPOSSIBLE = 9,
      daemon_fails = False, main_loop_fails = False\<rparr>"

lemma command_line_checked_witness:
  "program_main sample_env sample_program [''-v'', ''loud''] [MethodCall (CallStart [])] sample_init = Some (EXIT_FAILURE, [], sample_init)"
proof -
  have "process_command_line sample_program [''-v'', ''loud''] =
      (-1, parsed_parameters sample_options (default_parameters sample_program)\<lparr>par_verbose_level := 9\<rparr>,
       [InvalidVerbosity ''loud'', ValidLevel ''normal''])"
    by (simp add: process_command_line_def sample_program_def sample_options_def Let_def)
  from command_line_checked [OF this, of sample_env "[MethodCall (CallStart [])]" sample_init]
  show ?thesis by simp
qed

text \<open>The block size given on the command line in KiB is the one that the streamer uses, in bytes, as
  long as it is less than 4 GiB.\<close>
lemma soup_block_size_exact:
  assumes "0 \<le> par_soup_http_blocksize_kb par" "par_soup_http_blocksize_kb par < 2 ^ 22"
  shows "int (soup_block_size par) = par_soup_http_blocksize_kb par * 1024"
proof -
  have "uint (word_of_int (par_soup_http_blocksize_kb par) * 1024 :: 32 word) = par_soup_http_blocksize_kb par * 1024"
    using assms by (simp add: uint_word_ariths uint_word_of_int take_bit_eq_mod)
  then show ?thesis by (simp add: soup_block_size_def)
qed

lemma soup_block_size_exact_witness: "int (soup_block_size ((default_parameters P)\<lparr>par_soup_http_blocksize_kb := 64\<rparr>)) = 65536"
  using soup_block_size_exact [of "(default_parameters P)\<lparr>par_soup_http_blocksize_kb := 64\<rparr>"] by simp

text \<open>C18. However the program ends, no GStreamer pipeline is left, no signal handler is connected to one,
  and no stream is current; and the methods are offered on D-Bus only after the streamer was set up,
  with the pipeline made, and never if the program ends with a failure.\<close>
theorem program_leaves_nothing:
  assumes "streamer_initial E s" "program_main E P argv evs s = Some (status, events, s')"
  shows "pipeline (pl s') = None \<and> signal_handler_ids (pl s') = [] \<and> current_stream (pl s') = None \<and>
    (DbusSetup \<in> set events \<longrightarrow> status = EXIT_SUCCESS \<and>
      (\<exists>pre rest. events = pre @ StreamerSetup # DbusSetup # rest \<and> DbusSetup \<notin> set pre))"
proof -
  have init: "pipeline (pl s) = None" "signal_handler_ids (pl s) = []" "current_stream (pl s) = None"
    using assms(1) by (auto simp: streamer_initial_def streamer_init_def pipeline_data_init_def)
  obtain ret par errs where cmd: "process_command_line P argv = (ret, par, errs)"
    by (metis prod_cases3)
  obtain failed ev where ps: "program_setup P par = (failed, ev)" by force
  have ev: "DbusSetup \<notin> set ev" using ps by (auto simp: program_setup_def split: if_splits)
  note body = assms(2) [unfolded program_main_def cmd prod.case, unfolded ps prod.case Let_def]
  show ?thesis
  proof (cases "ret = -1 \<or> ret = 1 \<or> failed \<or> main_loop_fails P")
    case True
    then show ?thesis using body init ev by (auto split: if_splits)
  next
    case False
    define ev1 where "ev1 = ev @ [show_buffer_parameter ''SOUP block size '' (par_soup_http_blocksize_kb par)]"
    have ev1: "DbusSetup \<notin> set ev1" using ev by (simp add: ev1_def show_buffer_parameter_def)
    obtain ok s1 where s1: "streamer_setup E False (soup_block_size par) (\<not> par_disable_boost par)
        (par_force_alsa_device par) s = Some (ok, s1)"
      using body False by (auto simp: bind_eq_Some_conv)
    show ?thesis
    proof (cases ok)
      case True
      let ?y = "\<lparr>sys_bus = dbus_setup dbus_bus_init, sys_streamer = s1\<rparr>"
      obtain ys where ys: "system_run E False evs ?y = Some ys"
          "s' = streamer_shutdown E (sys_streamer (last (?y # ys)))"
          "status = EXIT_SUCCESS" "events = ev1 @ StreamerSetup # DbusSetup # [MainLoopRun, StreamerShutdown]"
        using body False s1 True by (auto simp: bind_eq_Some_conv ev1_def)
      have "system_initial E ?y"
        using assms(1) s1 True by (auto simp: system_initial_def)
      then have "system_inv False (last (?y # ys))"
        by (intro system_player.run_inv [OF run_of_system_run [OF ys(1)]] system_player.inv_init)
      then have "streamer_core (any_order False) (sys_streamer (last (?y # ys)))"
        by (simp add: system_inv_def streamer_ok_def)
      then show ?thesis
        using shutdown_frame [of "sys_streamer (last (?y # ys))" E] ys ev1 by blast
    next
      case False
      then have "s' = s1" "events = ev1 @ [StreamerSetup]"
        using body \<open>\<not> (ret = -1 \<or> ret = 1 \<or> failed \<or> main_loop_fails P)\<close> s1 by (auto simp: bind_eq_Some_conv ev1_def)
      then show ?thesis
        using s1 False init ev1
        by (auto simp: streamer_setup_def bind_eq_Some_conv pipeline_wf_def dest!: create_playbin_frame split: if_splits)
    qed
  qed
qed

lemma program_leaves_nothing_witness:
  "\<exists>events s'. program_main sample_env sample_program [''-f''] [MethodCall CallActivate, MethodCall (CallStart [])] sample_init =
       Some (EXIT_SUCCESS, events, s') \<and> pipeline (pl s') = None"
proof -
  have "map_option fst (program_main sample_env sample_program [''-f''] [MethodCall CallActivate, MethodCall (CallStart [])] sample_init) = Some EXIT_SUCCESS"
    by code_simp
  then obtain events s' where "program_main sample_env sample_program [''-f''] [MethodCall CallActivate, MethodCall (CallStart [])] sample_init =
      Some (EXIT_SUCCESS, events, s')"
    by auto
  then show ?thesis using program_leaves_nothing [OF sample_initial] by blast
qed

text \<open>A block size of 4 GiB wraps to 0, which means the default.\<close>
lemma soup_block_size_wraps: "soup_block_size ((default_parameters P)\<lparr>par_soup_http_blocksize_kb := 2 ^ 22\<rparr>) = 0"
  by (simp add: soup_block_size_def)

text \<open>The parameter for the system bus is stored and never used.\<close>
lemma system_dbus_parsed:
  "parse_options P argv = Inr v \<Longrightarrow>
     process_command_line (P\<lparr>parse_options := \<lambda>_. Inr (v\<lparr>opt_system_dbus := b\<rparr>)\<rparr>) argv =
       (case process_command_line P argv of (ret, par, errs) \<Rightarrow> (ret, par\<lparr>par_connect_to_system_dbus := b\<rparr>, errs))"
  by (simp add: process_command_line_def Let_def parsed_parameters_def default_parameters_def split: option.split)

lemma system_dbus_ignored:
  "parse_options P argv = Inr v \<Longrightarrow>
     program_main E (P\<lparr>parse_options := \<lambda>_. Inr (v\<lparr>opt_system_dbus := b\<rparr>)\<rparr>) argv evs s = program_main E P argv evs s"
  by (cases "process_command_line P argv")
    (simp add: program_main_def system_dbus_parsed program_setup_def soup_block_size_def)

end
