(* ===== verification/Spec2Isabelle.thy ===== *)
theory Spec2Isabelle
  imports Url_Fifo Url_Collection Stopped_Reasons Buffering Boosted_Threads Thread_Observer Rnf_Call
    Call_Promise Cookie_Manager Call_Lifetime Gstring_Wrapper Item_Life Stream_Logging Streamer_Props
    Streamer_Order Streamer_Links Streamer_Gapless Streamer_Locks Streamer_Defects Meta_Data_Refs
    Streamer_Objects Dbus_Connection Player_System Program_Entry
begin

text \<open>
  A verification library of Streamplayer, the program of a streaming board that plays lists of audio
  streams by means of GStreamer and is controlled over D-Bus.

  \<^bold>\<open>The program.\<close>  A controller activates the player and pushes streams, each with alternative URLs,
  into a short queue, the URL FIFO.  The streamer takes the head of the queue as its current stream,
  gives the stream's URL to a GStreamer pipeline, and follows what the pipeline says on its message
  bus: changes of state, starts and ends of streams, errors, buffer levels, tags.  Shortly before a
  stream ends, the pipeline asks for the next one, so that there is no gap between them.  Some URLs
  are links, which a list broker has to resolve first; this takes a D-Bus call that may be answered
  at once or later, under a cookie.  Stop, skip, seek and pause come from the controller, the
  removal of USB devices from the mount daemon.  Everything that happens to a stream is told by
  D-Bus signals, each with the identifiers of the streams that were dropped on the way.

  \<^bold>\<open>Theories.\<close>  Source files are those of \<^verbatim>\<open>src/\<close>; definitions have the names of the functions
  they translate.  All operations of a component are in its theory.

  \<^item> \<open>Prelude\<close>: types of the program, crashes as values, reachable states and runs, and the locales
    \<open>machine\<close> (a step relation that keeps an invariant) and \<open>refinement\<close> (one that also implements
    an abstract step relation).
  \<^item> \<open>Url_Fifo\<close>: \<^verbatim>\<open>urlfifo.hh\<close>.  The queue with its removed and dropped items, operation by
    operation with the loops of the code; locale \<open>bounded_fifo\<close> for users of the queue.
  \<^item> \<open>Strbo_Usb_Url\<close>, \<open>Url_Collection\<close>: \<^verbatim>\<open>strbo_usb_url.cc\<close>, \<^verbatim>\<open>url_collection.cc\<close>,
    \<^verbatim>\<open>strbo_url.cc\<close>.  URLs and links, their expiry, and the collections of alternatives.
  \<^item> \<open>Stopped_Reasons\<close>, \<open>Buffering\<close>, \<open>Boosted_Threads\<close>, \<open>Stream_Data\<close>, \<open>Gstring_Wrapper\<close>: the
    classes of \<^verbatim>\<open>stopped_reasons.cc\<close>, \<^verbatim>\<open>buffering.hh\<close>, \<^verbatim>\<open>boosted_threads.cc\<close>,
    \<^verbatim>\<open>streamdata.hh\<close> (with the handling of tags and cover art in \<^verbatim>\<open>streamer.cc\<close> and the
    splitting of titles in \<^verbatim>\<open>stream_logging.cc\<close>), and \<^verbatim>\<open>gstringwrapper.hh\<close>.
    \<open>Thread_Observer\<close> is the debugging aid of \<^verbatim>\<open>boosted_threads.hh\<close>, \<open>Stream_Logging\<close> what
    \<^verbatim>\<open>stream_logging.cc\<close> writes about streams and errors.
  \<^item> \<open>Rnf_Call\<close>, \<open>Cookie_Manager\<close>, \<open>Airable_Call\<close>: \<^verbatim>\<open>rnfcall*.hh\<close>, \<^verbatim>\<open>rnfcall.cc\<close>,
    \<^verbatim>\<open>cookie_manager_impl.cc\<close>.  The life of a call as a machine, with aborts that interleave with it;
    the store of pending cookies (locale \<open>one_shot_store\<close>, interpreted for notifications and for
    fetches); and the calls that resolve links, kept in a list, with references as positions in it.
    \<open>Call_Lifetime\<close> says which calls are alive, and what their destructor does; \<open>Call_Promise\<close> that a call
    implements a promise that is settled once and handed out once.
  \<^item> \<open>Play_Item\<close>: \<^verbatim>\<open>playitem.cc\<close>.  An item of the queue with its state, its URLs, and a reference
    to the call that resolves its link.  \<open>Item_Life\<close> has items under any sequence of operations.
  \<^item> \<open>Streamer_State\<close>, \<open>Streamer_Core\<close>, \<open>Streamer_Handlers\<close>, \<open>Streamer_Api\<close>: \<^verbatim>\<open>streamer.cc\<close>, from
    its data classes to its public interface, with the D-Bus methods of \<^verbatim>\<open>dbus.cc\<close> that call it.
    A record \<open>streamer\<close> holds what the classes in \<open>StreamerData\<close> hold: the queue, the control data
    \<open>ctl\<close>, the pipeline data \<open>pl\<close>, the presentation data \<open>pr\<close>, the failure data \<open>fd\<close>, the threads, the
    calls \<open>rnfs\<close>; and the list \<open>trace\<close> of all signals and requests it made.
  \<^item> \<open>Streamer_Invariant\<close>, \<open>Streamer_Steps\<close>, \<open>Streamer_Machine\<close>: the invariant, its preservation by
    every function, and the machine of all entry points, with one label per D-Bus method, bus
    message, timer and broker signal.
  \<^item> \<open>Streamer_Safety\<close>, \<open>Streamer_Props\<close>, \<open>Streamer_Order\<close>: which calls cannot crash; what the entry
    points do; and the refinement of an abstract player of a list of streams, from which the order
    of playing follows.  \<open>Streamer_Links\<close> follows the answer to a link through all components, and
    \<open>Streamer_Gapless\<close> a whole queue that is played without gaps.  \<open>Streamer_Sample\<close> is the
    environment in which theorems are applied, and \<open>Streamer_Defects\<close> computes the inputs on which
    the code goes wrong.
  \<^item> \<open>Object_Heap\<close>, \<open>Meta_Data_Refs\<close>, \<open>Streamer_Objects\<close>: the objects of GLib and GStreamer behind the
    pointers of \<^verbatim>\<open>streamdata.hh\<close> and \<^verbatim>\<open>streamer.cc\<close>, and who owns references to them.  Locale
    \<open>counted_objects\<close> has the documented laws of reference counting, and is interpreted on a heap that uses
    addresses again; the theorems hold for every library that satisfies the laws.  Class \<open>StreamData\<close> with
    its pointers refines the one with values in \<open>Stream_Data\<close>, and injected failures outlive the
    pipelines they were made for.
  \<^item> \<open>Lock_Order\<close>, \<open>Streamer_Locks\<close>: code with nested locks, the locale \<open>lock_discipline\<close> that excludes
    deadlocks, and the locks which the functions of \<^verbatim>\<open>streamer.cc\<close> and of the calls take.  The
    locale is interpreted for the main loop and the streaming threads of GStreamer.
  \<^item> \<open>Dbus_Connection\<close>, \<open>Player_System\<close>, \<open>Program_Entry\<close>: the rest of \<^verbatim>\<open>dbus.cc\<close>, and
    \<^verbatim>\<open>streamplayer.cc\<close>: which method reaches which function, and when handlers are connected to signals; the
    system of bus and streamer, driven by the calls and signals of clients and the events of the
    pipeline; the command line, and \<open>main()\<close>, which runs that system.

  \<^bold>\<open>Conventions.\<close>  An operation that can crash gives an \<open>option\<close>, and \<open>None\<close> is the crash: a null
  pointer dereferenced, an access out of range, an overflow of a signed integer, or a failed
  \<open>msg_log_assert()\<close>; in \<open>Stream_Logging\<close>, a null pointer for the conversion \<^verbatim>\<open>%s\<close> as well.  Exceptions are values of a sum type.  Words of fixed width are used for stream
  identifiers and cookies; times and positions are integers with the overflow of 64 bits checked
  where a client's number gets in.  A call's arguments that are references to the locked parts of
  the state are the state itself.  The state of GStreamer, of the clock, and of other processes is a
  value of a type parameter, and what they do to it is a record of functions, \<open>streamer_env\<close>, about
  which nothing is assumed (the laws of reference counting apart): a function may return whatever the documentation of the library allows,
  and the step \<open>OpWorld\<close> lets the world change at any time.

  \<^bold>\<open>Lemmas.\<close>  Lemmas named \<open>\<dots>_frame\<close> say what an operation leaves alone, \<open>core_\<dots>\<close> that it keeps the
  invariant, \<open>\<dots>_defined\<close> when it cannot crash, \<open>\<dots>_trace\<close> what it emits.  The invariant has a
  parameter for what is demanded beyond consistency: items with URLs, and lists of identifiers that
  the current stream and the queue follow.  Its preservation is proved once, for all parameters,
  and gives the absence of crashes as well as the order of playing.

  \<^bold>\<open>Fuel.\<close>  One recursion of the program is not structural: resolving a link may be answered at once,
  which notifies the caller, who tries the next URL of the item, and so on.
  \<open>resolve_selected_url\<close> takes the number of rounds, and \<open>resolve_selected_url_or_play_uri\<close> gives it
  one more than \<open>resolver_rank\<close>, the number of URLs left to try in the two items concerned; theorem
  \<open>resolver_terminates\<close> says that this is enough, and that more rounds change nothing.

  \<^bold>\<open>Not modelled.\<close>  Log messages other than those of \<^verbatim>\<open>stream_logging.cc\<close>, and the macros that
  report a bug and go on; the logging of locks.  The model of the streamer leaves all log messages out,
  so that what it says about crashes does not cover tags that are missing in the log.  How often the
  D-Bus wrapper runs a handler that was connected several times is not in the sources: each call of
  a handler is an event.  The theories about locks cover the mutexes of the program, not the locks
  within GStreamer, nor a change of the pipeline's state that waits for streaming threads to end.  In the model of the streamer an entry point is one
  step, except for aborting a call, which gives its mutex up in between and takes two; the theories
  about locks are about what each entry point locks, and not about what it does in between.  In the
  streamer, calls stay in the list after their last reference is gone.  The text of version messages.
  Memory exhaustion.  Generated code and the libraries: GStreamer, GLib, the D-Bus wrapper, the
  message library.  It is assumed that \<open>msg_log_assert()\<close> ends the program, and that the clock does
  not overflow 64 bits.
\<close>

end
